(* ===== verification/Prelude.thy ===== *)
theory Prelude
  imports Main "HOL-Library.Word"
begin

unbundle bit_operations_syntax

text \<open>
  What every component of the SyncScribe model shares.

  \<^item> The machine types of the C sources: bytes and unsigned integers as words.
  \<^item> A C byte array (a receive buffer, the data of a variable, the payload of a packet) as a
    memory: a function from offsets to bytes. Reading a block is \<open>mem_read\<close>, \<open>memcpy\<close> into it is
    \<open>mem_put\<close>. The declared size of an array is not part of the memory; every copy of the model
    that the C code bounds by an array size is accompanied by a theorem that it stays inside.
  \<^item> Little-endian storage of integers (\<open>le_bytes\<close>, \<open>le_word\<close>): the sources copy packed structs
    byte for byte on little-endian hosts.
  \<^item> The search loops \<open>for (i = 0; i < MAX; i++) if (...) return &t[i];\<close> of the sources, which
    all are \<open>first_slot\<close>.
  \<^item> Generic facts on lists, words and the search, collected in \<open>mem_simps\<close>, \<open>le_simps\<close> and
    \<open>slot_simps\<close>.
\<close>

named_theorems mem_simps \<open>reading back what was copied into a C array\<close>
named_theorems le_simps \<open>little-endian storage\<close>
named_theorems slot_simps \<open>searching a fixed table of slots\<close>

type_synonym byte = "8 word"
type_synonym u16 = "16 word"
type_synonym u32 = "32 word"
type_synonym u64 = "64 word"
type_synonym mem = "nat \<Rightarrow> byte"

section \<open>Memories\<close>

definition mem_read :: "mem \<Rightarrow> nat \<Rightarrow> nat \<Rightarrow> byte list" where
  "mem_read m off n = map (\<lambda>k. m (off + k)) [0..<n]"

definition mem_put :: "nat \<Rightarrow> byte list \<Rightarrow> mem \<Rightarrow> mem" where
  "mem_put off bs m = (\<lambda>k. if off \<le> k \<and> k < off + length bs then bs ! (k - off) else m k)"

text \<open>\<open>memcpy (dst + off, src, n)\<close> between two arrays.\<close>

definition mem_copy :: "nat \<Rightarrow> mem \<Rightarrow> nat \<Rightarrow> mem \<Rightarrow> mem" where
  "mem_copy off src n dst = mem_put off (mem_read src 0 n) dst"

definition mem_shift :: "nat \<Rightarrow> mem \<Rightarrow> mem" where
  "mem_shift off m = (\<lambda>k. m (off + k))"

lemma length_mem_read [simp]: "length (mem_read m off n) = n"
  by (simp add: mem_read_def)

lemma nth_mem_read [simp]: "k < n \<Longrightarrow> mem_read m off n ! k = m (off + k)"
  by (simp add: mem_read_def)

lemma mem_read_0 [simp]: "mem_read m off 0 = []"
  by (simp add: mem_read_def)

lemma mem_put_Nil [simp]: "mem_put off [] m = m"
  by (rule ext) (auto simp: mem_put_def)

lemma mem_read_put [mem_simps]: "n = length bs \<Longrightarrow> mem_read (mem_put off bs m) off n = bs"
  by (rule nth_equalityI) (auto simp: mem_put_def)

lemma mem_read_put_disjoint [mem_simps]:
  "off + n \<le> off' \<or> off' + length bs \<le> off \<Longrightarrow>
    mem_read (mem_put off' bs m) off n = mem_read m off n"
  by (rule nth_equalityI) (auto simp: mem_put_def)

lemma mem_put_outside [mem_simps]:
  "k < off \<or> off + length bs \<le> k \<Longrightarrow> mem_put off bs m k = m k"
  by (auto simp: mem_put_def)

lemma mem_put_inside [mem_simps]:
  "off \<le> k \<Longrightarrow> k < off + length bs \<Longrightarrow> mem_put off bs m k = bs ! (k - off)"
  by (auto simp: mem_put_def)

lemma mem_read_copy [mem_simps]: "mem_read (mem_copy off src n dst) off n = mem_read src 0 n"
  by (simp add: mem_copy_def mem_read_put)

lemma mem_read_shift [mem_simps]: "mem_read (mem_shift a m) off n = mem_read m (a + off) n"
  by (rule nth_equalityI) (auto simp: mem_shift_def add.assoc)

lemma mem_read_add: "mem_read m off (a + b) = mem_read m off a @ mem_read m (off + a) b"
  by (rule nth_equalityI) (auto simp: nth_append add.assoc)

lemma take_mem_read [mem_simps]: "take a (mem_read m off n) = mem_read m off (min a n)"
  by (rule nth_equalityI) auto

lemma drop_mem_read [mem_simps]: "drop a (mem_read m off n) = mem_read m (off + a) (n - a)"
  by (rule nth_equalityI) (auto simp: add.assoc)

lemma mem_read_cong:
  "(\<And>k. k < n \<Longrightarrow> m (off + k) = m' (off' + k)) \<Longrightarrow> mem_read m off n = mem_read m' off' n"
  by (rule nth_equalityI) auto

lemma mem_read_put_append [mem_simps]:
  "n = length bs \<Longrightarrow> mem_read (mem_put a bs m) 0 (a + n) = mem_read m 0 a @ bs"
  by (simp add: mem_read_add mem_read_put mem_read_put_disjoint)

section \<open>Little-endian storage\<close>

definition le_bytes :: "nat \<Rightarrow> 'a::len word \<Rightarrow> byte list" where
  "le_bytes n w = map (\<lambda>k. ucast (drop_bit (8 * k) w)) [0..<n]"

fun le_word :: "byte list \<Rightarrow> 'a::len word" where
  "le_word [] = 0"
| "le_word (b # bs) = ucast b OR push_bit 8 (le_word bs)"

lemma length_le_bytes [simp]: "length (le_bytes n w) = n"
  by (simp add: le_bytes_def)

lemma bit_le_word:
  "bit (le_word bs :: 'a::len word) n \<longleftrightarrow>
     n < LENGTH('a) \<and> n < 8 * length bs \<and> bit (bs ! (n div 8)) (n mod 8)"
proof (induction bs arbitrary: n)
  case Nil
  then show ?case by simp
next
  case (Cons b bs)
  show ?case
  proof (cases "n < 8")
    case True
    then show ?thesis by (auto simp: bit_simps)
  next
    case False
    then obtain m where n: "n = m + 8" by (metis add.commute le_Suc_ex not_less)
    have "(m + 8) div 8 - Suc 0 = m div 8" by simp
    with n show ?thesis
      by (auto simp: bit_simps Cons.IH nth_Cons' dest: bit_imp_le_length)
  qed
qed

lemma le_word_le_bytes [le_simps]:
  "LENGTH('a) \<le> 8 * n \<Longrightarrow> le_word (le_bytes n (w :: 'a::len word)) = w"
proof (rule bit_word_eqI)
  fix k
  assume len: "LENGTH('a) \<le> 8 * n" and k: "k < LENGTH('a)"
  then have "k div 8 < n" by (simp add: less_mult_imp_div_less mult.commute)
  moreover have "8 * (k div 8) + k mod 8 = k" by simp
  ultimately show "bit (le_word (le_bytes n w) :: 'a word) k \<longleftrightarrow> bit w k"
    using len k by (simp add: bit_le_word le_bytes_def bit_simps)
qed

lemma le_bytes_le_word [le_simps]:
  "length bs = n \<Longrightarrow> 8 * n = LENGTH('a) \<Longrightarrow> le_bytes n (le_word bs :: 'a::len word) = bs"
proof (rule nth_equalityI)
  assume n: "length bs = n" "8 * n = LENGTH('a)"
  show "length (le_bytes n (le_word bs :: 'a word)) = length bs" using n by simp
  fix i
  assume "i < length (le_bytes n (le_word bs :: 'a word))"
  then have i: "i < n" by simp
  show "le_bytes n (le_word bs :: 'a word) ! i = bs ! i"
  proof (rule bit_word_eqI)
    fix k
    assume "k < LENGTH(8)"
    then have k: "k < 8" by simp
    have "8 * i + k < 8 * n" using i k by linarith
    moreover have "(8 * i + k) div 8 = i" "(8 * i + k) mod 8 = k" using k by simp_all
    ultimately show "bit (le_bytes n (le_word bs :: 'a word) ! i) k \<longleftrightarrow> bit (bs ! i) k"
      using n i k by (simp add: le_bytes_def bit_simps bit_le_word)
  qed
qed

section \<open>Searching a table of slots\<close>

definition first_slot :: "nat \<Rightarrow> (nat \<Rightarrow> bool) \<Rightarrow> nat option" where
  "first_slot n P = List.find P [0..<n]"

lemma first_slot_None [slot_simps]: "first_slot n P = None \<longleftrightarrow> (\<forall>i<n. \<not> P i)"
  by (auto simp: first_slot_def find_None_iff)

lemma first_slot_Some:
  "first_slot n P = Some i \<longleftrightarrow> i < n \<and> P i \<and> (\<forall>j<i. \<not> P j)"
proof -
  have "first_slot n P = Some i \<longleftrightarrow>
    (\<exists>k<length [0..<n]. P ([0..<n] ! k) \<and> i = [0..<n] ! k \<and> (\<forall>j<k. \<not> P ([0..<n] ! j)))"
    by (simp only: first_slot_def find_Some_iff)
  then show ?thesis by auto
qed

lemma first_slot_SomeD: "first_slot n P = Some i \<Longrightarrow> i < n \<and> P i"
  by (simp add: first_slot_Some)

lemma first_slot_unique:
  "i < n \<Longrightarrow> P i \<Longrightarrow> (\<And>j. j < n \<Longrightarrow> P j \<Longrightarrow> j = i) \<Longrightarrow> first_slot n P = Some i"
  unfolding first_slot_Some by (metis less_trans nat_neq_iff)

lemma first_slot_cong:
  "(\<And>i. i < n \<Longrightarrow> P i = Q i) \<Longrightarrow> first_slot n P = first_slot n Q"
  unfolding first_slot_def by (rule find_cong) auto

text \<open>The number of slots that satisfy a predicate, and how one changed slot changes it.\<close>

definition count_slots :: "nat \<Rightarrow> (nat \<Rightarrow> bool) \<Rightarrow> nat" where
  "count_slots n P = length (filter P [0..<n])"

lemma count_slots_card: "count_slots n P = card {i. i < n \<and> P i}"
proof -
  have "count_slots n P = card (set (filter P [0..<n]))"
    unfolding count_slots_def by (rule distinct_card [symmetric]) simp
  also have "set (filter P [0..<n]) = {i. i < n \<and> P i}" by auto
  finally show ?thesis .
qed

lemma count_slots_cong: "(\<And>i. i < n \<Longrightarrow> P i = Q i) \<Longrightarrow> count_slots n P = count_slots n Q"
  by (auto simp: count_slots_card intro: arg_cong [where f = card])

lemma count_slots_le: "count_slots n P \<le> n"
  by (simp add: count_slots_def) (metis diff_zero length_filter_le length_upt)

lemma count_slots_set:
  assumes "i < n" "\<not> P i" "Q i" "\<And>j. j < n \<Longrightarrow> j \<noteq> i \<Longrightarrow> Q j = P j"
  shows "count_slots n Q = Suc (count_slots n P)"
proof -
  have "{j. j < n \<and> Q j} = insert i {j. j < n \<and> P j}"
    using assms by auto
  then show ?thesis using assms(2) by (simp add: count_slots_card)
qed

lemma count_slots_clear:
  assumes "i < n" "P i" "\<not> Q i" "\<And>j. j < n \<Longrightarrow> j \<noteq> i \<Longrightarrow> Q j = P j"
  shows "Suc (count_slots n Q) = count_slots n P"
  using count_slots_set [of i n Q P] assms by auto

lemma count_slots_all: "(\<And>i. i < n \<Longrightarrow> P i) \<Longrightarrow> count_slots n P = n"
  by (simp add: count_slots_def filter_True)

lemma of_nat_pred: "Suc m = n \<Longrightarrow> (of_nat n :: 'a::len word) - 1 = of_nat m"
  by auto

lemma count_slots_0: "count_slots n P = 0 \<longleftrightarrow> (\<forall>i<n. \<not> P i)"
  by (auto simp: count_slots_card)

section \<open>Bounds of masked and narrowed words\<close>

lemma unat_and_le: "unat (a AND b :: 'a::len word) \<le> unat b"
  using word_and_le1 word_le_nat_alt by blast

lemma unat_of_nat_small: "k < 2 ^ LENGTH('a) \<Longrightarrow> unat (of_nat k :: 'a::len word) = k"
  by (simp add: unsigned_of_nat take_bit_nat_eq_self)

lemma unat_ucast_small:
  "unat (w :: 'b::len word) < 2 ^ LENGTH('a) \<Longrightarrow> unat (ucast w :: 'a::len word) = unat w"
  by (simp add: unsigned_ucast_eq take_bit_nat_eq_self)

lemma unat_ucast_le:
  assumes "LENGTH('b) \<le> LENGTH('a)"
  shows "unat (ucast (w :: 'b::len word) :: 'a::len word) = unat w"
proof (rule unat_ucast_small)
  have "unat w < 2 ^ LENGTH('b)" by simp
  also have "(2::nat) ^ LENGTH('b) \<le> 2 ^ LENGTH('a)" using assms by (simp add: power_increasing)
  finally show "unat w < 2 ^ LENGTH('a)" .
qed

text \<open>A word below \<open>2 ^ n\<close> has no bit at or above \<open>n\<close>.\<close>

lemma small_bit: "unat (w :: 'a::len word) < 2 ^ n \<Longrightarrow> bit w k \<Longrightarrow> k < n"
proof -
  assume less: "unat w < 2 ^ n" and k: "bit w k"
  then have "bit (unat w) k" by (simp add: bit_unsigned_iff bit_imp_le_length)
  moreover have "take_bit n (unat w) = unat w" using less by (simp add: take_bit_nat_eq_self)
  ultimately show "k < n" by (metis bit_take_bit_iff)
qed

lemma xor_eq_0_iff: "a XOR b = (0 :: 'a::len word) \<longleftrightarrow> a = b"
  by (auto simp: bit_eq_iff bit_xor_iff)

text \<open>The bytes of an Isabelle string literal, and a memory that holds given bytes and then zeros.\<close>

definition cstr :: "string \<Rightarrow> byte list" where
  "cstr s = map of_char s"

definition mem_of :: "byte list \<Rightarrow> mem" where
  "mem_of bs = (\<lambda>k. if k < length bs then bs ! k else 0)"

lemma mem_read_mem_of [mem_simps]: "n \<le> length bs \<Longrightarrow> mem_read (mem_of bs) 0 n = take n bs"
  by (rule nth_equalityI) (auto simp: mem_of_def)

end
