(* ===== verification/Wire.thy ===== *)
theory Wire
  imports Prelude
begin

unbundle bit_operations_syntax

text \<open>
  The wire format: \<^verbatim>\<open>src/libsyncs/syncs-types.h\<close> (constants, packed structs, size macros) and the
  inline functions of \<^verbatim>\<open>src/libsyncs/syncs-common.h\<close> (ids, header filling, sizes of types).

  A packed struct is a record; its memory image is given by a \<open>_bytes\<close> function (what
  \<open>memcpy\<close> or \<open>send\<close> of the struct sees) and read back by an \<open>_of_bytes\<close> function (what the cast of
  a buffer to the struct type sees). The lemmas show that the two are inverse to each other, so the
  layout loses nothing, and describe the id functions on every name, over-long ones included.
\<close>

section \<open>Constants\<close>

abbreviation (input) SYNCS_DEFAULT_SYNC_OFFSET_MS :: int where "SYNCS_DEFAULT_SYNC_OFFSET_MS \<equiv> 300"
abbreviation (input) SYNCS_EVENT_MAXIMUM :: nat where "SYNCS_EVENT_MAXIMUM \<equiv> 256"
abbreviation (input) SYNCS_VARIABLE_SIZE_MAXIMUM :: nat where "SYNCS_VARIABLE_SIZE_MAXIMUM \<equiv> 511"
abbreviation (input) SYNCS_EVENT_DATA_SIZE_MAXIMUM :: nat where "SYNCS_EVENT_DATA_SIZE_MAXIMUM \<equiv> 4095"
abbreviation (input) SYNCS_VARIABLE_INFO_SIZE_MAXIMUM :: nat where "SYNCS_VARIABLE_INFO_SIZE_MAXIMUM \<equiv> 32"
abbreviation (input) SYNCS_CLIENT_MAXIMUM :: nat where "SYNCS_CLIENT_MAXIMUM \<equiv> 64"
abbreviation (input) SYNCS_CHANNEL_MAXIMUM :: nat where "SYNCS_CHANNEL_MAXIMUM \<equiv> 32"
abbreviation (input) SYNCS_EVENT_NAME_SIZE :: nat where "SYNCS_EVENT_NAME_SIZE \<equiv> 32"
abbreviation (input) SYNCS_CLIENT_BUFFER_SIZE :: nat where "SYNCS_CLIENT_BUFFER_SIZE \<equiv> 32768"

abbreviation (input) SYNCS_PACKET_MAGIC :: byte where "SYNCS_PACKET_MAGIC \<equiv> 0x53"
abbreviation (input) SYNCS_PACKET_MAGIC_DATA :: byte where "SYNCS_PACKET_MAGIC_DATA \<equiv> 0x44"
abbreviation (input) UDP_SOCKET_STUB :: int where "UDP_SOCKET_STUB \<equiv> -2"
abbreviation (input) SYNCS_VERSION_MAJOR :: u32 where "SYNCS_VERSION_MAJOR \<equiv> 2"
abbreviation (input) SYNCS_VERSION_MINOR :: u32 where "SYNCS_VERSION_MINOR \<equiv> 1"

abbreviation (input) SYNCS_TYPE_EMPTY :: u32 where "SYNCS_TYPE_EMPTY \<equiv> 0x00"
abbreviation (input) SYNCS_TYPE_CLIENT_ID :: u32 where "SYNCS_TYPE_CLIENT_ID \<equiv> 0x01"
abbreviation (input) SYNCS_TYPE_EVENT :: u32 where "SYNCS_TYPE_EVENT \<equiv> 0x02"
abbreviation (input) SYNCS_TYPE_WRITE :: u32 where "SYNCS_TYPE_WRITE \<equiv> 0x03"
abbreviation (input) SYNCS_TYPE_READ :: u32 where "SYNCS_TYPE_READ \<equiv> 0x04"
abbreviation (input) SYNCS_TYPE_SUBSCRIBE :: u32 where "SYNCS_TYPE_SUBSCRIBE \<equiv> 0x05"
abbreviation (input) SYNCS_TYPE_UNSUBSCRIBE :: u32 where "SYNCS_TYPE_UNSUBSCRIBE \<equiv> 0x06"
abbreviation (input) SYNCS_TYPE_DEFINE :: u32 where "SYNCS_TYPE_DEFINE \<equiv> 0x07"
abbreviation (input) SYNCS_TYPE_UNDEFINE :: u32 where "SYNCS_TYPE_UNDEFINE \<equiv> 0x08"
abbreviation (input) SYNCS_TYPE_EVENT_LIST :: u32 where "SYNCS_TYPE_EVENT_LIST \<equiv> 0x09"
abbreviation (input) SYNCS_TYPE_CLIENT_LIST :: u32 where "SYNCS_TYPE_CLIENT_LIST \<equiv> 0x0a"
abbreviation (input) SYNCS_TYPE_SERVER_STATUS :: u32 where "SYNCS_TYPE_SERVER_STATUS \<equiv> 0x0b"
abbreviation (input) SYNCS_TYPE_CHANNEL :: u32 where "SYNCS_TYPE_CHANNEL \<equiv> 0x0d"
abbreviation (input) SYNCS_TYPE_CHANNEL_LIST :: u32 where "SYNCS_TYPE_CHANNEL_LIST \<equiv> 0x0e"
abbreviation (input) SYNCS_TYPE_MSG_MASK :: u32 where "SYNCS_TYPE_MSG_MASK \<equiv> 0x0f"

abbreviation (input) SYNCS_TYPE_SYNC :: u32 where "SYNCS_TYPE_SYNC \<equiv> 0x0010"
abbreviation (input) SYNCS_TYPE_ECHO :: u32 where "SYNCS_TYPE_ECHO \<equiv> 0x0020"
abbreviation (input) SYNCS_TYPE_FORCE :: u32 where "SYNCS_TYPE_FORCE \<equiv> 0x0080"
abbreviation (input) SYNCS_TYPE_FLAGS_MASK :: u32 where "SYNCS_TYPE_FLAGS_MASK \<equiv> 0x00f0"

abbreviation (input) SYNCS_TYPE_VAR_NOT_DEFINED :: u32 where "SYNCS_TYPE_VAR_NOT_DEFINED \<equiv> 0x0000"
abbreviation (input) SYNCS_TYPE_VAR_EMPTY :: u32 where "SYNCS_TYPE_VAR_EMPTY \<equiv> 0x0100"
abbreviation (input) SYNCS_TYPE_VAR_INT32 :: u32 where "SYNCS_TYPE_VAR_INT32 \<equiv> 0x0200"
abbreviation (input) SYNCS_TYPE_VAR_INT64 :: u32 where "SYNCS_TYPE_VAR_INT64 \<equiv> 0x0300"
abbreviation (input) SYNCS_TYPE_VAR_FLOAT :: u32 where "SYNCS_TYPE_VAR_FLOAT \<equiv> 0x0400"
abbreviation (input) SYNCS_TYPE_VAR_DOUBLE :: u32 where "SYNCS_TYPE_VAR_DOUBLE \<equiv> 0x0500"
abbreviation (input) SYNCS_TYPE_VAR_STRING :: u32 where "SYNCS_TYPE_VAR_STRING \<equiv> 0x0600"
abbreviation (input) SYNCS_TYPE_VAR_STRUCTURE :: u32 where "SYNCS_TYPE_VAR_STRUCTURE \<equiv> 0x0700"
abbreviation (input) SYNCS_TYPE_VAR_ANY :: u32 where "SYNCS_TYPE_VAR_ANY \<equiv> 0x0f00"
abbreviation (input) SYNCS_TYPE_VAR_MASK :: u32 where "SYNCS_TYPE_VAR_MASK \<equiv> 0x0f00"

abbreviation (input) SYNCS_TYPE_CHANNEL_MASK :: u32 where "SYNCS_TYPE_CHANNEL_MASK \<equiv> 0x0700"
abbreviation (input) SYNCS_CHANNEL_ANONS :: u32 where "SYNCS_CHANNEL_ANONS \<equiv> 0x1000"
abbreviation (input) SYNCS_CHANNEL_REQUEST :: u32 where "SYNCS_CHANNEL_REQUEST \<equiv> 0x2000"
abbreviation (input) SYNCS_CHANNEL_TICKET :: u32 where "SYNCS_CHANNEL_TICKET \<equiv> 0x3000"
abbreviation (input) SYNCS_CHANNEL_MASK :: u32 where "SYNCS_CHANNEL_MASK \<equiv> 0xf000"
abbreviation (input) SYNCS_STATUS_LOST :: u32 where "SYNCS_STATUS_LOST \<equiv> 0x10000000"

abbreviation (input) SYNCS_ERROR_NOTFOUND :: u64 where "SYNCS_ERROR_NOTFOUND \<equiv> 0"
abbreviation (input) SYNCS_ERROR_NOTSUPPORT :: u64 where "SYNCS_ERROR_NOTSUPPORT \<equiv> 1"
abbreviation (input) SYNCS_ERROR_UNKNOWNCLIENT :: u64 where "SYNCS_ERROR_UNKNOWNCLIENT \<equiv> 2"
abbreviation (input) SYNCS_ERROR_CRYPT :: u64 where "SYNCS_ERROR_CRYPT \<equiv> 3"

section \<open>Structures\<close>

text \<open>
  \<open>union syncs_id\<close>: 32 bytes seen as four 64-bit integers (\<open>i\<close>) or as characters (\<open>c\<close>). The record
  holds the integers; \<open>id_bytes\<close> is the \<open>c\<close> view.
\<close>

record syncsid =
  id_i0 :: u64
  id_i1 :: u64
  id_i2 :: u64
  id_i3 :: u64

record syncdata =
  data0 :: u32
  data1 :: u32

record syncs_header =
  h_magic :: byte
  h_crc :: u32
  h_type :: u32
  h_id :: syncsid
  h_sync :: syncdata
  h_update_counter :: u64
  h_data_size :: u16
  h_magic_data :: byte

record syncs_packet =
  p_header :: syncs_header
  p_buffer :: mem

record syncs_channel_ticket =
  t_ip :: u32
  t_port :: u16
  t_flags :: u32

definition id_bytes :: "syncsid \<Rightarrow> byte list" where
  "id_bytes a = le_bytes 8 (id_i0 a) @ le_bytes 8 (id_i1 a) @ le_bytes 8 (id_i2 a) @ le_bytes 8 (id_i3 a)"

definition id_of_bytes :: "byte list \<Rightarrow> syncsid" where
  "id_of_bytes bs =
     \<lparr>id_i0 = le_word (take 8 bs), id_i1 = le_word (take 8 (drop 8 bs)),
      id_i2 = le_word (take 8 (drop 16 bs)), id_i3 = le_word (take 8 (drop 24 bs))\<rparr>"

text \<open>The element \<open>id.c[k]\<close> and the assignment \<open>id.c[k] = b\<close>.\<close>

definition id_c :: "syncsid \<Rightarrow> nat \<Rightarrow> byte" where
  "id_c a k = id_bytes a ! k"

definition id_set_c :: "nat \<Rightarrow> byte \<Rightarrow> syncsid \<Rightarrow> syncsid" where
  "id_set_c k b a = id_of_bytes ((id_bytes a)[k := b])"

abbreviation (input) sizeof_syncs_header :: nat where "sizeof_syncs_header \<equiv> 60"
abbreviation (input) sizeof_syncs_channel_ticket :: nat where "sizeof_syncs_channel_ticket \<equiv> 10"

definition header_bytes :: "syncs_header \<Rightarrow> byte list" where
  "header_bytes h =
     [h_magic h] @ le_bytes 4 (h_crc h) @ le_bytes 4 (h_type h) @ id_bytes (h_id h) @
     le_bytes 4 (data0 (h_sync h)) @ le_bytes 4 (data1 (h_sync h)) @
     le_bytes 8 (h_update_counter h) @ le_bytes 2 (h_data_size h) @ [h_magic_data h]"

definition header_of_bytes :: "byte list \<Rightarrow> syncs_header" where
  "header_of_bytes bs =
     \<lparr>h_magic = bs ! 0, h_crc = le_word (take 4 (drop 1 bs)), h_type = le_word (take 4 (drop 5 bs)),
      h_id = id_of_bytes (take 32 (drop 9 bs)),
      h_sync = \<lparr>data0 = le_word (take 4 (drop 41 bs)), data1 = le_word (take 4 (drop 45 bs))\<rparr>,
      h_update_counter = le_word (take 8 (drop 49 bs)),
      h_data_size = le_word (take 2 (drop 57 bs)), h_magic_data = bs ! 59\<rparr>"

definition ticket_bytes :: "syncs_channel_ticket \<Rightarrow> byte list" where
  "ticket_bytes t = le_bytes 4 (t_ip t) @ le_bytes 2 (t_port t) @ le_bytes 4 (t_flags t)"

definition ticket_of_bytes :: "byte list \<Rightarrow> syncs_channel_ticket" where
  "ticket_of_bytes bs =
     \<lparr>t_ip = le_word (take 4 bs), t_port = le_word (take 2 (drop 4 bs)),
      t_flags = le_word (take 4 (drop 6 bs))\<rparr>"

section \<open>Size macros\<close>

definition SYNCS_PACKET_DATA_SIZE :: "u32 \<Rightarrow> u32" where
  "SYNCS_PACKET_DATA_SIZE data_size = data_size AND 0x0fff"

definition SYNCS_PACKET_SIZE_PADDING :: "u32 \<Rightarrow> u32" where
  "SYNCS_PACKET_SIZE_PADDING data_size = drop_bit 12 data_size"

definition SYNCS_SET_PACKET_SIZE :: "u32 \<Rightarrow> u32 \<Rightarrow> u32" where
  "SYNCS_SET_PACKET_SIZE sz pad = push_bit 12 pad OR SYNCS_PACKET_DATA_SIZE sz"

definition SYNCS_PACKET_SIZE :: "syncs_packet \<Rightarrow> nat" where
  "SYNCS_PACKET_SIZE p =
     sizeof_syncs_header + unat (SYNCS_PACKET_DATA_SIZE (ucast (h_data_size (p_header p))))"

text \<open>The first \<open>n\<close> bytes of a packet in memory.\<close>

definition packet_bytes :: "syncs_packet \<Rightarrow> nat \<Rightarrow> byte list" where
  "packet_bytes p n = take n (header_bytes (p_header p)) @ mem_read (p_buffer p) 0 (n - sizeof_syncs_header)"

text \<open>A packet laid over a buffer at an offset, as the cast to \<open>struct syncs_packet *\<close> does.\<close>

definition packet_at :: "mem \<Rightarrow> nat \<Rightarrow> syncs_packet" where
  "packet_at m off =
     \<lparr>p_header = header_of_bytes (mem_read m off sizeof_syncs_header),
      p_buffer = mem_shift (off + sizeof_syncs_header) m\<rparr>"

section \<open>Ids\<close>

definition syncs_idcmp :: "syncsid \<Rightarrow> syncsid \<Rightarrow> bool" where
  "syncs_idcmp a b \<longleftrightarrow>
     id_i0 a = id_i0 b \<and> id_i1 a = id_i1 b \<and> id_i2 a = id_i2 b \<and> id_i3 a = id_i3 b"

text \<open>
  A C string argument is its list of bytes; reading past the list reads the terminator, so a list
  with a zero byte inside stands for the string that ends there.
\<close>

definition c_head :: "byte list \<Rightarrow> byte" where
  "c_head b = (case b of [] \<Rightarrow> 0 | x # _ \<Rightarrow> x)"

fun idcmp_str_loop :: "nat \<Rightarrow> byte list \<Rightarrow> byte list \<Rightarrow> bool" where
  "idcmp_str_loop 0 s b = (hd s = c_head b)"
| "idcmp_str_loop (Suc i) s b =
     (if c_head b = 0 then hd s = c_head b
      else if hd s \<noteq> c_head b then False
      else idcmp_str_loop i (tl s) (tl b))"

definition syncs_idcmp_str :: "syncsid \<Rightarrow> byte list \<Rightarrow> bool" where
  "syncs_idcmp_str a b = idcmp_str_loop (SYNCS_EVENT_NAME_SIZE - 1) (id_bytes a) b"

definition syncs_idcpy :: "syncsid \<Rightarrow> syncsid \<Rightarrow> syncsid" where
  "syncs_idcpy a b = a\<lparr>id_i0 := id_i0 b, id_i1 := id_i1 b, id_i2 := id_i2 b, id_i3 := id_i3 b\<rparr>"

text \<open>
  The copy loop \<open>while (--i && (*s++ = *b++) != 0);\<close> started with \<open>i = n + 1\<close>: the bytes it writes,
  at most \<open>n\<close>, the terminator included when it is reached.
\<close>

fun str_copy_loop :: "nat \<Rightarrow> byte list \<Rightarrow> byte list" where
  "str_copy_loop 0 b = []"
| "str_copy_loop (Suc n) b =
     (if c_head b = 0 then [0] else c_head b # str_copy_loop n (tl b))"

definition syncs_idstr :: "byte list \<Rightarrow> syncsid" where
  "syncs_idstr b =
     id_of_bytes (let w = str_copy_loop (SYNCS_EVENT_NAME_SIZE - 1) b
                  in w @ replicate (SYNCS_EVENT_NAME_SIZE - length w) 0)"

text \<open>\<open>syncs_stridcpy (a, b)\<close>: the bytes written at \<open>a\<close>.\<close>

definition syncs_stridcpy :: "syncsid \<Rightarrow> byte list" where
  "syncs_stridcpy b = str_copy_loop (SYNCS_EVENT_NAME_SIZE - 1) (id_bytes b)"

section \<open>Types and headers\<close>

definition syncs_get_size_by_type :: "u32 \<Rightarrow> u32" where
  "syncs_get_size_by_type type =
     (let t = type AND SYNCS_TYPE_VAR_MASK
      in if t = SYNCS_TYPE_VAR_FLOAT \<or> t = SYNCS_TYPE_VAR_INT32 then 4
         else if t = SYNCS_TYPE_VAR_DOUBLE \<or> t = SYNCS_TYPE_VAR_INT64 then 8
         else 0)"

definition syncs_fill_basic_header :: "u32 \<Rightarrow> syncs_header \<Rightarrow> syncs_header" where
  "syncs_fill_basic_header type p =
     p\<lparr>h_magic := SYNCS_PACKET_MAGIC, h_magic_data := SYNCS_PACKET_MAGIC_DATA, h_type := type\<rparr>"

definition syncs_fill_basic_header_request :: "u32 \<Rightarrow> syncs_header \<Rightarrow> syncs_header" where
  "syncs_fill_basic_header_request type p = (syncs_fill_basic_header type p)\<lparr>h_data_size := 0\<rparr>"

definition syncs_fill_header :: "syncsid \<Rightarrow> u32 \<Rightarrow> syncs_header \<Rightarrow> syncs_header" where
  "syncs_fill_header i type p =
     (let q = syncs_fill_basic_header type p in q\<lparr>h_id := syncs_idcpy (h_id q) i\<rparr>)"

definition syncs_fill_header_str :: "byte list \<Rightarrow> u32 \<Rightarrow> syncs_header \<Rightarrow> syncs_header" where
  "syncs_fill_header_str cid type p = (syncs_fill_basic_header type p)\<lparr>h_id := syncs_idstr cid\<rparr>"

definition syncs_fill_header_request_str :: "byte list \<Rightarrow> u32 \<Rightarrow> syncs_header \<Rightarrow> syncs_header" where
  "syncs_fill_header_request_str cid type p =
     (syncs_fill_basic_header_request type p)\<lparr>h_id := syncs_idstr cid\<rparr>"

definition syncs_fill_header_request_id :: "syncsid \<Rightarrow> u32 \<Rightarrow> syncs_header \<Rightarrow> syncs_header" where
  "syncs_fill_header_request_id i type p =
     (let q = syncs_fill_basic_header_request type p in q\<lparr>h_id := syncs_idcpy (h_id q) i\<rparr>)"


section \<open>The layout loses nothing\<close>

lemma length_id_bytes [simp]: "length (id_bytes a) = 32"
  by (simp add: id_bytes_def)

lemma length_header_bytes [simp]: "length (header_bytes h) = sizeof_syncs_header"
  by (simp add: header_bytes_def)

lemma length_ticket_bytes [simp]: "length (ticket_bytes t) = sizeof_syncs_channel_ticket"
  by (simp add: ticket_bytes_def)

text \<open>Cutting a list of known length into two pieces of known length.\<close>

lemma length_split:
  assumes "length xs = a + b"
  obtains ys zs where "xs = ys @ zs" "length ys = a" "length zs = b"
  using assms append_take_drop_id [of a xs]
  by (metis add_diff_cancel_left' length_drop length_take le_add1 min.absorb2)

lemma id_of_bytes_id_bytes [simp]: "id_of_bytes (id_bytes a) = a"
  by (simp add: id_of_bytes_def id_bytes_def le_word_le_bytes)

lemma id_bytes_id_of_bytes [simp]:
  assumes "length bs = 32"
  shows "id_bytes (id_of_bytes bs) = bs"
proof -
  from assms obtain b0 r0 where r0: "bs = b0 @ r0" "length b0 = 8" "length r0 = 24"
    by (metis length_split [of bs 8 24] numeral_plus_numeral add_num_simps(1-9))
  from r0(3) obtain b1 r1 where r1: "r0 = b1 @ r1" "length b1 = 8" "length r1 = 16"
    by (auto elim: length_split [of r0 8 16, simplified])
  from r1(3) obtain b2 b3 where r2: "r1 = b2 @ b3" "length b2 = 8" "length b3 = 8"
    by (auto elim: length_split [of r1 8 8, simplified])
  show ?thesis
    using r0 r1 r2 by (simp add: id_bytes_def id_of_bytes_def le_bytes_le_word)
qed

lemma header_of_bytes_header_bytes [simp]: "header_of_bytes (header_bytes h) = h"
  by (simp add: header_of_bytes_def header_bytes_def le_word_le_bytes nth_append)

lemma ticket_of_bytes_ticket_bytes [simp]: "ticket_of_bytes (ticket_bytes t) = t"
  by (simp add: ticket_of_bytes_def ticket_bytes_def le_word_le_bytes)

lemma header_bytes_header_of_bytes [simp]:
  assumes "length bs = sizeof_syncs_header"
  shows "header_bytes (header_of_bytes bs) = bs"
proof -
  from assms obtain m r0 where r0: "bs = m @ r0" "length m = 1" "length r0 = 59"
    by (auto elim: length_split [of bs 1 59, simplified])
  from r0(3) obtain crc r1 where r1: "r0 = crc @ r1" "length crc = 4" "length r1 = 55"
    by (auto elim: length_split [of r0 4 55, simplified])
  from r1(3) obtain ty r2 where r2: "r1 = ty @ r2" "length ty = 4" "length r2 = 51"
    by (auto elim: length_split [of r1 4 51, simplified])
  from r2(3) obtain i r3 where r3: "r2 = i @ r3" "length i = 32" "length r3 = 19"
    by (auto elim: length_split [of r2 32 19, simplified])
  from r3(3) obtain d0 r4 where r4: "r3 = d0 @ r4" "length d0 = 4" "length r4 = 15"
    by (auto elim: length_split [of r3 4 15, simplified])
  from r4(3) obtain d1 r5 where r5: "r4 = d1 @ r5" "length d1 = 4" "length r5 = 11"
    by (auto elim: length_split [of r4 4 11, simplified])
  from r5(3) obtain u r6 where r6: "r5 = u @ r6" "length u = 8" "length r6 = 3"
    by (auto elim: length_split [of r5 8 3, simplified])
  from r6(3) obtain z md where r7: "r6 = z @ md" "length z = 2" "length md = 1"
    by (auto elim: length_split [of r6 2 1, simplified])
  from r0(2) r7(3) obtain a b where ab: "m = [a]" "md = [b]"
    by (auto simp: length_Suc_conv)
  show ?thesis
    using r0 r1 r2 r3 r4 r5 r6 r7 ab
    by (simp add: header_bytes_def header_of_bytes_def le_bytes_le_word nth_append)
qed

text \<open>
  What the receiver of the bytes of a packet sees at the place where it put them: the header, and the
  payload up to the size it asks for.
\<close>

lemma packet_at_header:
  "mem_read m off sizeof_syncs_header = header_bytes h \<Longrightarrow> p_header (packet_at m off) = h"
  by (simp add: packet_at_def)

lemma packet_at_buffer:
  "mem_read (p_buffer (packet_at m off)) k n = mem_read m (off + sizeof_syncs_header + k) n"
  by (simp add: packet_at_def mem_simps)

lemma packet_bytes_split:
  "sizeof_syncs_header \<le> n \<Longrightarrow>
     packet_bytes p n = header_bytes (p_header p) @ mem_read (p_buffer p) 0 (n - sizeof_syncs_header)"
  by (simp add: packet_bytes_def)

lemma length_packet_bytes [simp]: "length (packet_bytes p n) = n"
  by (simp add: packet_bytes_def)

lemma packet_at_packet_bytes:
  assumes "mem_read m off n = packet_bytes p n" "sizeof_syncs_header \<le> n"
  shows "p_header (packet_at m off) = p_header p"
    and "mem_read (p_buffer (packet_at m off)) 0 (n - sizeof_syncs_header)
           = mem_read (p_buffer p) 0 (n - sizeof_syncs_header)"
proof -
  have split: "mem_read m off sizeof_syncs_header @ mem_read m (off + sizeof_syncs_header) (n - sizeof_syncs_header)
      = header_bytes (p_header p) @ mem_read (p_buffer p) 0 (n - sizeof_syncs_header)"
    using assms mem_read_add [of m off sizeof_syncs_header "n - sizeof_syncs_header"]
    by (simp add: packet_bytes_split)
  then have "mem_read m off sizeof_syncs_header = header_bytes (p_header p)" by simp
  then show "p_header (packet_at m off) = p_header p" by (rule packet_at_header)
  from split show "mem_read (p_buffer (packet_at m off)) 0 (n - sizeof_syncs_header)
      = mem_read (p_buffer p) 0 (n - sizeof_syncs_header)"
    using packet_at_buffer [of m off 0 "n - sizeof_syncs_header"] by simp
qed

lemma SYNCS_PACKET_SIZE_ge [simp]: "sizeof_syncs_header \<le> SYNCS_PACKET_SIZE p"
  by (simp add: SYNCS_PACKET_SIZE_def)

lemma data_size_le: "unat (SYNCS_PACKET_DATA_SIZE n) \<le> SYNCS_EVENT_DATA_SIZE_MAXIMUM"
  using unat_and_le [of n "0x0fff"] by (simp add: SYNCS_PACKET_DATA_SIZE_def)

section \<open>Ids as names\<close>

definition c_str :: "byte list \<Rightarrow> byte list" where
  "c_str b = takeWhile (\<lambda>x. x \<noteq> 0) b"

lemma c_head_0: "c_head b = 0 \<longleftrightarrow> c_str b = []"
  by (cases b) (auto simp: c_head_def c_str_def)

lemma c_str_step: "c_head b \<noteq> 0 \<Longrightarrow> c_str b = c_head b # c_str (tl b)"
  by (cases b) (auto simp: c_head_def c_str_def)

lemma zero_notin_c_str [simp]: "0 \<notin> set (c_str b)"
  by (auto simp: c_str_def dest: set_takeWhileD)

lemma c_str_no_zero: "0 \<notin> set b \<Longrightarrow> c_str b = b"
  by (auto simp: c_str_def takeWhile_eq_all_conv)

lemma c_str_prefix_iff:
  assumes "0 \<notin> set v" "length v < length s"
  shows "take (length v) s = v \<and> s ! length v = 0 \<longleftrightarrow> c_str s = v"
  using assms
proof (induction v arbitrary: s)
  case Nil
  then show ?case by (cases s) (auto simp: c_str_def)
next
  case (Cons x v)
  then show ?case by (cases s) (auto simp: c_str_def)
qed

lemma str_copy_loop_eq:
  "str_copy_loop n b = (if length (c_str b) < n then c_str b @ [0] else take n (c_str b))"
proof (induction n b rule: str_copy_loop.induct)
  case (1 b)
  then show ?case by simp
next
  case (2 n b)
  then show ?case by (auto simp: c_head_0 c_str_step)
qed

lemma id_bytes_idstr:
  "id_bytes (syncs_idstr b)
     = take 31 (c_str b) @ replicate (32 - min 31 (length (c_str b))) 0"
proof -
  let ?w = "str_copy_loop 31 b"
  have len: "length ?w \<le> 31" by (simp add: str_copy_loop_eq)
  have "id_bytes (syncs_idstr b) = ?w @ replicate (32 - length ?w) 0"
    using len by (simp add: syncs_idstr_def Let_def)
  also have "\<dots> = take 31 (c_str b) @ replicate (32 - min 31 (length (c_str b))) 0"
    by (auto simp: str_copy_loop_eq replicate_Suc [symmetric] Suc_diff_Suc simp del: replicate_Suc)
  finally show ?thesis .
qed

lemma takeWhile_pad: "takeWhile (\<lambda>x. x \<noteq> 0) (take n (c_str b) @ replicate (Suc k) 0) = take n (c_str b)"
  by (subst takeWhile_append2) (auto dest!: in_set_takeD)

lemma c_str_id_bytes_idstr: "c_str (id_bytes (syncs_idstr b)) = take 31 (c_str b)"
proof -
  have "32 - min 31 (length (c_str b)) = Suc (31 - min 31 (length (c_str b)))" by simp
  then show ?thesis by (simp only: id_bytes_idstr c_str_def [of "_ @ _"] takeWhile_pad)
qed

lemma idcmp_str_loop_eq:
  "i < length s \<Longrightarrow>
   idcmp_str_loop i s b \<longleftrightarrow>
     (if length (c_str b) \<le> i then take (length (c_str b)) s = c_str b \<and> s ! length (c_str b) = 0
      else take i s = take i (c_str b) \<and> s ! i = c_str b ! i)"
proof (induction i s b rule: idcmp_str_loop.induct)
  case (1 s b)
  then show ?case
    by (cases "c_head b = 0") (auto simp: c_head_0 c_str_step hd_conv_nth)
next
  case (2 i s b)
  then obtain x xs where s: "s = x # xs" by (cases s) auto
  show ?case
  proof (cases "c_head b = 0")
    case True
    then show ?thesis using s by (auto simp: c_head_0 dest: c_head_0 [THEN iffD1])
  next
    case False
    then show ?thesis using 2 s by (auto simp: c_str_step)
  qed
qed

lemma syncs_idcmp_eq [simp]: "syncs_idcmp a b \<longleftrightarrow> a = b"
  by (auto simp: syncs_idcmp_def intro: syncsid.equality)

lemma syncs_idcpy_eq [simp]: "syncs_idcpy a b = b"
  by (auto simp: syncs_idcpy_def intro: syncsid.equality)

lemma id_bytes_inject: "id_bytes a = id_bytes b \<longleftrightarrow> a = b"
  by (metis id_of_bytes_id_bytes)

lemma id_c_set_c: "j < 32 \<Longrightarrow> id_c (id_set_c k b a) j = (if j = k then b else id_c a j)"
  by (auto simp: id_c_def id_set_c_def nth_list_update)

lemma idstr_cong: "take 31 (c_str a) = take 31 (c_str b) \<Longrightarrow> syncs_idstr a = syncs_idstr b"
  by (metis (no_types, lifting) id_bytes_idstr id_bytes_inject length_take min.commute)

lemma idcmp_str_idstr: "syncs_idcmp_str (syncs_idstr a) b \<longleftrightarrow> take 31 (c_str a) = c_str b"
proof -
  let ?s = "id_bytes (syncs_idstr a)" and ?v = "c_str b"
  have last0: "?s ! 31 = 0" by (simp add: id_bytes_idstr nth_append)
  have "syncs_idcmp_str (syncs_idstr a) b \<longleftrightarrow>
      (if length ?v \<le> 31 then take (length ?v) ?s = ?v \<and> ?s ! length ?v = 0
       else take 31 ?s = take 31 ?v \<and> ?s ! 31 = ?v ! 31)"
    by (simp add: syncs_idcmp_str_def idcmp_str_loop_eq)
  also have "\<dots> \<longleftrightarrow> c_str ?s = ?v"
  proof (cases "length ?v \<le> 31")
    case True
    then show ?thesis using c_str_prefix_iff [of ?v ?s] by simp
  next
    case False
    then have "?v ! 31 \<noteq> 0" using zero_notin_c_str [of b] by (metis not_le nth_mem)
    moreover have "length (c_str ?s) \<noteq> length ?v" using False by (simp add: c_str_id_bytes_idstr)
    ultimately show ?thesis using False last0 by auto
  qed
  finally show ?thesis by (simp add: c_str_id_bytes_idstr)
qed

lemma size_padding_readback:
  assumes "unat sz < 4096" "unat pad < 16"
  shows "SYNCS_PACKET_DATA_SIZE (ucast (ucast (SYNCS_SET_PACKET_SIZE sz pad) :: u16)) = sz \<and>
         SYNCS_PACKET_SIZE_PADDING (ucast (ucast (SYNCS_SET_PACKET_SIZE sz pad) :: u16)) = pad"
proof -
  have bsz: "bit sz n \<Longrightarrow> n < 12" for n using small_bit [of sz 12] assms(1) by simp
  have bpad: "bit pad n \<Longrightarrow> n < 4" for n using small_bit [of pad 4] assms(2) by simp
  have m: "(0x0fff :: u32) = mask 12" by (simp add: mask_eq_exp_minus_1)
  show ?thesis
    unfolding SYNCS_PACKET_DATA_SIZE_def SYNCS_PACKET_SIZE_PADDING_def SYNCS_SET_PACKET_SIZE_def m
    by (intro conjI bit_word_eqI) (fastforce simp: bit_simps dest: bsz bpad)+
qed

section \<open>Properties\<close>

text \<open>
  The packed header is a faithful image. Laying a header out in memory and casting the
  memory back gives the header, and casting any 60 bytes to a header and laying that out gives the
  60 bytes: no field overlaps another, none is lost, no byte is padding.
\<close>

lemma header_layout_roundtrip:
  "header_of_bytes (header_bytes h) = h \<and>
   (length bs = sizeof_syncs_header \<longrightarrow> header_bytes (header_of_bytes bs) = bs)"
  by simp

text \<open>
  Which names are the same variable. Two names compare equal after \<open>syncs_idstr\<close> exactly
  when they agree in their first 31 characters (up to the terminator): shorter names are never
  confused, longer ones are cut silently.
\<close>

lemma idstr_identifies_first_31:
  "syncs_idcmp (syncs_idstr a) (syncs_idstr b) \<longleftrightarrow> take 31 (c_str a) = take 31 (c_str b)"
  using c_str_id_bytes_idstr [of a] c_str_id_bytes_idstr [of b] by (auto intro: idstr_cong)

text \<open>
  What comparing an id with a name answers. \<open>syncs_idcmp_str\<close> on the id of a name \<open>a\<close>
  and a name \<open>b\<close> is true exactly when \<open>b\<close> is the cut of \<open>a\<close> to 31 characters. On its own id a name
  is therefore recognised only up to 31 characters; a longer name is not found under the id that was
  made from it.
\<close>

lemma idcmp_str_of_idstr:
  "(syncs_idcmp_str (syncs_idstr a) b \<longleftrightarrow> take 31 (c_str a) = c_str b) \<and>
   (syncs_idcmp_str (syncs_idstr b) b \<longleftrightarrow> length (c_str b) \<le> 31)"
proof -
  have "take 31 (c_str b) = c_str b \<longleftrightarrow> length (c_str b) \<le> 31"
    by (metis length_take min.absorb_iff2 min.cobounded1 min.commute take_all)
  with idcmp_str_idstr [of a b] idcmp_str_idstr [of b b] show ?thesis by simp
qed

text \<open>
  Copying an id out to a C string. \<open>syncs_stridcpy\<close> gives back the name cut to 31
  characters, and writes a terminator exactly when the name has fewer than 31: a 31-character
  name, which \<open>syncs_idstr\<close> stores whole, leaves the destination unterminated.
\<close>

lemma stridcpy_of_idstr:
  "c_str (syncs_stridcpy (syncs_idstr b)) = take 31 (c_str b) \<and>
   (0 \<in> set (syncs_stridcpy (syncs_idstr b)) \<longleftrightarrow> length (c_str b) < 31)"
proof -
  let ?v = "take 31 (c_str b)"
  have w: "syncs_stridcpy (syncs_idstr b) = (if length ?v < 31 then ?v @ [0] else ?v)"
    by (simp add: syncs_stridcpy_def str_copy_loop_eq c_str_id_bytes_idstr)
  have nz: "0 \<notin> set ?v" using zero_notin_c_str [of b] by (auto dest: in_set_takeD)
  then have "c_str ?v = ?v" "c_str (?v @ [0]) = ?v"
    using takeWhile_pad [of 31 b 0] by (simp_all add: c_str_no_zero) (simp add: c_str_def)
  then show ?thesis using w nz by auto
qed

end
