(* ===== verification/Crypt.thy ===== *)
theory Crypt
  imports Wire
begin

unbundle bit_operations_syntax

text \<open>
  \<^verbatim>\<open>src/libsyncs/syncs-crypt.c\<close>: the checksum \<open>crc32\<close> and the packet encoder and decoder that are
  compiled with \<open>SYNCS_SECURY_DATA\<close>.

  The cipher is OpenSSL's and not part of the repository: the encoder and the decoder take it as an
  argument, a function from key, initialisation vector and text to the text it produces, \<open>None\<close>
  standing for a failing \<open>EVP_\<close> call. Theorems that need it name what the OpenSSL documentation
  promises of AES-256-CBC with its default PKCS padding. The key argument is a memory, since the code
  reads the cipher key from \<open>key + 16\<close> on.

  The lemmas show what the checksum detects, when a packet can be encoded at all, and that decoding
  gives back what was encoded.
\<close>

section \<open>Checksum\<close>

abbreviation (input) CRC32_POLYNOMIAL :: u32 where "CRC32_POLYNOMIAL \<equiv> 0xEDB88320"

definition crc_bit :: "u32 \<Rightarrow> u32" where
  "crc_bit crc = (if bit crc 0 then drop_bit 1 crc XOR CRC32_POLYNOMIAL else drop_bit 1 crc)"

definition crc_byte :: "byte \<Rightarrow> u32 \<Rightarrow> u32" where
  "crc_byte b crc = (crc_bit ^^ 8) (crc XOR ucast b)"

definition crc32 :: "mem \<Rightarrow> u16 \<Rightarrow> u32" where
  "crc32 data n = NOT (fold crc_byte (mem_read data 0 (unat n)) 0xFFFFFFFF)"

section \<open>Packets\<close>

definition calculate_aes256_cbc_ciphertext_length :: "u32 \<Rightarrow> u32" where
  "calculate_aes256_cbc_ciphertext_length data_size =
     push_bit 4 (drop_bit 4 (data_size + push_bit 4 1 - 1))"

abbreviation (input) SYNCS_CRYPT_HEADER_SIZE :: nat where "SYNCS_CRYPT_HEADER_SIZE \<equiv> 56"
abbreviation (input) SYNCS_CRC_HEADER_SIZE :: nat where "SYNCS_CRC_HEADER_SIZE \<equiv> 55"
abbreviation (input) AES_BLOCK_SIZE :: nat where "AES_BLOCK_SIZE \<equiv> 16"

type_synonym evp = "mem \<Rightarrow> mem \<Rightarrow> byte list \<Rightarrow> byte list option"

text \<open>
  \<open>memcpy (&packet->header.crc, buf, SYNCS_CRYPT_HEADER_SIZE)\<close>, which overwrites the header from
  the checksum to the update counter, and the copy of the rest of \<open>buf\<close> to the payload.
\<close>

definition put_crypt_block :: "byte list \<Rightarrow> syncs_packet \<Rightarrow> syncs_packet" where
  "put_crypt_block buf p =
     (let hb = header_bytes (p_header p)
      in p\<lparr>p_header := header_of_bytes (take 1 hb @ take SYNCS_CRYPT_HEADER_SIZE buf
                          @ drop (1 + SYNCS_CRYPT_HEADER_SIZE) hb),
           p_buffer := mem_put 0 (drop SYNCS_CRYPT_HEADER_SIZE buf) (p_buffer p)\<rparr>)"

definition crypt_block :: "syncs_packet \<Rightarrow> nat \<Rightarrow> byte list" where
  "crypt_block p n =
     take SYNCS_CRYPT_HEADER_SIZE (drop 1 (header_bytes (p_header p))) @ mem_read (p_buffer p) 0 n"

text \<open>
  The first half of the encoder: the size field and the checksum, as they stand in the packet before
  the encryption.
\<close>

definition crypt_prepare :: "syncs_packet \<Rightarrow> syncs_packet" where
  "crypt_prepare packet =
     (let packet_data_size = SYNCS_PACKET_DATA_SIZE (ucast (h_data_size (p_header packet)));
          sz = of_nat SYNCS_CRYPT_HEADER_SIZE + packet_data_size;
          ciphertext_calc_size = calculate_aes256_cbc_ciphertext_length sz;
          padding = ciphertext_calc_size - sz;
          p1 = packet\<lparr>p_header := (p_header packet)\<lparr>h_data_size :=
                 ucast (SYNCS_SET_PACKET_SIZE (ciphertext_calc_size - of_nat SYNCS_CRYPT_HEADER_SIZE) padding)\<rparr>\<rparr>;
          crc_size = ucast (of_nat SYNCS_CRC_HEADER_SIZE + packet_data_size);
          crc = crc32 (\<lambda>k. packet_bytes p1 (sizeof_syncs_header + unat packet_data_size) ! (5 + k)) crc_size
      in p1\<lparr>p_header := (p_header p1)\<lparr>h_crc := crc\<rparr>\<rparr>)"

definition syncs_crypt_encode_packet :: "evp \<Rightarrow> mem \<Rightarrow> syncs_packet \<Rightarrow> syncs_packet option" where
  "syncs_crypt_encode_packet evp_encrypt key packet =
     (let packet_data_size = SYNCS_PACKET_DATA_SIZE (ucast (h_data_size (p_header packet)));
          sz = of_nat SYNCS_CRYPT_HEADER_SIZE + packet_data_size;
          ciphertext_calc_size = calculate_aes256_cbc_ciphertext_length sz;
          p2 = crypt_prepare packet
      in case evp_encrypt (mem_shift AES_BLOCK_SIZE key) key (crypt_block p2 (unat packet_data_size)) of
           None \<Rightarrow> None
         | Some ct \<Rightarrow> if length ct \<noteq> unat ciphertext_calc_size then None
                      else Some (put_crypt_block ct p2))"

definition syncs_crypt_decode_packet :: "evp \<Rightarrow> mem \<Rightarrow> syncs_packet \<Rightarrow> syncs_packet option" where
  "syncs_crypt_decode_packet evp_decrypt key packet =
     (let packet_data_size = SYNCS_PACKET_DATA_SIZE (ucast (h_data_size (p_header packet)))
      in case evp_decrypt (mem_shift AES_BLOCK_SIZE key) key (crypt_block packet (unat packet_data_size)) of
           None \<Rightarrow> None
         | Some pt \<Rightarrow> Some (put_crypt_block pt packet))"

section \<open>The checksum step is linear and loses nothing\<close>

lemma bit_crc_bit:
  "bit (crc_bit c) n \<longleftrightarrow> bit c (Suc n) \<noteq> (bit c 0 \<and> bit CRC32_POLYNOMIAL n)"
  by (auto simp: crc_bit_def bit_simps)

lemma crc_bit_linear: "crc_bit (a XOR b) = crc_bit a XOR crc_bit b"
  by (rule bit_word_eqI) (auto simp: bit_crc_bit bit_xor_iff)

lemma crc_bit_0: "crc_bit 0 = 0"
  by (simp add: crc_bit_def)

lemma crc_bit_inj: "crc_bit a = 0 \<Longrightarrow> a = 0"
proof -
  assume z: "crc_bit a = 0"
  have top: "bit CRC32_POLYNOMIAL 31" by simp
  have "\<not> bit a (Suc 31)" using bit_imp_le_length [of a "Suc 31"] by auto
  with z top have a0: "\<not> bit a 0" using bit_crc_bit [of a 31] by auto
  have "\<not> bit a n" for n
    using a0 z bit_crc_bit [of a "n - 1"] by (cases n) auto
  then show "a = 0" by (simp add: bit_word_eqI)
qed

lemma crc_bits_linear: "(crc_bit ^^ n) (a XOR b) = (crc_bit ^^ n) a XOR (crc_bit ^^ n) b"
  by (induction n) (simp_all add: crc_bit_linear)

lemma crc_bits_inj: "(crc_bit ^^ n) a = 0 \<Longrightarrow> a = 0"
  by (induction n) (auto dest: crc_bit_inj)

text \<open>Zero low bits are shifted out and never trigger the polynomial.\<close>

lemma crc_bits_push: "(\<And>k. bit z k \<Longrightarrow> k + n < 32) \<Longrightarrow> (crc_bit ^^ n) (push_bit n z) = z"
proof (induction n arbitrary: z)
  case 0
  then show ?case by simp
next
  case (Suc n)
  have "crc_bit (push_bit 1 z) = z"
  proof (rule bit_word_eqI)
    fix k
    show "bit (crc_bit (push_bit 1 z)) k \<longleftrightarrow> bit z k"
      unfolding bit_crc_bit bit_push_bit_iff using Suc.prems [of k] by auto
  qed
  moreover have "(crc_bit ^^ n) (push_bit n (push_bit 1 z)) = push_bit 1 z"
  proof (rule Suc.IH)
    fix k
    assume "bit (push_bit 1 z) k"
    then show "k + n < 32" unfolding bit_push_bit_iff using Suc.prems [of "k - 1"] by auto
  qed
  ultimately show ?case by (simp add: push_bit_push_bit)
qed

lemma crc_byte_diff: "crc_byte b c XOR crc_byte b' c' = (crc_bit ^^ 8) ((c XOR c') XOR (ucast b XOR ucast b'))"
  unfolding crc_byte_def crc_bits_linear [symmetric] by (simp add: ac_simps)

text \<open>
  Up to four bytes are absorbed as one little-endian word: feeding them byte by byte is feeding the
  word and shifting by all its bits.
\<close>

lemma fold_crc_byte_word:
  "length bs \<le> 4 \<Longrightarrow> fold crc_byte bs c = (crc_bit ^^ (8 * length bs)) (c XOR le_word bs)"
proof (induction bs arbitrary: c)
  case Nil
  then show ?case by simp
next
  case (Cons b bs)
  let ?w = "le_word bs :: u32"
  have small: "(crc_bit ^^ 8) (push_bit 8 ?w) = ?w"
    using Cons.prems by (intro crc_bits_push) (auto simp: bit_le_word)
  have "ucast b OR push_bit 8 ?w = ucast b XOR push_bit 8 ?w"
    by (rule bit_word_eqI) (auto simp: bit_simps dest: bit_imp_le_length)
  then have "crc_byte b c XOR ?w = (crc_bit ^^ 8) (c XOR le_word (b # bs))"
    unfolding crc_byte_def using small by (simp add: crc_bits_linear ac_simps)
  moreover have "8 * length (b # bs) = 8 * length bs + 8" by simp
  ultimately show ?case
    using Cons by (simp only: funpow_add fold_simps comp_def)
qed

lemma le_word_inject:
  assumes "length bs = length bs'" "length bs \<le> 4" "(le_word bs :: u32) = le_word bs'"
  shows "bs = bs'"
proof (rule nth_equalityI)
  fix i
  assume i: "i < length bs"
  show "bs ! i = bs' ! i"
  proof (rule bit_word_eqI)
    fix k
    assume "k < LENGTH(8)"
    then have k: "k < 8" by simp
    have "8 * i + k < 8 * length bs" "8 * i + k < 32" using i k assms(2) by linarith+
    then show "bit (bs ! i) k \<longleftrightarrow> bit (bs' ! i) k"
      using bit_le_word [of bs "8 * i + k", where ?'a = 32] bit_le_word [of bs' "8 * i + k", where ?'a = 32]
        assms(1,3) k by (simp add: div_add1_eq)
  qed
qed (use assms in simp)

lemma fold_crc_byte_inject:
  "fold crc_byte bs c = fold crc_byte bs c' \<Longrightarrow> c = c'"
proof (induction bs arbitrary: c c')
  case (Cons b bs)
  then have "crc_byte b c = crc_byte b c'" by simp
  then have "crc_byte b c XOR crc_byte b c' = 0" by simp
  then have "c XOR c' = 0" unfolding crc_byte_diff by (auto dest: crc_bits_inj)
  then show ?case by (simp add: xor_eq_0_iff)
qed simp


lemma fold_crc_byte_burst:
  assumes "fold crc_byte (ps @ ws @ ss) c = fold crc_byte (ps @ ws' @ ss) c"
    and len: "length ws = length ws'" "length ws \<le> 4"
  shows "ws = ws'"
proof -
  let ?c = "fold crc_byte ps c" and ?n = "8 * length ws"
  have "fold crc_byte ws ?c = fold crc_byte ws' ?c"
    using assms(1) by (auto dest: fold_crc_byte_inject)
  then have "(crc_bit ^^ ?n) (?c XOR le_word ws) XOR (crc_bit ^^ ?n) (?c XOR le_word ws') = 0"
    using len by (simp add: fold_crc_byte_word)
  then have "(?c XOR le_word ws) XOR (?c XOR le_word ws') = 0"
    unfolding crc_bits_linear [symmetric] by (rule crc_bits_inj)
  then have "(le_word ws :: u32) = le_word ws'"
    by (simp add: xor_eq_0_iff ac_simps)
  then show ?thesis using len by (intro le_word_inject)
qed

lemma crc_byte_unfold:
  "crc_byte b c =
     crc_bit (crc_bit (crc_bit (crc_bit (crc_bit (crc_bit (crc_bit (crc_bit (c XOR ucast b))))))))"
  by (simp add: crc_byte_def eval_nat_numeral)

lemma mem_read_digits:
  "mem_read (mem_of (cstr ''123456789'')) 0 9
     = [0x31, 0x32, 0x33, 0x34, 0x35, 0x36, 0x37, 0x38, 0x39]"
  by (simp add: mem_simps cstr_def of_char_def)

section \<open>Properties of the checksum\<close>

text \<open>
  \<open>crc32\<close> is the standard CRC-32: on the nine characters 123456789 it gives the check value
  0xCBF43926 of that standard.
\<close>

lemma crc32_check_value: "crc32 (mem_of (cstr ''123456789'')) 9 = 0xCBF43926"
  by (simp add: crc32_def mem_read_digits crc_byte_unfold crc_bit_def)

text \<open>
  C33: \<open>crc32\<close> detects every burst of up to four bytes. Two buffers of the same size that
  differ somewhere, but only within four consecutive bytes, have different checksums.
\<close>

theorem crc32_detects_bursts:
  assumes same: "\<And>i. i < unat n \<Longrightarrow> i < k \<or> k + 4 \<le> i \<Longrightarrow> m i = m' i"
    and diff: "i < unat n" "m i \<noteq> m' i"
  shows "crc32 m n \<noteq> crc32 m' n"
proof
  define w where "w = min 4 (unat n - k)"
  define r where "r = unat n - k - w"
  have i: "k \<le> i" "i < k + 4" using same [of i] diff by linarith+
  then have N: "unat n = k + (w + r)" "i < k + w" "w \<le> 4" using diff(1) by (auto simp: w_def r_def)
  have split: "mem_read x 0 (unat n) = mem_read x 0 k @ mem_read x k w @ mem_read x (k + w) r" for x
    by (simp add: N(1) mem_read_add)
  have pre: "mem_read m 0 k = mem_read m' 0 k"
    using N by (intro mem_read_cong) (simp add: same)
  have suf: "mem_read m (k + w) r = mem_read m' (k + w) r"
  proof (rule mem_read_cong)
    fix j
    assume j: "j < r"
    then have "w = 4" by (auto simp: w_def r_def)
    with j N(1) show "m (k + w + j) = m' (k + w + j)" by (intro same) simp_all
  qed
  assume "crc32 m n = crc32 m' n"
  then have "fold crc_byte (mem_read m 0 (unat n)) 0xFFFFFFFF = fold crc_byte (mem_read m' 0 (unat n)) 0xFFFFFFFF"
    by (metis crc32_def bit.double_compl)
  then have "mem_read m k w = mem_read m' k w"
    unfolding split pre suf by (rule fold_crc_byte_burst) (use N(3) in simp_all)
  moreover have "i - k < w" using i N(2) by linarith
  ultimately show False
    using i diff(2) nth_mem_read [of "i - k" w m k] nth_mem_read [of "i - k" w m' k] by simp
qed

theorem crc32_detects_bursts_witness:
  "crc32 (mem_of [1, 2, 3, 4, 5]) 5 \<noteq> crc32 (mem_of [1, 9, 3, 8, 5]) 5"
proof (rule crc32_detects_bursts [where k = 1 and i = 1])
  fix i
  assume "i < unat (5 :: u16)" "i < 1 \<or> 1 + 4 \<le> i"
  then show "mem_of [1, 2, 3, 4, 5] i = mem_of [1, 9, 3, 8, 5] i" by (simp add: mem_of_def)
qed (simp_all add: mem_of_def)


section \<open>Sizes of encoded packets\<close>

text \<open>Rounding up to whole blocks, as the code computes it with shifts.\<close>

lemma shift4_unat: "unat (push_bit 4 (drop_bit 4 (x :: u32))) = 16 * (unat x div 16)"
proof -
  have "unat x < 2 ^ 32" using unsigned_less [of x, where ?'a = nat] by simp
  then have "16 * (unat x div 16) < 2 ^ 32" by simp
  then show ?thesis
    by (simp add: push_bit_eq_mult drop_bit_eq_div unat_word_ariths unat_div)
qed

lemma unat_ciphertext_length:
  assumes "unat n < 2 ^ 31"
  shows "unat (calculate_aes256_cbc_ciphertext_length n) = 16 * ((unat n + 15) div 16)"
proof -
  have "unat (n + 15) = unat n + 15"
    using assms by (subst unat_add_lem [THEN iffD1]) simp_all
  then show ?thesis by (simp add: calculate_aes256_cbc_ciphertext_length_def shift4_unat add.commute)
qed

lemma unat_crypt_size:
  "unat (of_nat SYNCS_CRYPT_HEADER_SIZE + SYNCS_PACKET_DATA_SIZE x :: u32)
     = 56 + unat (SYNCS_PACKET_DATA_SIZE x)"
  using data_size_le [of x] by (subst unat_add_lem [THEN iffD1]) simp_all

text \<open>The encoded bytes put back over the block they were taken from.\<close>

lemma length_crypt_block [simp]: "length (crypt_block p n) = 56 + n"
  by (simp add: crypt_block_def)

lemma header_crypt_split:
  "take 1 (header_bytes h) @ take 56 (drop 1 (header_bytes h)) @ drop 57 (header_bytes h) = header_bytes h"
  using append_take_drop_id [of 56 "drop 1 (header_bytes h)"] append_take_drop_id [of 1 "header_bytes h"]
  by simp

lemma header_bytes_put_crypt_block:
  assumes "56 \<le> length buf"
  shows "header_bytes (p_header (put_crypt_block buf p))
     = take 1 (header_bytes (p_header p)) @ take 56 buf @ drop 57 (header_bytes (p_header p))"
  using assms by (simp add: put_crypt_block_def Let_def)

lemma crypt_block_put_crypt_block:
  assumes "length buf = 56 + n"
  shows "crypt_block (put_crypt_block buf p) n = buf"
proof -
  have "take 56 (drop 1 (header_bytes (p_header (put_crypt_block buf p)))) = take 56 buf"
    using assms by (simp add: header_bytes_put_crypt_block)
  moreover have "mem_read (p_buffer (put_crypt_block buf p)) 0 n = drop 56 buf"
    using assms by (simp add: put_crypt_block_def Let_def mem_simps)
  ultimately show ?thesis by (simp add: crypt_block_def)
qed

lemma put_crypt_block_own_header:
  assumes "56 \<le> length buf"
  shows "p_header (put_crypt_block (crypt_block q n) (put_crypt_block buf q)) = p_header q"
proof -
  have "header_bytes (p_header (put_crypt_block (crypt_block q n) (put_crypt_block buf q)))
      = header_bytes (p_header q)"
    using assms header_crypt_split [of "p_header q"]
    by (simp add: header_bytes_put_crypt_block crypt_block_def)
  then show ?thesis by (metis header_of_bytes_header_bytes)
qed

lemma data_size_put_crypt_block:
  assumes "56 \<le> length buf"
  shows "h_data_size (p_header (put_crypt_block buf p)) = h_data_size (p_header p)"
proof -
  have "drop 57 (header_bytes (p_header (put_crypt_block buf p))) = drop 57 (header_bytes (p_header p))"
    using assms by (simp add: header_bytes_put_crypt_block)
  moreover have "le_word (take 2 (drop 57 (header_bytes h))) = h_data_size h" for h
    by (metis header_of_bytes_def header_of_bytes_header_bytes syncs_header.select_convs(7))
  ultimately show ?thesis by metis
qed


lemma blocks_mod: "16 * ((56 + n) div 16 + 1) = 16 * ((71 + n) div 16) \<longleftrightarrow> n mod 16 \<noteq> (8::nat)"
proof -
  define q r where "q = n div 16" and "r = n mod 16"
  have n: "n = 16 * q + r" "r < 16" by (simp_all add: q_def r_def)
  have "(56 + (16 * q + r)) div 16 = q + (56 + r) div 16" "(71 + (16 * q + r)) div 16 = q + (71 + r) div 16"
    by simp_all
  moreover have "(56 + r) div 16 = (if r < 8 then 3 else 4)" using n(2) by (auto intro!: div_nat_eqI)
  moreover have "(71 + r) div 16 = (if r < 9 then 4 else 5)" using n(2) by (auto intro!: div_nat_eqI)
  ultimately show ?thesis using n by auto
qed

definition packet_payload :: "syncs_packet \<Rightarrow> nat" where
  "packet_payload p = unat (SYNCS_PACKET_DATA_SIZE (ucast (h_data_size (p_header p))))"

lemma packet_payload_le: "packet_payload p \<le> 4095"
  using data_size_le by (simp add: packet_payload_def)

lemma encode_unfold:
  "syncs_crypt_encode_packet enc key p =
     (case enc (mem_shift 16 key) key (crypt_block (crypt_prepare p) (packet_payload p)) of
        None \<Rightarrow> None
      | Some ct \<Rightarrow> if length ct \<noteq> 16 * ((71 + packet_payload p) div 16) then None
                   else Some (put_crypt_block ct (crypt_prepare p)))"
proof -
  let ?n = "SYNCS_PACKET_DATA_SIZE (ucast (h_data_size (p_header p)))"
  have "unat (calculate_aes256_cbc_ciphertext_length (of_nat 56 + ?n)) = 16 * ((71 + unat ?n) div 16)"
    using data_size_le [of "ucast (h_data_size (p_header p))"]
    by (subst unat_ciphertext_length) (simp_all add: unat_crypt_size del: of_nat_numeral)
  then show ?thesis
    by (simp add: syncs_crypt_encode_packet_def Let_def packet_payload_def del: of_nat_numeral cong: option.case_cong)
qed

lemma prepare_frame:
  "(p_header (crypt_prepare p))\<lparr>h_crc := h_crc (p_header p), h_data_size := h_data_size (p_header p)\<rparr> = p_header p"
  "p_buffer (crypt_prepare p) = p_buffer p"
  by (simp_all add: crypt_prepare_def Let_def)

text \<open>The size field the encoder writes, for payloads that fit the 4096-byte \<open>crypt_buffer\<close>.\<close>

lemma prepare_payload:
  assumes "packet_payload p \<le> 4040"
  shows "56 + packet_payload (crypt_prepare p) = 16 * ((71 + packet_payload p) div 16)"
    and "packet_payload (crypt_prepare p)
      = packet_payload p + unat (SYNCS_PACKET_SIZE_PADDING (ucast (h_data_size (p_header (crypt_prepare p)))))"
proof -
  define n :: u32 where "n = SYNCS_PACKET_DATA_SIZE (ucast (h_data_size (p_header p)))"
  define sz :: u32 where "sz = 56 + n"
  define c where "c = calculate_aes256_cbc_ciphertext_length sz"
  have n: "packet_payload p = unat n" "unat n \<le> 4040" using assms by (simp_all add: packet_payload_def n_def)
  have sz: "unat sz = 56 + unat n" using unat_crypt_size n_def by (simp add: sz_def)
  have c: "unat c = 16 * ((71 + unat n) div 16)" using n by (simp add: c_def unat_ciphertext_length sz)
  have "(71 + unat n) div 16 \<le> 4111 div 16" using n(2) by (intro div_le_mono) simp
  then have bounds: "56 + unat n \<le> unat c" "unat c < 56 + unat n + 16" "unat c \<le> 4096" using c by simp_all
  then have c56: "unat (c - 56) = unat c - 56" and cs: "unat (c - sz) = unat c - unat sz"
    using sz by (simp_all add: unat_sub word_le_nat_alt)
  have h: "h_data_size (p_header (crypt_prepare p)) = ucast (SYNCS_SET_PACKET_SIZE (c - 56) (c - sz))"
    by (simp add: crypt_prepare_def Let_def c_def sz_def n_def)
  have "SYNCS_PACKET_DATA_SIZE (ucast (h_data_size (p_header (crypt_prepare p)))) = c - 56 \<and>
      SYNCS_PACKET_SIZE_PADDING (ucast (h_data_size (p_header (crypt_prepare p)))) = c - sz"
    unfolding h using bounds c56 cs sz by (intro size_padding_readback) linarith+
  then show "56 + packet_payload (crypt_prepare p) = 16 * ((71 + packet_payload p) div 16)"
    and "packet_payload (crypt_prepare p)
      = packet_payload p + unat (SYNCS_PACKET_SIZE_PADDING (ucast (h_data_size (p_header (crypt_prepare p)))))"
    using bounds c56 cs sz c n(1) by (simp_all add: packet_payload_def)
qed

text \<open>
  A cipher to instantiate the hypotheses with: it pads as PKCS does and leaves the bytes as they are.
\<close>

definition pkcs_encode :: evp where
  "pkcs_encode k iv pt = (let n = 16 - length pt mod 16 in Some (pt @ replicate n (of_nat n)))"

definition pkcs_decode :: evp where
  "pkcs_decode k iv ct = Some (take (length ct - unat (last ct)) ct)"

lemma pkcs_encode_length: "\<exists>ct. pkcs_encode k iv pt = Some ct \<and> length ct = 16 * (length pt div 16 + 1)"
  by (simp add: pkcs_encode_def Let_def) presburger

lemma pkcs_decode_encode: "pkcs_encode k iv pt = Some ct \<Longrightarrow> pkcs_decode k iv ct = Some pt"
proof -
  define n where "n = 16 - length pt mod 16"
  have n: "0 < n" "n \<le> 16" by (simp_all add: n_def)
  then have "unat (of_nat n :: byte) = n" by (simp add: unat_of_nat)
  moreover assume "pkcs_encode k iv pt = Some ct"
  then have "ct = pt @ replicate n (of_nat n)" by (simp add: pkcs_encode_def Let_def n_def)
  ultimately show ?thesis using n by (simp add: pkcs_decode_def)
qed

definition int64_packet :: "u16 \<Rightarrow> syncs_packet" where
  "int64_packet n =
     \<lparr>p_header = \<lparr>h_magic = SYNCS_PACKET_MAGIC, h_crc = 0, h_type = SYNCS_TYPE_WRITE, h_id = syncs_idstr (cstr ''v''),
        h_sync = \<lparr>data0 = 0, data1 = 0\<rparr>, h_update_counter = 0, h_data_size = n,
        h_magic_data = SYNCS_PACKET_MAGIC_DATA\<rparr>, p_buffer = (\<lambda>k. of_nat k)\<rparr>"

section \<open>Properties of the packet coder\<close>

text \<open>
  Which packets can be encoded. With a cipher that always succeeds and produces what PKCS
  padding produces (one block more than the whole blocks of the text), \<open>syncs_crypt_encode_packet\<close>
  returns a packet exactly when the payload size is not 8 modulo 16: the size it computes leaves out
  the extra block of a text that is a whole number of blocks. Eight-byte payloads (the INT64 and
  DOUBLE variables) are among those it refuses.
\<close>

lemma encode_fails_on_whole_blocks:
  assumes pkcs: "\<And>k iv pt. \<exists>ct. enc k iv pt = Some ct \<and> length ct = 16 * (length pt div 16 + 1)"
  shows "syncs_crypt_encode_packet enc key p \<noteq> None \<longleftrightarrow>
         unat (SYNCS_PACKET_DATA_SIZE (ucast (h_data_size (p_header p)))) mod 16 \<noteq> 8"
proof -
  let ?n = "packet_payload p"
  obtain ct where ct: "enc (mem_shift 16 key) key (crypt_block (crypt_prepare p) ?n) = Some ct"
      "length ct = 16 * ((56 + ?n) div 16 + 1)"
    using pkcs by (metis length_crypt_block)
  show ?thesis using ct blocks_mod [of ?n] by (simp add: encode_unfold packet_payload_def)
qed

text \<open>
  C32: Decoding undoes encoding. If the decryption inverts the encryption under the same key and
  vector, decoding an encoded packet succeeds and gives a packet with the header of the original up to
  the checksum and the size field, the payload of the original, and a size field that still names the
  padded size and the padding, whose difference is the original size.
\<close>

theorem decode_encode_roundtrip:
  assumes inverse: "\<And>k iv pt ct. enc k iv pt = Some ct \<Longrightarrow> dec k iv ct = Some pt"
    and fits: "packet_payload p \<le> 4040"
    and encoded: "syncs_crypt_encode_packet enc key p = Some q"
  shows "\<exists>r. syncs_crypt_decode_packet dec key q = Some r \<and>
     (p_header r)\<lparr>h_crc := h_crc (p_header p), h_data_size := h_data_size (p_header p)\<rparr> = p_header p \<and>
     mem_read (p_buffer r) 0 (packet_payload p) = mem_read (p_buffer p) 0 (packet_payload p) \<and>
     packet_payload r = packet_payload p + unat (SYNCS_PACKET_SIZE_PADDING (ucast (h_data_size (p_header r))))"
proof -
  let ?n = "packet_payload p" and ?p2 = "crypt_prepare p"
  obtain ct where ct: "enc (mem_shift 16 key) key (crypt_block ?p2 ?n) = Some ct"
      "length ct = 16 * ((71 + ?n) div 16)" "q = put_crypt_block ct ?p2"
    using encoded by (auto simp: encode_unfold split: option.splits if_splits)
  have len: "length ct = 56 + packet_payload ?p2" "56 \<le> length ct"
    using ct(2) prepare_payload [OF fits] by simp_all
  have "crypt_block q (packet_payload q) = ct"
    using ct(3) len by (simp add: packet_payload_def data_size_put_crypt_block crypt_block_put_crypt_block)
  then have dec: "syncs_crypt_decode_packet dec key q = Some (put_crypt_block (crypt_block ?p2 ?n) q)"
    using inverse [OF ct(1)] by (simp add: syncs_crypt_decode_packet_def Let_def packet_payload_def)
  define r where "r = put_crypt_block (crypt_block ?p2 ?n) q"
  have hd: "p_header r = p_header ?p2" using len by (simp add: r_def ct(3) put_crypt_block_own_header)
  have "mem_read (p_buffer r) 0 ?n = mem_read (p_buffer p) 0 ?n"
    by (simp add: r_def put_crypt_block_def Let_def crypt_block_def mem_simps prepare_frame)
  moreover have "packet_payload r = packet_payload ?p2" by (simp add: packet_payload_def hd)
  ultimately show ?thesis using dec hd prepare_frame(1) [of p] prepare_payload(2) [OF fits] by (auto simp: r_def)
qed

theorem decode_encode_roundtrip_witness:
  "\<exists>q r. syncs_crypt_encode_packet pkcs_encode (\<lambda>_. 0) (int64_packet 4) = Some q \<and>
     syncs_crypt_decode_packet pkcs_decode (\<lambda>_. 0) q = Some r \<and>
     mem_read (p_buffer r) 0 4 = [0, 1, 2, 3]"
proof -
  have n: "packet_payload (int64_packet 4) = 4"
    by (simp add: packet_payload_def int64_packet_def SYNCS_PACKET_DATA_SIZE_def)
  then obtain q where q: "syncs_crypt_encode_packet pkcs_encode (\<lambda>_. 0) (int64_packet 4) = Some q"
    by (simp add: encode_unfold pkcs_encode_def)
  from decode_encode_roundtrip [of pkcs_encode pkcs_decode "int64_packet 4", OF pkcs_decode_encode _ q] n
  show ?thesis using q by (fastforce simp: int64_packet_def mem_read_def upt_rec)
qed

end
