(* ===== verification/Net.thy ===== *)
theory Net
  imports Wire
begin

text \<open>
  The operating system as the library uses it, and the two senders of
  \<^verbatim>\<open>src/libsyncs/syncs-net-common.c\<close>.

  The record \<open>os\<close> is the part of the world a process can observe or change:
  \<^item> \<open>os_script\<close>: what the next \<open>send\<close> calls answer, \<open>None\<close> for -1 and \<open>Some n\<close> for a call that takes at
    most \<open>n\<close> bytes; once the script is used up the kernel takes whole buffers. Every terminating run
    of the send loop is a run over some script;
  \<^item> \<open>os_sent\<close>, \<open>os_dgram\<close>: what was accepted on stream sockets and sent as datagrams, oldest first;
  \<^item> \<open>os_calls\<close>: the calls that create, configure and address a descriptor, oldest first;
  \<^item> \<open>os_epoll\<close>, \<open>os_closed\<close>: the descriptors in the epoll set, the descriptors closed so far;
  \<^item> \<open>os_now\<close>: the realtime clock, seconds and nanoseconds;
  \<^item> \<open>os_stack\<close>: the indeterminate contents of an uninitialised local \<open>struct syncs_packet\<close>, of which
    the code overwrites some fields and sends all;
  \<^item> \<open>os_fault\<close>: set when the code does what C leaves undefined, a copy past the end of an array or a
    null pointer dereference. It is never reset; a state without it was reached safely.
\<close>

record sockaddr_in =
  sin_addr :: u32
  sin_port :: u16

text \<open>Calls on a descriptor. The first three create it; the values of an option are the integers passed to \<open>setsockopt\<close>.\<close>

datatype sock_type = SOCK_STREAM | SOCK_DGRAM

datatype sockopt =
    SO_REUSEADDR | SO_REUSEPORT | SO_LINGER | SO_RCVBUF | SO_SNDBUF | SO_RCVTIMEO | SO_KEEPALIVE
  | TCP_NODELAY | TCP_QUICKACK | TCP_SYNCNT | TCP_KEEPIDLE | TCP_KEEPINTVL | TCP_KEEPCNT
  | IP_TOS | IP_MULTICAST_LOOP | IP_ADD_MEMBERSHIP

datatype sockcall =
    Socket sock_type | Accepted sockaddr_in | Epoll_create
  | Setsockopt sockopt "int list" | Set_nonblock | Set_cloexec
  | Bind sockaddr_in | Listen int | Connect sockaddr_in | Shutdown

record os =
  os_script :: "nat option list"
  os_sent :: "(int \<times> byte list) list"
  os_dgram :: "(int \<times> sockaddr_in \<times> byte list) list"
  os_calls :: "(int \<times> sockcall) list"
  os_epoll :: "int list"
  os_closed :: "int list"
  os_now :: "int \<times> int"
  os_stack :: syncs_packet
  os_fault :: bool

text \<open>The loop of \<open>syncs_blocking_send\<close>: the result, the bytes that went out, the rest of the script.\<close>

fun send_loop :: "byte list \<Rightarrow> nat option list \<Rightarrow> int \<times> byte list \<times> nat option list" where
  "send_loop [] script = (0, [], script)"
| "send_loop buf [] = (0, buf, [])"
| "send_loop buf (None # script) = (-1, [], script)"
| "send_loop buf (Some n # script) =
     (let ssent = min n (length buf);
          (ret, out, rest) = send_loop (drop ssent buf) script
      in (ret, take ssent buf @ out, rest))"

definition syncs_blocking_send :: "int \<Rightarrow> byte list \<Rightarrow> os \<Rightarrow> int \<times> os" where
  "syncs_blocking_send sock buf w =
     (let (ret, out, rest) = send_loop buf (os_script w)
      in (ret, w\<lparr>os_script := rest, os_sent := os_sent w @ [(sock, out)]\<rparr>))"

definition syncs_udp_send :: "int \<Rightarrow> byte list \<Rightarrow> sockaddr_in \<Rightarrow> os \<Rightarrow> int \<times> os" where
  "syncs_udp_send sock buf saddr w = (0, w\<lparr>os_dgram := os_dgram w @ [(sock, saddr, buf)]\<rparr>)"

text \<open>
  \<open>fault_if b\<close> marks a step the C standard leaves undefined.
\<close>

definition fault_if :: "bool \<Rightarrow> os \<Rightarrow> os" where
  "fault_if b w = w\<lparr>os_fault := os_fault w \<or> b\<rparr>"

lemma fault_if_simps [simp]:
  "os_fault (fault_if b w) \<longleftrightarrow> os_fault w \<or> b"
  "os_script (fault_if b w) = os_script w" "os_sent (fault_if b w) = os_sent w"
  "os_dgram (fault_if b w) = os_dgram w" "os_stack (fault_if b w) = os_stack w"
  "os_now (fault_if b w) = os_now w" "os_epoll (fault_if b w) = os_epoll w"
  "os_closed (fault_if b w) = os_closed w" "os_calls (fault_if b w) = os_calls w"
  by (simp_all add: fault_if_def)

lemma send_loop_result:
  "send_loop buf script = (ret, out, rest) \<Longrightarrow>
     ret = 0 \<and> out = buf \<or> ret = -1 \<and> (\<exists>tl. tl \<noteq> [] \<and> buf = out @ tl)"
proof (induction buf script arbitrary: ret out rest rule: send_loop.induct)
  case (4 x buf n script)
  obtain r o' s where rec: "send_loop (drop (min n (length (x # buf))) (x # buf)) script = (r, o', s)"
    by (metis prod_cases3)
  then have "ret = r" "out = take (min n (length (x # buf))) (x # buf) @ o'"
    using "4.prems" by (simp_all add: Let_def)
  with "4.IH" [OF refl rec] show ?case
    by (metis append.assoc append_take_drop_id)
qed auto

lemma send_loop_no_script: "send_loop buf [] = (0, buf, [])"
  by (cases buf) simp_all

text \<open>
  C34: A blocking send is all or a proper prefix. \<open>syncs_blocking_send\<close> returns 0 exactly when
  every byte of the buffer went out, and -1 when a \<open>send\<close> failed after a proper prefix, however the
  kernel cut the buffer; it returns nothing else, and never sends a byte twice or out of order.
\<close>

theorem blocking_send_all_or_prefix:
  "\<exists>ret out. fst (syncs_blocking_send sock buf w) = ret \<and>
     os_sent (snd (syncs_blocking_send sock buf w)) = os_sent w @ [(sock, out)] \<and>
     (ret = 0 \<and> out = buf \<or> ret = -1 \<and> (\<exists>tl. tl \<noteq> [] \<and> buf = out @ tl))"
proof -
  obtain ret out rest where r: "send_loop buf (os_script w) = (ret, out, rest)"
    by (metis prod_cases3)
  with send_loop_result [OF r] show ?thesis
    by (auto simp: syncs_blocking_send_def)
qed

lemma send_loop_calls:
  "send_loop buf script = (ret, out, rest) \<Longrightarrow> Some 0 \<notin> set script \<Longrightarrow>
     \<exists>used. script = used @ rest \<and> length used \<le> length buf"
proof (induction buf script arbitrary: ret out rest rule: send_loop.induct)
  case (3 x buf script)
  then show ?case by (intro exI [of _ "[None]"]) simp
next
  case (4 x buf n script)
  let ?n = "min n (length (x # buf))"
  obtain r o' where rec: "send_loop (drop ?n (x # buf)) script = (r, o', rest)"
    using "4.prems"(1) by (auto simp: Let_def split: prod.splits)
  obtain used where used: "script = used @ rest" "length used \<le> length (drop ?n (x # buf))"
    using "4.IH" [OF refl rec] "4.prems"(2) by auto
  have "0 < n" using "4.prems"(2) by (auto intro: gr0I)
  then have "length (Some n # used) \<le> length (x # buf)" using used(2) by (auto simp: min_def split: if_splits)
  then show ?case using used(1) by (intro exI [of _ "Some n # used"]) simp
qed auto

text \<open>
  \<open>syncs_blocking_send\<close> ends. As long as the kernel accepts at least one byte in every successful \<open>send\<close>, the loop calls \<open>send\<close>
  at most once for each byte of the buffer: the answers it uses up are that many at most.
\<close>

lemma blocking_send_terminates:
  assumes "Some 0 \<notin> set (os_script w)"
  shows "\<exists>used. os_script w = used @ os_script (snd (syncs_blocking_send sock buf w)) \<and> length used \<le> length buf"
  using assms send_loop_calls [of buf "os_script w"] by (auto simp: syncs_blocking_send_def split: prod.splits)

lemma blocking_send_frame:
  "\<exists>script sent. snd (syncs_blocking_send sock buf w) = w\<lparr>os_script := script, os_sent := sent\<rparr>"
  by (auto simp: syncs_blocking_send_def split: prod.splits)

lemma blocking_send_ideal:
  "os_script w = [] \<Longrightarrow>
     syncs_blocking_send sock buf w = (0, w\<lparr>os_sent := os_sent w @ [(sock, buf)]\<rparr>)"
  by (simp add: syncs_blocking_send_def send_loop_no_script)

text \<open>A world where nothing has happened yet and every send succeeds, for examples.\<close>

definition idle_os :: os where
  "idle_os = \<lparr>os_script = [], os_sent = [], os_dgram = [], os_calls = [], os_epoll = [], os_closed = [], os_now = (0, 0),
     os_stack = \<lparr>p_header = header_of_bytes (replicate 60 0), p_buffer = (\<lambda>_. 0)\<rparr>, os_fault = False\<rparr>"

end
