(* ===== verification/Sockets.thy ===== *)
theory Sockets
  imports Net
begin

unbundle bit_operations_syntax

text \<open>
  Opening and configuring sockets: \<^verbatim>\<open>src/libsyncs/syncs-net-server.c\<close>, \<^verbatim>\<open>src/libsyncs/syncs-net-client.c\<close> and the
  option setters of \<^verbatim>\<open>src/libsyncs/syncs-net-common.c\<close>.

  What the kernel answers is an argument: a \<open>sys_results\<close> record holds the descriptor \<open>socket\<close> returns and whether
  \<open>bind\<close>, \<open>listen\<close> and \<open>connect\<close> succeed. A failing \<open>setsockopt\<close> is only logged by the code, so its result is left
  out; a conditional \<open>#ifdef\<close> around an option is taken, as on Linux. \<open>inet_addr\<close> is the C library's and gives the
  address in network byte order.

  The descriptors a process holds are counted by \<open>balance\<close>: calls that create a descriptor minus calls of
  \<open>close\<close>. The locale \<open>opener\<close> is the contract of all opening functions.
\<close>

record sys_results =
  sys_socket :: int
  sys_bind :: bool
  sys_listen :: bool
  sys_connect :: bool

section \<open>Single calls\<close>

definition os_call :: "int \<Rightarrow> sockcall \<Rightarrow> os \<Rightarrow> os" where
  "os_call fd call w = w\<lparr>os_calls := os_calls w @ [(fd, call)]\<rparr>"

definition os_options :: "int \<Rightarrow> (sockopt \<times> int list) list \<Rightarrow> os \<Rightarrow> os" where
  "os_options fd opts w = fold (\<lambda>(opt, v). os_call fd (Setsockopt opt v)) opts w"

definition close_fd :: "int \<Rightarrow> os \<Rightarrow> os" where
  "close_fd fd w = w\<lparr>os_closed := os_closed w @ [fd]\<rparr>"

text \<open>The conversion of a 16-bit value to network byte order on a little-endian machine; \<open>htons\<close> cuts its \<open>int\<close> argument.\<close>

definition htons :: "int \<Rightarrow> u16" where
  "htons port = (let p = word_of_int port :: u16 in push_bit 8 p OR drop_bit 8 p)"

text \<open>
  The address structure all opening functions build: \<open>addr\<close> is the string argument, \<open>None\<close> for NULL, and \<open>dflt\<close> the
  address used when it is NULL or empty.
\<close>

definition socket_addr :: "(byte list \<Rightarrow> u32) \<Rightarrow> u32 \<Rightarrow> byte list option \<Rightarrow> int \<Rightarrow> sockaddr_in" where
  "socket_addr inet_addr dflt addr port =
     \<lparr>sin_addr = (case addr of None \<Rightarrow> dflt | Some a \<Rightarrow> if c_head a \<noteq> 0 then inet_addr a else dflt), sin_port = htons port\<rparr>"

text \<open>\<open>IPTOS_LOWDELAY\<close>, \<open>htonl (INADDR_ANY)\<close> and \<open>htonl (INADDR_LOOPBACK)\<close>.\<close>

abbreviation (input) IPTOS_LOWDELAY :: int where "IPTOS_LOWDELAY \<equiv> 0x10"
abbreviation (input) INADDR_ANY :: u32 where "INADDR_ANY \<equiv> 0"
abbreviation (input) INADDR_LOOPBACK_N :: u32 where "INADDR_LOOPBACK_N \<equiv> 0x0100007f"

section \<open>Server sockets\<close>

definition syncs_tcpserver_open ::
    "(byte list \<Rightarrow> u32) \<Rightarrow> sys_results \<Rightarrow> byte list option \<Rightarrow> int \<Rightarrow> os \<Rightarrow> int \<times> os" where
  "syncs_tcpserver_open inet_addr r addr port w =
     (let socketfd = sys_socket r
      in if socketfd < 0 then (-1, w)
         else
           (let w = os_call socketfd (Socket SOCK_STREAM) w;
                w = os_options socketfd [(SO_REUSEADDR, [1]), (SO_REUSEPORT, [1]), (TCP_NODELAY, [1]), (TCP_QUICKACK, [1]),
                      (TCP_SYNCNT, [3]), (SO_LINGER, [1, 0]), (IP_TOS, [IPTOS_LOWDELAY])] w;
                serveraddr = socket_addr inet_addr INADDR_ANY addr port
            in if \<not> sys_bind r then (-2, close_fd socketfd w)
               else
                 (let w = os_call socketfd (Bind serveraddr) w
                  in if \<not> sys_listen r then (-3, close_fd socketfd w)
                     else (socketfd, os_call socketfd (Listen 5) w))))"

definition syncs_tcpserver_close :: "int \<Rightarrow> os \<Rightarrow> os" where
  "syncs_tcpserver_close socketfd = os_call socketfd Shutdown"

definition syncs_udpserver_open ::
    "(byte list \<Rightarrow> u32) \<Rightarrow> sys_results \<Rightarrow> byte list option \<Rightarrow> int \<Rightarrow> os \<Rightarrow> int \<times> os" where
  "syncs_udpserver_open inet_addr r addr port w =
     (let socketfd = sys_socket r
      in if socketfd < 0 then (-1, w)
         else
           (let w = os_call socketfd (Socket SOCK_DGRAM) w;
                serveraddr = socket_addr inet_addr INADDR_ANY addr port;
                w = os_options socketfd [(SO_REUSEPORT, [1]), (IP_TOS, [IPTOS_LOWDELAY])] w
            in if \<not> sys_bind r then (-2, close_fd socketfd w)
               else (socketfd, os_call socketfd (Bind serveraddr) w)))"

definition syncs_udpserver_close :: "int \<Rightarrow> os \<Rightarrow> os" where
  "syncs_udpserver_close socketfd = close_fd socketfd"

definition syncs_udpmulticast_open ::
    "(byte list \<Rightarrow> u32) \<Rightarrow> sys_results \<Rightarrow> byte list option \<Rightarrow> int \<Rightarrow> os \<Rightarrow> int \<times> os" where
  "syncs_udpmulticast_open inet_addr r addr port w =
     (let socketfd = sys_socket r
      in if socketfd < 0 then (-1, w)
         else
           (let w = os_call socketfd (Socket SOCK_DGRAM) w;
                w = os_options socketfd [(SO_REUSEPORT, [1]), (IP_MULTICAST_LOOP, [1])] w;
                saddr = socket_addr inet_addr INADDR_ANY addr port
            in if \<not> sys_bind r then (-2, close_fd socketfd w)
               else (socketfd, os_call socketfd (Bind saddr) w)))"

section \<open>Client sockets\<close>

definition syncs_tcpclient_open ::
    "(byte list \<Rightarrow> u32) \<Rightarrow> sys_results \<Rightarrow> byte list option \<Rightarrow> int \<Rightarrow> os \<Rightarrow> int \<times> os" where
  "syncs_tcpclient_open inet_addr r addr port w =
     (let socketfd = sys_socket r
      in if socketfd < 0 then (-1, w)
         else
           (let w = os_call socketfd (Socket SOCK_STREAM) w;
                w = os_options socketfd [(SO_REUSEADDR, [1]), (SO_REUSEPORT, [1]), (TCP_NODELAY, [1]), (TCP_QUICKACK, [1]),
                      (TCP_SYNCNT, [3]), (SO_LINGER, [1, 0]), (IP_TOS, [IPTOS_LOWDELAY])] w;
                serveraddr = socket_addr inet_addr INADDR_LOOPBACK_N addr port
            in if \<not> sys_connect r then (-2, close_fd socketfd w)
               else (socketfd, os_call socketfd (Connect serveraddr) w)))"

definition syncs_tcpclient_close :: "int \<Rightarrow> os \<Rightarrow> os" where
  "syncs_tcpclient_close socketfd = os_call socketfd Shutdown"

text \<open>With the contents of \<open>*serveraddr\<close>, \<open>None\<close> when it is left as it was.\<close>

definition syncs_udpclient_open ::
    "(byte list \<Rightarrow> u32) \<Rightarrow> sys_results \<Rightarrow> byte list option \<Rightarrow> int \<Rightarrow> os \<Rightarrow> (int \<times> sockaddr_in option) \<times> os" where
  "syncs_udpclient_open inet_addr r addr port w =
     (let socketfd = sys_socket r
      in if socketfd < 0 then ((-1, None), w)
         else
           (let w = os_call socketfd (Socket SOCK_DGRAM) w;
                serveraddr = socket_addr inet_addr INADDR_ANY addr port;
                w = os_options socketfd [(SO_REUSEPORT, [1])] w
            in ((socketfd, Some serveraddr), w)))"

definition syncs_udpclient_close :: "int \<Rightarrow> os \<Rightarrow> os" where
  "syncs_udpclient_close socketfd = close_fd socketfd"

section \<open>Options\<close>

definition syncs_set_nonblocking_socket :: "int \<Rightarrow> int \<Rightarrow> int \<Rightarrow> os \<Rightarrow> os" where
  "syncs_set_nonblocking_socket socketfd rx_size tx_size w =
     (let w = os_call socketfd Set_nonblock w;
          w = (if rx_size \<noteq> 0 then os_options socketfd [(SO_RCVBUF, [rx_size])] w else w)
      in if tx_size \<noteq> 0 then os_options socketfd [(SO_SNDBUF, [tx_size])] w else w)"

definition syncs_set_rxtimeout :: "int \<Rightarrow> int \<Rightarrow> int \<Rightarrow> os \<Rightarrow> os" where
  "syncs_set_rxtimeout socketfd sec usec = os_options socketfd [(SO_RCVTIMEO, [sec, usec])]"

definition syncs_set_keepalive :: "int \<Rightarrow> int \<Rightarrow> int \<Rightarrow> os \<Rightarrow> os" where
  "syncs_set_keepalive socketfd idle count =
     os_options socketfd [(SO_KEEPALIVE, [1]), (TCP_KEEPIDLE, [idle]), (TCP_KEEPINTVL, [1]), (TCP_KEEPCNT, [count])]"

text \<open>\<open>joined\<close> is what \<open>setsockopt\<close> leads to: 0, or the value of \<open>errno\<close>.\<close>

definition syncs_add_multicast_group ::
    "(byte list \<Rightarrow> u32) \<Rightarrow> int \<Rightarrow> int \<Rightarrow> byte list \<Rightarrow> byte list option \<Rightarrow> os \<Rightarrow> int \<times> os" where
  "syncs_add_multicast_group inet_addr joined socketfd maddr addr w =
     (let imr_multiaddr = inet_addr maddr;
          imr_interface = sin_addr (socket_addr inet_addr INADDR_ANY addr 0)
      in (joined, os_options socketfd [(IP_ADD_MEMBERSHIP, [uint imr_multiaddr, uint imr_interface])] w))"

definition syncs_set_multicast_group :: "(byte list \<Rightarrow> u32) \<Rightarrow> byte list \<Rightarrow> int \<Rightarrow> sockaddr_in" where
  "syncs_set_multicast_group inet_addr maddr port = \<lparr>sin_addr = inet_addr maddr, sin_port = htons port\<rparr>"

section \<open>Multicast routes\<close>

text \<open>
  Adding a route through a device: \<open>fd\<close> is what \<open>socket\<close> returns, \<open>added\<close> whether \<open>ioctl\<close> succeeds, \<open>errno\<close> the error number after a failure. The test
  for failure is the one of the code, \<open>fd = 0\<close>; on a negative descriptor \<open>ioctl\<close> fails. The routes added are the second component.
\<close>

definition syncs_add_network_route_dev ::
    "int \<Rightarrow> bool \<Rightarrow> int \<Rightarrow> byte list \<Rightarrow> byte list \<Rightarrow> byte list \<Rightarrow> os \<Rightarrow> int \<times> (byte list \<times> byte list \<times> byte list) list \<times> os" where
  "syncs_add_network_route_dev fd added errno net netmask dev w =
     (if fd = 0 then (errno, [], os_call fd (Socket SOCK_DGRAM) w)
      else
        (let w = (if fd < 0 then w else os_call fd (Socket SOCK_DGRAM) w)
         in if fd < 0 \<or> \<not> added then (errno, [], close_fd fd w)
            else (0, [(net, netmask, dev)], close_fd fd w)))"

text \<open>An entry of \<open>getifaddrs\<close>: name, whether it is a loopback interface, whether it has an address of the family AF_PACKET.\<close>

record ifaddr =
  ifa_name :: "byte list"
  ifa_loopback :: bool
  ifa_packet :: bool

definition SYNCS_NET_MULTICAST_NET :: "byte list" where
  "SYNCS_NET_MULTICAST_NET = cstr ''224.0.0.0''"

definition route_interface :: "ifaddr \<Rightarrow> bool" where
  "route_interface ifa \<longleftrightarrow> \<not> ifa_loopback ifa \<and> ifa_packet ifa \<and>
     take 5 (ifa_name ifa) \<noteq> cstr ''dummy'' \<and> take 2 (ifa_name ifa) \<noteq> cstr ''lo''"

text \<open>The loop over the interfaces: the routes added. \<open>answer\<close> gives what the kernel answers for a device.\<close>

definition add_route :: "(byte list \<Rightarrow> int \<times> bool \<times> int) \<Rightarrow> byte list \<Rightarrow> os \<Rightarrow> int \<times> (byte list \<times> byte list \<times> byte list) list \<times> os" where
  "add_route answer dev w = (case answer dev of (fd, added, errno) \<Rightarrow>
     syncs_add_network_route_dev fd added errno SYNCS_NET_MULTICAST_NET SYNCS_NET_MULTICAST_NET dev w)"

primrec route_loop :: "(byte list \<Rightarrow> int \<times> bool \<times> int) \<Rightarrow> ifaddr list \<Rightarrow> os \<Rightarrow> (byte list \<times> byte list \<times> byte list) list \<times> os" where
  "route_loop answer [] w = ([], w)"
| "route_loop answer (ifa # ifas) w =
     (if route_interface ifa
      then (let (_, new, w) = add_route answer (ifa_name ifa) w; (routes, w) = route_loop answer ifas w in (new @ routes, w))
      else route_loop answer ifas w)"

text \<open>\<open>ifaddrs\<close> is \<open>None\<close> when \<open>getifaddrs\<close> fails.\<close>

definition syncs_add_multicast_route ::
    "(byte list \<Rightarrow> int \<times> bool \<times> int) \<Rightarrow> ifaddr list option \<Rightarrow> byte list option \<Rightarrow> os \<Rightarrow> int \<times> (byte list \<times> byte list \<times> byte list) list \<times> os" where
  "syncs_add_multicast_route answer ifaddrs ifname w =
     (case ifname of
        Some dev \<Rightarrow> add_route answer dev w
      | None \<Rightarrow> (case ifaddrs of None \<Rightarrow> (-1, [], w) | Some ifas \<Rightarrow> (0, route_loop answer ifas w)))"

section \<open>Descriptors held\<close>

definition creates :: "sockcall \<Rightarrow> bool" where
  "creates call = (case call of Socket _ \<Rightarrow> True | Accepted _ \<Rightarrow> True | Epoll_create \<Rightarrow> True | _ \<Rightarrow> False)"

definition balance :: "os \<Rightarrow> int \<Rightarrow> int" where
  "balance w fd = int (length (filter (\<lambda>(f, call). f = fd \<and> creates call) (os_calls w))) - int (count_list (os_closed w) fd)"

lemma os_call_simps [simp]:
  "os_fault (os_call fd call w) = os_fault w" "os_script (os_call fd call w) = os_script w"
  "os_sent (os_call fd call w) = os_sent w" "os_dgram (os_call fd call w) = os_dgram w"
  "os_epoll (os_call fd call w) = os_epoll w" "os_closed (os_call fd call w) = os_closed w"
  "os_stack (os_call fd call w) = os_stack w" "os_now (os_call fd call w) = os_now w"
  by (simp_all add: os_call_def)

lemma os_options_simps [simp]:
  "os_fault (os_options fd opts w) = os_fault w" "os_script (os_options fd opts w) = os_script w"
  "os_sent (os_options fd opts w) = os_sent w" "os_dgram (os_options fd opts w) = os_dgram w"
  "os_epoll (os_options fd opts w) = os_epoll w" "os_closed (os_options fd opts w) = os_closed w"
  "os_stack (os_options fd opts w) = os_stack w" "os_now (os_options fd opts w) = os_now w"
  unfolding os_options_def by (induction opts arbitrary: w) auto

lemma balance_call [simp]:
  "balance (os_call fd call w) = (if creates call then (balance w)(fd := balance w fd + 1) else balance w)"
  by (auto simp: balance_def os_call_def fun_eq_iff)

lemma balance_close [simp]: "balance (close_fd fd w) = (balance w)(fd := balance w fd - 1)"
  by (auto simp: balance_def close_fd_def fun_eq_iff)

lemma balance_options [simp]: "balance (os_options fd opts w) = balance w"
  unfolding os_options_def by (induction opts arbitrary: w) (auto simp: creates_def)

lemma creates_simps [simp]:
  "creates (Socket ty)" "creates (Accepted a)" "creates Epoll_create" "\<not> creates (Setsockopt opt v)" "\<not> creates Set_nonblock"
  "\<not> creates Set_cloexec" "\<not> creates (Bind a)" "\<not> creates (Listen n)" "\<not> creates (Connect a)" "\<not> creates Shutdown"
  by (simp_all add: creates_def)

lemma balance_nonblocking [simp]: "balance (syncs_set_nonblocking_socket fd rx tx w) = balance w"
  by (simp add: syncs_set_nonblocking_socket_def Let_def)

lemma set_socket_fault [simp]:
  "os_fault (syncs_set_nonblocking_socket fd rx tx w) = os_fault w" "os_fault (syncs_set_keepalive fd idle n w) = os_fault w"
  by (simp_all add: syncs_set_nonblocking_socket_def syncs_set_keepalive_def Let_def)

lemma balance_keepalive [simp]: "balance (syncs_set_keepalive fd idle n w) = balance w"
  by (simp add: syncs_set_keepalive_def)

text \<open>One more descriptor for each of the list.\<close>

definition gains :: "int list \<Rightarrow> (int \<Rightarrow> int) \<Rightarrow> int \<Rightarrow> int" where
  "gains fds b fd = b fd + int (count_list fds fd)"

lemma gains_simps [simp]: "gains [] b = b" "gains (x # fds) b = (gains fds b)(x := gains fds b x + 1)"
  by (auto simp: gains_def fun_eq_iff)

text \<open>
  The contract of an opening function over what the kernel answers: a failure leaves the descriptors as they were,
  a success adds the one it returns.
\<close>

locale opener =
  fixes open_socket :: "sys_results \<Rightarrow> os \<Rightarrow> int \<times> os"
  assumes failure_keeps: "fst (open_socket r w) < 0 \<Longrightarrow> balance (snd (open_socket r w)) = balance w"
    and success_adds: "0 \<le> fst (open_socket r w) \<Longrightarrow>
      balance (snd (open_socket r w)) = (balance w)(fst (open_socket r w) := balance w (fst (open_socket r w)) + 1)"
begin

text \<open>The loops that open again after a failure, as in the connecting threads: no number of failures loses a descriptor.\<close>

lemma retries_keep:
  assumes "\<And>r w. r \<in> set rs \<Longrightarrow> fst (open_socket r w) < 0"
  shows "balance (fold (\<lambda>r w. snd (open_socket r w)) rs w) = balance w"
  using assms by (induction rs arbitrary: w) (simp_all add: failure_keeps)

lemma retries_then_success:
  assumes "\<And>r w. r \<in> set rs \<Longrightarrow> fst (open_socket r w) < 0"
    and "open_socket r (fold (\<lambda>r w. snd (open_socket r w)) rs w) = (fd, w')" "0 \<le> fd"
  shows "balance w' = (balance w)(fd := balance w fd + 1)"
  using success_adds [of r "fold (\<lambda>r w. snd (open_socket r w)) rs w"] retries_keep [of rs w] assms by simp

end

lemmas open_defs = syncs_tcpserver_open_def syncs_udpserver_open_def syncs_udpmulticast_open_def syncs_tcpclient_open_def
  syncs_udpclient_open_def Let_def

interpretation tcpserver: opener "\<lambda>r. syncs_tcpserver_open inet_addr r addr port" for inet_addr addr port
  by unfold_locales (auto simp: open_defs fun_eq_iff split: if_splits)

interpretation udpserver: opener "\<lambda>r. syncs_udpserver_open inet_addr r addr port" for inet_addr addr port
  by unfold_locales (auto simp: open_defs fun_eq_iff split: if_splits)

interpretation multicast: opener "\<lambda>r. syncs_udpmulticast_open inet_addr r addr port" for inet_addr addr port
  by unfold_locales (auto simp: open_defs fun_eq_iff split: if_splits)

interpretation tcpclient: opener "\<lambda>r. syncs_tcpclient_open inet_addr r addr port" for inet_addr addr port
  by unfold_locales (auto simp: open_defs fun_eq_iff split: if_splits)

interpretation udpclient: opener "\<lambda>r w. (fst (fst (syncs_udpclient_open inet_addr r addr port w)),
    snd (syncs_udpclient_open inet_addr r addr port w))" for inet_addr addr port
  by unfold_locales (auto simp: open_defs fun_eq_iff split: if_splits)

text \<open>Adding routes gives every control socket back, as long as the kernel hands out a descriptor other than 0.\<close>

lemma balance_add_route: "0 < fst (answer dev) \<Longrightarrow> balance (snd (snd (add_route answer dev w))) = balance w"
  by (auto simp: add_route_def syncs_add_network_route_dev_def Let_def fun_eq_iff split: prod.split)

lemma balance_route_loop: "(\<And>dev. 0 < fst (answer dev)) \<Longrightarrow> balance (snd (route_loop answer ifas w)) = balance w"
proof (induction ifas arbitrary: w)
  case (Cons ifa ifas)
  then show ?case
    using balance_add_route [of answer "ifa_name ifa" w] by (simp add: Let_def split_beta)
qed simp

lemma balance_multicast_route:
  "(\<And>dev. 0 < fst (answer dev)) \<Longrightarrow> balance (snd (snd (syncs_add_multicast_route answer ifaddrs ifname w))) = balance w"
  by (simp add: syncs_add_multicast_route_def balance_add_route balance_route_loop split: option.split)

end
