(* ===== verification/Slots.thy ===== *)
theory Slots
  imports Wire
begin

text \<open>
  The interface of a table of named slots. The server's events and channels are fixed arrays whose
  entries carry an id; an entry whose first id word is -1 is free. The library only ever searches
  such a table for an id, takes the first free entry for a new id, and frees the entry of an id.

  The locale \<open>id_table\<close> states what the code of these three operations does to the ids and to the
  entry counter, and derives what clients of a table rely on: a live id has at most one entry, an
  entry made for an id is the one that is found afterwards, no other live id is affected, a
  freed id is gone, the table is full only when all entries are live, and the counter counts the live
  entries as long as only live ids are used.
\<close>

definition live_id :: "syncsid \<Rightarrow> bool" where
  "live_id x \<longleftrightarrow> id_i0 x \<noteq> -1"

definition unique_ids :: "nat \<Rightarrow> (nat \<Rightarrow> syncsid) \<Rightarrow> bool" where
  "unique_ids n f \<longleftrightarrow> (\<forall>i<n. \<forall>j<n. live_id (f i) \<longrightarrow> f i = f j \<longrightarrow> i = j)"

lemma unique_idsD: "unique_ids n f \<Longrightarrow> i < n \<Longrightarrow> j < n \<Longrightarrow> live_id (f i) \<Longrightarrow> f i = f j \<Longrightarrow> i = j"
  by (auto simp: unique_ids_def)

lemma unique_ids_new:
  assumes "unique_ids n f" "\<And>j. j < n \<Longrightarrow> f j \<noteq> x"
  shows "unique_ids n (f(i := x))"
  unfolding unique_ids_def
proof (intro allI impI)
  fix a b
  assume ab: "a < n" "b < n" "live_id ((f(i := x)) a)" "(f(i := x)) a = (f(i := x)) b"
  then show "a = b"
    using assms(2) [of a] assms(2) [of b] unique_idsD [OF assms(1), of a b] by (auto split: if_splits)
qed

lemma unique_ids_dead:
  assumes "unique_ids n f" "\<not> live_id x"
  shows "unique_ids n (f(i := x))"
  unfolding unique_ids_def
proof (intro allI impI)
  fix a b
  assume ab: "a < n" "b < n" "live_id ((f(i := x)) a)" "(f(i := x)) a = (f(i := x)) b"
  then show "a = b"
    using assms(2) unique_idsD [OF assms(1), of a b] by (auto split: if_splits)
qed

lemma dead_id [simp]: "\<not> live_id (x\<lparr>id_i0 := -1\<rparr>)"
  by (simp add: live_id_def)

text \<open>A name that does not start with the byte 255 makes a live id.\<close>

lemma live_idstr:
  assumes "c_head cid \<noteq> 255"
  shows "live_id (syncs_idstr cid)"
  unfolding live_id_def
proof
  let ?x = "syncs_idstr cid"
  assume "id_i0 ?x = -1"
  then have "hd (id_bytes ?x) = 255"
    by (simp add: id_bytes_def le_bytes_def upt_conv_Cons mask_eq_exp_minus_1)
  moreover have "hd (id_bytes ?x) = c_head cid"
    by (cases "c_head cid = 0") (simp_all add: id_bytes_idstr c_str_step c_head_0)
  ultimately show False using assms by simp
qed

lemma live_id_a: "live_id (syncs_idstr (cstr ''a''))"
  by (rule live_idstr) (simp add: cstr_def c_head_def)

locale id_table =
  fixes cap :: nat
    and sid :: "'s \<Rightarrow> nat \<Rightarrow> syncsid"
    and find :: "'s \<Rightarrow> syncsid \<Rightarrow> nat option"
    and create :: "'s \<Rightarrow> syncsid \<Rightarrow> nat option \<times> 's"
    and free :: "'s \<Rightarrow> syncsid \<Rightarrow> 's"
    and cnt :: "'s \<Rightarrow> u32"
  assumes find_eq: "find s x = first_slot cap (\<lambda>i. syncs_idcmp (sid s i) x)"
    and create_full: "first_slot cap (\<lambda>i. \<not> live_id (sid s i)) = None \<Longrightarrow> create s x = (None, s)"
    and create_slot: "first_slot cap (\<lambda>i. \<not> live_id (sid s i)) = Some i \<Longrightarrow>
          fst (create s x) = Some i \<and> sid (snd (create s x)) = (sid s)(i := x) \<and>
          cnt (snd (create s x)) = cnt s + 1"
    and free_none: "find s x = None \<Longrightarrow> free s x = s"
    and free_some: "find s x = Some i \<Longrightarrow>
          sid (free s x) = (sid s)(i := (sid s i)\<lparr>id_i0 := -1\<rparr>) \<and> cnt (free s x) = cnt s - 1"
begin

lemma find_Some: "find s x = Some i \<Longrightarrow> i < cap \<and> sid s i = x"
  by (auto simp: find_eq dest: first_slot_SomeD)

lemma find_None: "find s x = None \<longleftrightarrow> (\<forall>i<cap. sid s i \<noteq> x)"
  by (simp add: find_eq slot_simps)

lemma find_live:
  assumes "unique_ids cap (sid s)" "live_id x"
  shows "find s x = Some i \<longleftrightarrow> i < cap \<and> sid s i = x"
proof
  assume "i < cap \<and> sid s i = x"
  with assms show "find s x = Some i"
    unfolding find_eq by (intro first_slot_unique) (auto dest: unique_idsD)
qed (rule find_Some)

lemma create_Some:
  "fst (create s x) = Some i \<Longrightarrow>
     i < cap \<and> \<not> live_id (sid s i) \<and> sid (snd (create s x)) = (sid s)(i := x) \<and>
     cnt (snd (create s x)) = cnt s + 1"
  using create_full [of s x] create_slot [of s _ x]
  by (cases "first_slot cap (\<lambda>i. \<not> live_id (sid s i))") (auto dest: first_slot_SomeD)

lemma create_None: "fst (create s x) = None \<longleftrightarrow> (\<forall>i<cap. live_id (sid s i))"
proof (cases "first_slot cap (\<lambda>i. \<not> live_id (sid s i))")
  case None
  then show ?thesis using create_full [OF None] by (auto simp: first_slot_None)
next
  case (Some i)
  then show ?thesis using create_slot [OF Some] by (auto dest: first_slot_SomeD)
qed

lemma create_None_same: "fst (create s x) = None \<Longrightarrow> snd (create s x) = s"
  using create_full [of s x] create_slot [of s _ x]
  by (cases "first_slot cap (\<lambda>i. \<not> live_id (sid s i))") auto

lemma create_unique:
  assumes "unique_ids cap (sid s)" "find s x = None"
  shows "unique_ids cap (sid (snd (create s x)))"
proof (cases "fst (create s x)")
  case None
  then show ?thesis using assms(1) by (simp add: create_None_same)
next
  case (Some i)
  from create_Some [OF this] show ?thesis
    using assms unique_ids_new [of cap "sid s" x i] by (auto simp: find_None)
qed

lemma find_create:
  assumes "unique_ids cap (sid s)" "find s x = None" "live_id x" "fst (create s x) = Some i"
  shows "find (snd (create s x)) x = Some i"
  using assms create_unique [OF assms(1,2)] create_Some [OF assms(4)] by (simp add: find_live)

lemma find_create_other:
  assumes "unique_ids cap (sid s)" "find s x = None" "live_id y" "y \<noteq> x"
  shows "find (snd (create s x)) y = find s y"
proof (cases "fst (create s x)")
  case None
  then show ?thesis by (simp add: create_None_same)
next
  case (Some i)
  have "find (snd (create s x)) y = Some j \<longleftrightarrow> find s y = Some j" for j
    using assms create_unique [OF assms(1,2)] create_Some [OF Some] by (auto simp: find_live)
  then show ?thesis by (metis not_Some_eq)
qed

lemma free_unique: "unique_ids cap (sid s) \<Longrightarrow> unique_ids cap (sid (free s x))"
  using free_none [of s x] free_some [of s x] by (cases "find s x") (auto intro: unique_ids_dead)

lemma find_free:
  assumes "unique_ids cap (sid s)" "live_id x"
  shows "find (free s x) x = None"
proof (cases "find s x")
  case None
  then show ?thesis by (simp add: free_none)
next
  case (Some i)
  show ?thesis
    unfolding find_None
  proof (intro allI impI)
    fix j
    assume j: "j < cap"
    have "sid s i = x" using find_Some [OF Some] by simp
    then have "(sid s i)\<lparr>id_i0 := -1\<rparr> \<noteq> x" using assms(2) by (metis dead_id)
    moreover have "j \<noteq> i \<Longrightarrow> sid s j \<noteq> x"
      using assms j find_Some [OF Some] by (auto dest: unique_idsD [OF assms(1), of j i])
    ultimately show "sid (free s x) j \<noteq> x" using free_some [OF Some] by auto
  qed
qed

lemma find_free_other:
  assumes "unique_ids cap (sid s)" "live_id x" "live_id y" "y \<noteq> x"
  shows "find (free s x) y = find s y"
proof (cases "find s x")
  case None
  then show ?thesis by (simp add: free_none)
next
  case (Some i)
  have "find (free s x) y = Some j \<longleftrightarrow> find s y = Some j" for j
    using assms free_unique [OF assms(1), of x] free_some [OF Some] find_Some [OF Some]
    by (auto simp: find_live)
  then show ?thesis by (metis not_Some_eq)
qed

lemma create_count:
  assumes "live_id x" "cnt s = of_nat (count_slots cap (\<lambda>i. live_id (sid s i)))"
  shows "cnt (snd (create s x)) = of_nat (count_slots cap (\<lambda>i. live_id (sid (snd (create s x)) i)))"
proof (cases "fst (create s x)")
  case None
  then show ?thesis using assms by (simp add: create_None_same)
next
  case (Some i)
  note c = create_Some [OF Some]
  then have "count_slots cap (\<lambda>j. live_id (sid (snd (create s x)) j))
      = Suc (count_slots cap (\<lambda>j. live_id (sid s j)))"
    using assms(1) by (intro count_slots_set [of i]) auto
  then show ?thesis using c assms(2) by simp
qed

lemma free_count:
  assumes "live_id x" "cnt s = of_nat (count_slots cap (\<lambda>i. live_id (sid s i)))"
  shows "cnt (free s x) = of_nat (count_slots cap (\<lambda>i. live_id (sid (free s x) i)))"
proof (cases "find s x")
  case None
  then show ?thesis using assms by (simp add: free_none)
next
  case (Some i)
  note f = free_some [OF Some] and i = find_Some [OF Some]
  have "Suc (count_slots cap (\<lambda>j. live_id (sid (free s x) j))) = count_slots cap (\<lambda>j. live_id (sid s j))"
    using f i assms(1) by (intro count_slots_clear [of i]) auto
  then show ?thesis using f assms(2) by (metis add_diff_cancel_left' of_nat_Suc)
qed

end

end
