(* ===== verification/Server_State.thy ===== *)
theory Server_State
  imports Net Slots
begin

unbundle bit_operations_syntax

text \<open>
  The state of a server (\<^verbatim>\<open>src/libsyncs/syncs-server-types.h\<close>) and the operations of
  \<^verbatim>\<open>src/libsyncs/syncs-server.c\<close> on its tables of events, clients and channels, with sending to
  one client.

  A fixed C array is a function from indices, read and searched only below its size. A pointer to an
  element of \<open>clients\<close> or \<open>events\<close> is the index, NULL is \<open>None\<close>; a callback and its argument are opaque
  pointer values. Counters are words of their C width. The fields that the code never reads
  (\<open>key\<close>, \<open>crypt_buffer\<close>, the thread handles, \<open>uepoll_data\<close>) and the back pointer \<open>server\<close> of a client are
  left out; what an epoll entry points to is the kind of step in \<open>Server_Loop\<close>.

  Operations with a result return it paired with the new state.
\<close>

section \<open>State\<close>

record syncs_client =
  c_id :: syncsid
  c_socketfd :: int
  c_addr :: sockaddr_in
  c_addr_size :: int
  c_event_subscribe :: u32
  c_event_write :: u32
  c_rx_event_count :: u32
  c_tx_event_count :: u32
  c_tx_error :: u32
  c_version :: u32
  c_buffer :: mem
  c_buffer_recv :: nat

record syncs_event =
  e_id :: syncsid
  e_data :: mem
  e_data_type :: u32
  e_data_size :: u32
  e_count :: u32
  e_update_counter :: u64
  e_consumers_count :: u32
  e_producers_count :: u32
  e_consumers :: "nat \<Rightarrow> nat option"
  e_producer :: "nat option"
  e_cb :: "nat option"
  e_args :: nat

record syncs_channel =
  ch_id :: syncsid
  ch_ticket :: syncs_channel_ticket
  ch_anons_count :: u32
  ch_request_count :: u32
  ch_producers_count :: u32
  ch_producer :: "nat option"

record syncs_server =
  s_id :: syncsid
  s_addr :: "byte list"
  s_port :: int
  s_socketfd :: int
  s_usocketfd :: int
  s_epollfd :: int
  s_events :: "nat \<Rightarrow> syncs_event"
  s_clients :: "nat \<Rightarrow> syncs_client"
  s_channels :: "nat \<Rightarrow> syncs_channel"
  s_channel_count :: u32
  s_event_count :: u32
  s_client_count :: u32
  s_sync_offset :: int
  s_update_counter :: u64
  s_ubuffer :: mem
  s_uclient_count :: u32
  s_ssdp_socketfd :: int
  s_ssdp_beacon :: int
  s_os :: os

text \<open>Assignments through a pointer.\<close>

definition upd_client :: "nat \<Rightarrow> (syncs_client \<Rightarrow> syncs_client) \<Rightarrow> syncs_server \<Rightarrow> syncs_server" where
  "upd_client c f s = s\<lparr>s_clients := (s_clients s)(c := f (s_clients s c))\<rparr>"

definition upd_event :: "nat \<Rightarrow> (syncs_event \<Rightarrow> syncs_event) \<Rightarrow> syncs_server \<Rightarrow> syncs_server" where
  "upd_event i f s = s\<lparr>s_events := (s_events s)(i := f (s_events s i))\<rparr>"

definition upd_channel :: "nat \<Rightarrow> (syncs_channel \<Rightarrow> syncs_channel) \<Rightarrow> syncs_server \<Rightarrow> syncs_server" where
  "upd_channel i f s = s\<lparr>s_channels := (s_channels s)(i := f (s_channels s i))\<rparr>"

definition upd_os :: "(os \<Rightarrow> os) \<Rightarrow> syncs_server \<Rightarrow> syncs_server" where
  "upd_os f s = s\<lparr>s_os := f (s_os s)\<rparr>"

section \<open>Creating a server\<close>

text \<open>\<open>calloc (1, sizeof (struct syncs_server))\<close>: every field zero, every pointer NULL.\<close>

definition zero_id :: syncsid where
  "zero_id = \<lparr>id_i0 = 0, id_i1 = 0, id_i2 = 0, id_i3 = 0\<rparr>"

definition zero_client :: syncs_client where
  "zero_client = \<lparr>c_id = zero_id, c_socketfd = 0, c_addr = \<lparr>sin_addr = 0, sin_port = 0\<rparr>, c_addr_size = 0,
     c_event_subscribe = 0, c_event_write = 0, c_rx_event_count = 0, c_tx_event_count = 0, c_tx_error = 0,
     c_version = 0, c_buffer = (\<lambda>_. 0), c_buffer_recv = 0\<rparr>"

definition zero_event :: syncs_event where
  "zero_event = \<lparr>e_id = zero_id, e_data = (\<lambda>_. 0), e_data_type = 0, e_data_size = 0, e_count = 0,
     e_update_counter = 0, e_consumers_count = 0, e_producers_count = 0, e_consumers = (\<lambda>_. None),
     e_producer = None, e_cb = None, e_args = 0\<rparr>"

definition zero_channel :: syncs_channel where
  "zero_channel = \<lparr>ch_id = zero_id, ch_ticket = \<lparr>t_ip = 0, t_port = 0, t_flags = 0\<rparr>, ch_anons_count = 0,
     ch_request_count = 0, ch_producers_count = 0, ch_producer = None\<rparr>"

definition calloc_server :: "os \<Rightarrow> syncs_server" where
  "calloc_server w = \<lparr>s_id = zero_id, s_addr = replicate 20 0, s_port = 0, s_socketfd = 0, s_usocketfd = 0,
     s_epollfd = 0, s_events = (\<lambda>_. zero_event), s_clients = (\<lambda>_. zero_client),
     s_channels = (\<lambda>_. zero_channel), s_channel_count = 0, s_event_count = 0, s_client_count = 0,
     s_sync_offset = 0, s_update_counter = 0, s_ubuffer = (\<lambda>_. 0), s_uclient_count = 0,
     s_ssdp_socketfd = 0, s_ssdp_beacon = 0, s_os = w\<rparr>"

definition syncs_server_structure_init :: "syncs_server \<Rightarrow> syncs_server" where
  "syncs_server_structure_init s =
     (let s = fold (\<lambda>i. upd_event i (\<lambda>e. e\<lparr>e_id := (e_id e)\<lparr>id_i0 := -1\<rparr>\<rparr>)) [0..<SYNCS_EVENT_MAXIMUM] s;
          s = fold (\<lambda>i. upd_channel i (\<lambda>ch. ch\<lparr>ch_id := (ch_id ch)\<lparr>id_i0 := -1\<rparr>\<rparr>)) [0..<SYNCS_CHANNEL_MAXIMUM] s;
          s = fold (\<lambda>i. upd_client i (\<lambda>cl. cl\<lparr>c_socketfd := -1\<rparr>)) [0..<SYNCS_CLIENT_MAXIMUM] s
      in s\<lparr>s_sync_offset := SYNCS_DEFAULT_SYNC_OFFSET_MS\<rparr>)"

text \<open>
  \<open>syncs_server_create\<close> up to the start of the thread. The first argument tells whether \<open>calloc\<close>
  succeeds; \<open>None\<close> as address or name is NULL.
\<close>

definition syncs_server_create :: "bool \<Rightarrow> byte list option \<Rightarrow> int \<Rightarrow> byte list option \<Rightarrow> os \<Rightarrow> syncs_server option" where
  "syncs_server_create allocated addr port cid w =
     (if \<not> allocated then None
      else
        (let s = syncs_server_structure_init (calloc_server w);
             s = (case addr of Some a \<Rightarrow> s\<lparr>s_addr := take 20 (c_str a @ replicate 20 0)\<rparr> | None \<Rightarrow> s);
             s = s\<lparr>s_port := port\<rparr>
         in Some (case cid of Some n \<Rightarrow> s\<lparr>s_id := syncs_idstr n\<rparr> | None \<Rightarrow> s)))"

definition syncs_server_set_sync_offset :: "int \<Rightarrow> syncs_server \<Rightarrow> syncs_server" where
  "syncs_server_set_sync_offset ms s = s\<lparr>s_sync_offset := ms\<rparr>"

section \<open>Tables\<close>

definition syncs_get_free_client :: "syncs_server \<Rightarrow> nat option" where
  "syncs_get_free_client s = first_slot SYNCS_CLIENT_MAXIMUM (\<lambda>i. c_socketfd (s_clients s i) = -1)"

definition syncs_event_init :: "syncsid \<Rightarrow> syncs_event \<Rightarrow> syncs_event" where
  "syncs_event_init x event =
     event\<lparr>e_args := 0, e_cb := None, e_count := 0, e_data := (e_data event)(0 := 0),
       e_data_size := 0, e_data_type := 0, e_producer := None, e_update_counter := 0,
       e_consumers_count := 0, e_producers_count := 0,
       e_consumers := (\<lambda>k. if k < SYNCS_CLIENT_MAXIMUM then None else e_consumers event k),
       e_id := syncs_idcpy (e_id event) x\<rparr>"

definition syncs_channel_init :: "syncsid \<Rightarrow> syncs_channel \<Rightarrow> syncs_channel" where
  "syncs_channel_init x channel =
     channel\<lparr>ch_producer := None, ch_anons_count := 0, ch_producers_count := 0,
       ch_request_count := 0, ch_id := syncs_idcpy (ch_id channel) x\<rparr>"

definition syncs_create_channel :: "syncs_server \<Rightarrow> syncsid \<Rightarrow> nat option \<times> syncs_server" where
  "syncs_create_channel s x =
     (case first_slot SYNCS_CHANNEL_MAXIMUM (\<lambda>i. id_i0 (ch_id (s_channels s i)) = -1) of
        Some i \<Rightarrow> (Some i, (upd_channel i (syncs_channel_init x) s)\<lparr>s_channel_count := s_channel_count s + 1\<rparr>)
      | None \<Rightarrow> (None, s))"

definition syncs_create_event :: "syncs_server \<Rightarrow> syncsid \<Rightarrow> nat option \<times> syncs_server" where
  "syncs_create_event s x =
     (case first_slot SYNCS_EVENT_MAXIMUM (\<lambda>i. id_i0 (e_id (s_events s i)) = -1) of
        Some i \<Rightarrow> (Some i, (upd_event i (syncs_event_init x) s)\<lparr>s_event_count := s_event_count s + 1\<rparr>)
      | None \<Rightarrow> (None, s))"

definition syncs_find_event :: "syncs_server \<Rightarrow> syncsid \<Rightarrow> nat option" where
  "syncs_find_event s x = first_slot SYNCS_EVENT_MAXIMUM (\<lambda>i. syncs_idcmp (e_id (s_events s i)) x)"

definition syncs_find_uclient_id :: "syncs_server \<Rightarrow> syncsid \<Rightarrow> nat option" where
  "syncs_find_uclient_id s x =
     first_slot SYNCS_CLIENT_MAXIMUM
       (\<lambda>i. c_socketfd (s_clients s i) = UDP_SOCKET_STUB \<and> syncs_idcmp (c_id (s_clients s i)) x)"

definition syncs_find_uclient_addr :: "syncs_server \<Rightarrow> sockaddr_in \<Rightarrow> nat option" where
  "syncs_find_uclient_addr s addr =
     first_slot SYNCS_CLIENT_MAXIMUM
       (\<lambda>i. c_socketfd (s_clients s i) = UDP_SOCKET_STUB \<and>
            sin_addr (c_addr (s_clients s i)) = sin_addr addr \<and>
            sin_port (c_addr (s_clients s i)) = sin_port addr)"

definition syncs_find_channel :: "syncs_server \<Rightarrow> syncsid \<Rightarrow> nat option" where
  "syncs_find_channel s x = first_slot SYNCS_CHANNEL_MAXIMUM (\<lambda>i. syncs_idcmp (ch_id (s_channels s i)) x)"

definition syncs_free_event :: "syncs_server \<Rightarrow> syncsid \<Rightarrow> syncs_server" where
  "syncs_free_event s x =
     (case syncs_find_event s x of
        None \<Rightarrow> s
      | Some i \<Rightarrow> (upd_event i (\<lambda>e. e\<lparr>e_id := (e_id e)\<lparr>id_i0 := -1\<rparr>\<rparr>) s)\<lparr>s_event_count := s_event_count s - 1\<rparr>)"

definition syncs_free_channel :: "syncs_server \<Rightarrow> syncsid \<Rightarrow> syncs_server" where
  "syncs_free_channel s x =
     (case syncs_find_channel s x of
        None \<Rightarrow> s
      | Some i \<Rightarrow> (upd_channel i (\<lambda>ch. ch\<lparr>ch_id := (ch_id ch)\<lparr>id_i0 := -1\<rparr>\<rparr>) s)\<lparr>s_channel_count := s_channel_count s - 1\<rparr>)"

section \<open>Sending to a client\<close>

definition syncs_client_send :: "nat \<Rightarrow> syncs_packet \<Rightarrow> syncs_server \<Rightarrow> int \<times> syncs_server" where
  "syncs_client_send c packet s =
     (let client = s_clients s c;
          buffer = packet_bytes packet (SYNCS_PACKET_SIZE packet)
      in if c_socketfd client > -1 then
           (let (ret, w) = syncs_blocking_send (c_socketfd client) buffer (s_os s) in (ret, s\<lparr>s_os := w\<rparr>))
         else if c_socketfd client = UDP_SOCKET_STUB then
           (let (_, w) = syncs_udp_send (s_usocketfd s) buffer (c_addr client) (s_os s) in (0, s\<lparr>s_os := w\<rparr>))
         else (-1, s))"

section \<open>Subscriptions\<close>

definition syncs_add_client_to_event :: "nat \<Rightarrow> nat \<Rightarrow> syncs_server \<Rightarrow> int \<times> syncs_server" where
  "syncs_add_client_to_event c i s =
     (let consumers = e_consumers (s_events s i)
      in case first_slot SYNCS_CLIENT_MAXIMUM (\<lambda>k. consumers k = Some c) of
           Some _ \<Rightarrow> (0, s)
         | None \<Rightarrow>
             (case first_slot SYNCS_CLIENT_MAXIMUM (\<lambda>k. consumers k = None) of
                Some k \<Rightarrow>
                  (0, upd_client c (\<lambda>cl. cl\<lparr>c_event_subscribe := c_event_subscribe cl + 1\<rparr>)
                       (upd_event i (\<lambda>e. e\<lparr>e_consumers := (e_consumers e)(k := Some c),
                                            e_consumers_count := e_consumers_count e + 1\<rparr>) s))
              | None \<Rightarrow> (-1, s)))"

definition syncs_remove_client_from_event :: "nat \<Rightarrow> nat \<Rightarrow> syncs_server \<Rightarrow> syncs_server" where
  "syncs_remove_client_from_event c i s =
     (case first_slot SYNCS_CLIENT_MAXIMUM (\<lambda>k. e_consumers (s_events s i) k = Some c) of
        Some k \<Rightarrow>
          upd_client c (\<lambda>cl. cl\<lparr>c_event_subscribe := c_event_subscribe cl - 1\<rparr>)
            (upd_event i (\<lambda>e. e\<lparr>e_consumers := (e_consumers e)(k := None),
                                 e_consumers_count := e_consumers_count e - 1\<rparr>) s)
      | None \<Rightarrow> s)"

definition syncs_remove_client_from_events :: "nat \<Rightarrow> syncs_server \<Rightarrow> syncs_server" where
  "syncs_remove_client_from_events c s =
     fold (\<lambda>i s. if id_i0 (e_id (s_events s i)) \<noteq> -1 then syncs_remove_client_from_event c i s else s)
       [0..<SYNCS_EVENT_MAXIMUM] s"

definition syncs_remove_channels_of_client :: "nat \<Rightarrow> syncs_server \<Rightarrow> syncs_server" where
  "syncs_remove_channels_of_client c s =
     fold (\<lambda>i s. if id_i0 (ch_id (s_channels s i)) \<noteq> -1 \<and> ch_producer (s_channels s i) = Some c
                 then upd_channel i (\<lambda>ch. ch\<lparr>ch_id := (ch_id ch)\<lparr>id_i0 := -1\<rparr>\<rparr>) s else s)
       [0..<SYNCS_CHANNEL_MAXIMUM] s"

definition syncs_close_client_socket :: "nat \<Rightarrow> syncs_server \<Rightarrow> syncs_server" where
  "syncs_close_client_socket c s =
     (let socketfd = c_socketfd (s_clients s c);
          s = upd_os (\<lambda>w. w\<lparr>os_epoll := removeAll socketfd (os_epoll w)\<rparr>) s;
          s = syncs_remove_client_from_events c s;
          s = syncs_remove_channels_of_client c s;
          s = upd_client c (\<lambda>cl. cl\<lparr>c_socketfd := -1\<rparr>) s
      in upd_os (\<lambda>w. w\<lparr>os_closed := os_closed w @ [socketfd]\<rparr>) s)"


section \<open>Reading through assignments\<close>

lemma upd_client_simps [simp]:
  "s_clients (upd_client c f s) = (s_clients s)(c := f (s_clients s c))"
  "s_events (upd_client c f s) = s_events s" "s_channels (upd_client c f s) = s_channels s"
  "s_os (upd_client c f s) = s_os s" "s_event_count (upd_client c f s) = s_event_count s"
  "s_channel_count (upd_client c f s) = s_channel_count s" "s_client_count (upd_client c f s) = s_client_count s"
  "s_update_counter (upd_client c f s) = s_update_counter s" "s_usocketfd (upd_client c f s) = s_usocketfd s"
  "s_id (upd_client c f s) = s_id s" "s_sync_offset (upd_client c f s) = s_sync_offset s"
  "s_ubuffer (upd_client c f s) = s_ubuffer s" "s_uclient_count (upd_client c f s) = s_uclient_count s"
  by (simp_all add: upd_client_def)

lemma upd_event_simps [simp]:
  "s_events (upd_event i g s) = (s_events s)(i := g (s_events s i))"
  "s_clients (upd_event i g s) = s_clients s" "s_channels (upd_event i g s) = s_channels s"
  "s_os (upd_event i g s) = s_os s" "s_event_count (upd_event i g s) = s_event_count s"
  "s_channel_count (upd_event i g s) = s_channel_count s" "s_client_count (upd_event i g s) = s_client_count s"
  "s_update_counter (upd_event i g s) = s_update_counter s" "s_usocketfd (upd_event i g s) = s_usocketfd s"
  "s_id (upd_event i g s) = s_id s" "s_sync_offset (upd_event i g s) = s_sync_offset s"
  "s_ubuffer (upd_event i g s) = s_ubuffer s" "s_uclient_count (upd_event i g s) = s_uclient_count s"
  by (simp_all add: upd_event_def)

lemma upd_channel_simps [simp]:
  "s_channels (upd_channel i h s) = (s_channels s)(i := h (s_channels s i))"
  "s_clients (upd_channel i h s) = s_clients s" "s_events (upd_channel i h s) = s_events s"
  "s_os (upd_channel i h s) = s_os s" "s_event_count (upd_channel i h s) = s_event_count s"
  "s_channel_count (upd_channel i h s) = s_channel_count s" "s_client_count (upd_channel i h s) = s_client_count s"
  "s_update_counter (upd_channel i h s) = s_update_counter s" "s_usocketfd (upd_channel i h s) = s_usocketfd s"
  "s_id (upd_channel i h s) = s_id s" "s_sync_offset (upd_channel i h s) = s_sync_offset s"
  "s_ubuffer (upd_channel i h s) = s_ubuffer s" "s_uclient_count (upd_channel i h s) = s_uclient_count s"
  by (simp_all add: upd_channel_def)

lemma upd_os_simps [simp]:
  "s_os (upd_os w s) = w (s_os s)"
  "s_clients (upd_os w s) = s_clients s" "s_events (upd_os w s) = s_events s"
  "s_channels (upd_os w s) = s_channels s" "s_event_count (upd_os w s) = s_event_count s"
  "s_channel_count (upd_os w s) = s_channel_count s" "s_client_count (upd_os w s) = s_client_count s"
  "s_update_counter (upd_os w s) = s_update_counter s" "s_usocketfd (upd_os w s) = s_usocketfd s"
  "s_id (upd_os w s) = s_id s" "s_sync_offset (upd_os w s) = s_sync_offset s"
  "s_ubuffer (upd_os w s) = s_ubuffer s" "s_uclient_count (upd_os w s) = s_uclient_count s"
  by (simp_all add: upd_os_def)

section \<open>The tables are id tables\<close>

interpretation ev: id_table SYNCS_EVENT_MAXIMUM "\<lambda>s i. e_id (s_events s i)" syncs_find_event
  syncs_create_event syncs_free_event s_event_count
proof
  fix s x i
  show "syncs_find_event s x = first_slot 256 (\<lambda>i. syncs_idcmp (e_id (s_events s i)) x)"
    by (simp add: syncs_find_event_def)
  show "first_slot 256 (\<lambda>i. \<not> live_id (e_id (s_events s i))) = None \<Longrightarrow> syncs_create_event s x = (None, s)"
    by (simp add: syncs_create_event_def live_id_def)
  show "first_slot 256 (\<lambda>i. \<not> live_id (e_id (s_events s i))) = Some i \<Longrightarrow>
      fst (syncs_create_event s x) = Some i \<and>
      (\<lambda>j. e_id (s_events (snd (syncs_create_event s x)) j)) = (\<lambda>j. e_id (s_events s j))(i := x) \<and>
      s_event_count (snd (syncs_create_event s x)) = s_event_count s + 1"
    by (auto simp: syncs_create_event_def live_id_def syncs_event_init_def)
  show "syncs_find_event s x = None \<Longrightarrow> syncs_free_event s x = s"
    by (simp add: syncs_free_event_def)
  show "syncs_find_event s x = Some i \<Longrightarrow>
      (\<lambda>j. e_id (s_events (syncs_free_event s x) j))
        = (\<lambda>j. e_id (s_events s j))(i := (e_id (s_events s i))\<lparr>id_i0 := -1\<rparr>) \<and>
      s_event_count (syncs_free_event s x) = s_event_count s - 1"
    by (auto simp: syncs_free_event_def)
qed

interpretation ch: id_table SYNCS_CHANNEL_MAXIMUM "\<lambda>s i. ch_id (s_channels s i)" syncs_find_channel
  syncs_create_channel syncs_free_channel s_channel_count
proof
  fix s x i
  show "syncs_find_channel s x = first_slot 32 (\<lambda>i. syncs_idcmp (ch_id (s_channels s i)) x)"
    by (simp add: syncs_find_channel_def)
  show "first_slot 32 (\<lambda>i. \<not> live_id (ch_id (s_channels s i))) = None \<Longrightarrow> syncs_create_channel s x = (None, s)"
    by (simp add: syncs_create_channel_def live_id_def)
  show "first_slot 32 (\<lambda>i. \<not> live_id (ch_id (s_channels s i))) = Some i \<Longrightarrow>
      fst (syncs_create_channel s x) = Some i \<and>
      (\<lambda>j. ch_id (s_channels (snd (syncs_create_channel s x)) j)) = (\<lambda>j. ch_id (s_channels s j))(i := x) \<and>
      s_channel_count (snd (syncs_create_channel s x)) = s_channel_count s + 1"
    by (auto simp: syncs_create_channel_def live_id_def syncs_channel_init_def)
  show "syncs_find_channel s x = None \<Longrightarrow> syncs_free_channel s x = s"
    by (simp add: syncs_free_channel_def)
  show "syncs_find_channel s x = Some i \<Longrightarrow>
      (\<lambda>j. ch_id (s_channels (syncs_free_channel s x) j))
        = (\<lambda>j. ch_id (s_channels s j))(i := (ch_id (s_channels s i))\<lparr>id_i0 := -1\<rparr>) \<and>
      s_channel_count (syncs_free_channel s x) = s_channel_count s - 1"
    by (auto simp: syncs_free_channel_def)
qed

end
