(* ===== verification/Server_Inv.thy ===== *)
theory Server_Inv
  imports Server_State
begin

unbundle bit_operations_syntax

text \<open>
  The invariant of the server's tables and what the table operations keep of it.

  \<open>event_ok\<close>: the data fits its 511-byte array, no client stands twice among the consumers,
  \<open>consumers_count\<close> counts the entries in use, consumers and producer point into the client table.
  \<open>server_inv\<close>: this for all 256 entries, live ids unique in both tables, receive buffers never
  holding as much as a whole largest packet, and no undefined behaviour so far. It is stated for free
  entries too, since the code can reach a free entry through an id whose first word is -1.

  The collection \<open>inv_intros\<close> reduces the invariant after an assignment to the entry that was assigned.
\<close>

named_theorems inv_intros \<open>the invariant after one assignment\<close>

definition subscribers :: "syncs_event \<Rightarrow> nat set" where
  "subscribers e = {c. \<exists>k<SYNCS_CLIENT_MAXIMUM. e_consumers e k = Some c}"

definition event_ok :: "syncs_event \<Rightarrow> bool" where
  "event_ok e \<longleftrightarrow>
     unat (e_data_size e) \<le> SYNCS_VARIABLE_SIZE_MAXIMUM \<and>
     inj_on (e_consumers e) {k. k < SYNCS_CLIENT_MAXIMUM \<and> e_consumers e k \<noteq> None} \<and>
     e_consumers_count e = of_nat (count_slots SYNCS_CLIENT_MAXIMUM (\<lambda>k. e_consumers e k \<noteq> None)) \<and>
     subscribers e \<subseteq> {..<SYNCS_CLIENT_MAXIMUM} \<and>
     (\<forall>c. e_producer e = Some c \<longrightarrow> c < SYNCS_CLIENT_MAXIMUM)"

abbreviation (input) packet_maximum :: nat where "packet_maximum \<equiv> 571"

definition client_ok :: "syncs_client \<Rightarrow> bool" where
  "client_ok cl \<longleftrightarrow> -2 \<le> c_socketfd cl \<and> c_buffer_recv cl < packet_maximum"

definition server_inv :: "syncs_server \<Rightarrow> bool" where
  "server_inv s \<longleftrightarrow>
     (\<forall>i<SYNCS_EVENT_MAXIMUM. event_ok (s_events s i)) \<and>
     unique_ids SYNCS_EVENT_MAXIMUM (\<lambda>i. e_id (s_events s i)) \<and>
     unique_ids SYNCS_CHANNEL_MAXIMUM (\<lambda>i. ch_id (s_channels s i)) \<and>
     (\<forall>i<SYNCS_CHANNEL_MAXIMUM. \<forall>c. ch_producer (s_channels s i) = Some c \<longrightarrow> c < SYNCS_CLIENT_MAXIMUM) \<and>
     (\<forall>c<SYNCS_CLIENT_MAXIMUM. client_ok (s_clients s c)) \<and>
     \<not> os_fault (s_os s)"

lemma server_invD:
  assumes "server_inv s"
  shows inv_event: "i < SYNCS_EVENT_MAXIMUM \<Longrightarrow> event_ok (s_events s i)"
    and inv_event_ids: "unique_ids SYNCS_EVENT_MAXIMUM (\<lambda>i. e_id (s_events s i))"
    and inv_channel_ids: "unique_ids SYNCS_CHANNEL_MAXIMUM (\<lambda>i. ch_id (s_channels s i))"
    and inv_client: "c < SYNCS_CLIENT_MAXIMUM \<Longrightarrow> client_ok (s_clients s c)"
    and inv_fault: "\<not> os_fault (s_os s)"
  using assms by (simp_all add: server_inv_def)

lemma event_ok_size: "event_ok e \<Longrightarrow> unat (e_data_size e) \<le> SYNCS_VARIABLE_SIZE_MAXIMUM"
  by (simp add: event_ok_def)

section \<open>The invariant after one assignment\<close>

lemma server_inv_upd_event [inv_intros]:
  assumes "server_inv s" "event_ok (f (s_events s i))" "e_id (f (s_events s i)) = e_id (s_events s i)"
  shows "server_inv (upd_event i f s)"
proof -
  have "(\<lambda>j. e_id (s_events (upd_event i f s) j)) = (\<lambda>j. e_id (s_events s j))"
    using assms(3) by auto
  then show ?thesis using assms(1,2) by (auto simp: server_inv_def)
qed

lemma server_inv_upd_client [inv_intros]:
  "server_inv s \<Longrightarrow> client_ok (f (s_clients s c)) \<Longrightarrow> server_inv (upd_client c f s)"
  by (auto simp: server_inv_def)

lemma server_inv_upd_os [inv_intros]:
  "server_inv s \<Longrightarrow> \<not> os_fault (f (s_os s)) \<Longrightarrow> server_inv (upd_os f s)"
  by (auto simp: server_inv_def)

lemma server_inv_plain [simp]:
  "server_inv (s\<lparr>s_event_count := n\<rparr>) = server_inv s" "server_inv (s\<lparr>s_channel_count := n\<rparr>) = server_inv s"
  "server_inv (s\<lparr>s_client_count := n\<rparr>) = server_inv s" "server_inv (s\<lparr>s_uclient_count := n\<rparr>) = server_inv s"
  "server_inv (s\<lparr>s_update_counter := u\<rparr>) = server_inv s" "server_inv (s\<lparr>s_ubuffer := m\<rparr>) = server_inv s"
  "server_inv (s\<lparr>s_sync_offset := z\<rparr>) = server_inv s"
  by (simp_all add: server_inv_def)

text \<open>Counters of a client do not matter to the invariant.\<close>

lemma client_ok_counters [simp]:
  "client_ok (cl\<lparr>c_event_subscribe := n\<rparr>) = client_ok cl" "client_ok (cl\<lparr>c_event_write := n\<rparr>) = client_ok cl"
  "client_ok (cl\<lparr>c_rx_event_count := n\<rparr>) = client_ok cl" "client_ok (cl\<lparr>c_tx_event_count := n\<rparr>) = client_ok cl"
  "client_ok (cl\<lparr>c_tx_error := n\<rparr>) = client_ok cl" "client_ok (cl\<lparr>c_version := n\<rparr>) = client_ok cl"
  "client_ok (cl\<lparr>c_id := x\<rparr>) = client_ok cl" "client_ok (cl\<lparr>c_addr := a\<rparr>) = client_ok cl"
  "client_ok (cl\<lparr>c_addr_size := z\<rparr>) = client_ok cl" "client_ok (cl\<lparr>c_buffer := m\<rparr>) = client_ok cl"
  by (simp_all add: client_ok_def)

lemma event_ok_plain [simp]:
  "event_ok (e\<lparr>e_id := x\<rparr>) = event_ok e" "event_ok (e\<lparr>e_data := m\<rparr>) = event_ok e"
  "event_ok (e\<lparr>e_data_type := n\<rparr>) = event_ok e" "event_ok (e\<lparr>e_count := n\<rparr>) = event_ok e"
  "event_ok (e\<lparr>e_update_counter := u\<rparr>) = event_ok e" "event_ok (e\<lparr>e_producers_count := n\<rparr>) = event_ok e"
  "event_ok (e\<lparr>e_cb := p\<rparr>) = event_ok e" "event_ok (e\<lparr>e_args := q\<rparr>) = event_ok e"
  by (simp_all add: event_ok_def subscribers_def)

lemma event_ok_data_size:
  "event_ok e \<Longrightarrow> unat n \<le> SYNCS_VARIABLE_SIZE_MAXIMUM \<Longrightarrow> event_ok (e\<lparr>e_data_size := n\<rparr>)"
  unfolding event_ok_def subscribers_def by simp

lemma event_ok_producer:
  "event_ok e \<Longrightarrow> (\<And>c. p = Some c \<Longrightarrow> c < SYNCS_CLIENT_MAXIMUM) \<Longrightarrow> event_ok (e\<lparr>e_producer := p\<rparr>)"
  unfolding event_ok_def subscribers_def by simp

lemma event_ok_init: "event_ok (syncs_event_init x e)"
proof -
  have "count_slots SYNCS_CLIENT_MAXIMUM (\<lambda>k. e_consumers (syncs_event_init x e) k \<noteq> None) = 0"
    by (simp add: count_slots_0 syncs_event_init_def)
  then show ?thesis
    unfolding event_ok_def subscribers_def by (auto simp: syncs_event_init_def)
qed

section \<open>Creating and freeing entries\<close>

lemma create_event_inv:
  assumes "server_inv s" "syncs_find_event s x = None"
  shows "server_inv (snd (syncs_create_event s x))"
proof -
  have ids: "unique_ids SYNCS_EVENT_MAXIMUM (\<lambda>i. e_id (s_events (snd (syncs_create_event s x)) i))"
    using assms inv_event_ids by (intro ev.create_unique)
  show ?thesis
  proof (cases "first_slot SYNCS_EVENT_MAXIMUM (\<lambda>i. id_i0 (e_id (s_events s i)) = -1)")
    case None
    then show ?thesis using assms by (simp add: syncs_create_event_def)
  next
    case (Some i)
    then show ?thesis using assms(1) ids event_ok_init by (auto simp: syncs_create_event_def server_inv_def)
  qed
qed

lemma create_event_frame:
  "s_clients (snd (syncs_create_event s x)) = s_clients s"
  "s_channels (snd (syncs_create_event s x)) = s_channels s"
  "s_os (snd (syncs_create_event s x)) = s_os s"
  "s_update_counter (snd (syncs_create_event s x)) = s_update_counter s"
  "s_usocketfd (snd (syncs_create_event s x)) = s_usocketfd s"
  by (auto simp: syncs_create_event_def split: option.splits)

lemma create_event_new:
  "fst (syncs_create_event s x) = Some i \<Longrightarrow>
     s_events (snd (syncs_create_event s x)) = (s_events s)(i := syncs_event_init x (s_events s i))"
  by (auto simp: syncs_create_event_def split: option.splits)

lemma free_event_inv:
  assumes "server_inv s"
  shows "server_inv (syncs_free_event s x)"
proof -
  have "unique_ids SYNCS_EVENT_MAXIMUM (\<lambda>i. e_id (s_events (syncs_free_event s x) i))"
    using assms inv_event_ids by (intro ev.free_unique)
  then show ?thesis
    using assms by (cases "syncs_find_event s x") (auto simp: syncs_free_event_def server_inv_def)
qed

lemma create_channel_inv:
  assumes "server_inv s" "syncs_find_channel s x = None"
  shows "server_inv (snd (syncs_create_channel s x))"
proof -
  have ids: "unique_ids SYNCS_CHANNEL_MAXIMUM (\<lambda>i. ch_id (s_channels (snd (syncs_create_channel s x)) i))"
    using assms inv_channel_ids by (intro ch.create_unique)
  show ?thesis
  proof (cases "first_slot SYNCS_CHANNEL_MAXIMUM (\<lambda>i. id_i0 (ch_id (s_channels s i)) = -1)")
    case None
    then show ?thesis using assms by (simp add: syncs_create_channel_def)
  next
    case (Some i)
    then show ?thesis
      using assms(1) ids by (auto simp: syncs_create_channel_def server_inv_def syncs_channel_init_def)
  qed
qed

lemma create_channel_new:
  "fst (syncs_create_channel s x) = Some i \<Longrightarrow>
     s_channels (snd (syncs_create_channel s x)) = (s_channels s)(i := syncs_channel_init x (s_channels s i)) \<and>
     s_events (snd (syncs_create_channel s x)) = s_events s \<and>
     s_clients (snd (syncs_create_channel s x)) = s_clients s \<and> s_os (snd (syncs_create_channel s x)) = s_os s"
  by (auto simp: syncs_create_channel_def split: option.splits)

section \<open>A new server\<close>

lemma upd_event_loop:
  "fold (\<lambda>i. upd_event i f) [0..<n] s = s\<lparr>s_events := \<lambda>i. if i < n then f (s_events s i) else s_events s i\<rparr>"
  by (induction n) (auto simp: upd_event_def fun_eq_iff less_Suc_eq intro!: syncs_server.fold_congs)

lemma upd_channel_loop:
  "fold (\<lambda>i. upd_channel i f) [0..<n] s = s\<lparr>s_channels := \<lambda>i. if i < n then f (s_channels s i) else s_channels s i\<rparr>"
  by (induction n) (auto simp: upd_channel_def fun_eq_iff less_Suc_eq intro!: syncs_server.fold_congs)

lemma upd_client_loop:
  "fold (\<lambda>i. upd_client i f) [0..<n] s = s\<lparr>s_clients := \<lambda>i. if i < n then f (s_clients s i) else s_clients s i\<rparr>"
  by (induction n) (auto simp: upd_client_def fun_eq_iff less_Suc_eq intro!: syncs_server.fold_congs)

lemmas structure_init_eq =
  syncs_server_structure_init_def [unfolded upd_event_loop upd_channel_loop upd_client_loop Let_def]

lemma server_create_fields:
  assumes "syncs_server_create True addr port cid w = Some s"
  shows "i < SYNCS_EVENT_MAXIMUM \<Longrightarrow> s_events s i = zero_event\<lparr>e_id := zero_id\<lparr>id_i0 := -1\<rparr>\<rparr>"
    and "i < SYNCS_CHANNEL_MAXIMUM \<Longrightarrow> s_channels s i = zero_channel\<lparr>ch_id := zero_id\<lparr>id_i0 := -1\<rparr>\<rparr>"
    and "i < SYNCS_CLIENT_MAXIMUM \<Longrightarrow> s_clients s i = zero_client\<lparr>c_socketfd := -1\<rparr>"
    and "s_os s = w" and "s_update_counter s = 0"
  using assms
  by (auto simp: syncs_server_create_def structure_init_eq calloc_server_def Let_def zero_event_def
      zero_channel_def zero_client_def split: option.splits)

lemma event_ok_zero: "event_ok zero_event"
proof -
  have "count_slots SYNCS_CLIENT_MAXIMUM (\<lambda>k. e_consumers zero_event k \<noteq> None) = 0"
    by (simp add: count_slots_0 zero_event_def)
  then show ?thesis unfolding event_ok_def subscribers_def by (auto simp: zero_event_def)
qed

lemma server_create_inv:
  assumes "syncs_server_create True addr port cid w = Some s" "\<not> os_fault w"
  shows "server_inv s"
  using server_create_fields [OF assms(1)] assms(2) event_ok_zero
  by (auto simp: server_inv_def unique_ids_def live_id_def zero_channel_def client_ok_def zero_client_def)

end
