(* ===== verification/Server_Subs.thy ===== *)
theory Server_Subs
  imports Server_Inv
begin

text \<open>
  Subscriptions: \<open>syncs_add_client_to_event\<close>, \<open>syncs_remove_client_from_event\<close>,
  \<open>syncs_remove_client_from_events\<close>, \<open>syncs_remove_channels_of_client\<close> and \<open>syncs_close_client_socket\<close> seen
  as operations on the set of subscribers of an event, and that they keep the invariant.
\<close>

section \<open>One event\<close>

definition drop_consumer :: "nat \<Rightarrow> syncs_event \<Rightarrow> syncs_event" where
  "drop_consumer c e =
     (case first_slot SYNCS_CLIENT_MAXIMUM (\<lambda>k. e_consumers e k = Some c) of
        Some k \<Rightarrow> e\<lparr>e_consumers := (e_consumers e)(k := None), e_consumers_count := e_consumers_count e - 1\<rparr>
      | None \<Rightarrow> e)"

lemma subscribers_slot: "c \<notin> subscribers e \<longleftrightarrow> first_slot SYNCS_CLIENT_MAXIMUM (\<lambda>k. e_consumers e k = Some c) = None"
  by (auto simp: subscribers_def slot_simps)

lemma event_ok_inj: "event_ok e \<Longrightarrow> inj_on (e_consumers e) {k. k < SYNCS_CLIENT_MAXIMUM \<and> e_consumers e k \<noteq> None}"
  and event_ok_count: "event_ok e \<Longrightarrow>
    e_consumers_count e = of_nat (count_slots SYNCS_CLIENT_MAXIMUM (\<lambda>k. e_consumers e k \<noteq> None))"
  and event_ok_subscribers: "event_ok e \<Longrightarrow> subscribers e \<subseteq> {..<SYNCS_CLIENT_MAXIMUM}"
  and event_ok_prod: "event_ok e \<Longrightarrow> e_producer e = Some c \<Longrightarrow> c < SYNCS_CLIENT_MAXIMUM"
  by (simp_all add: event_ok_def)

lemma event_ok_same_client:
  "event_ok e \<Longrightarrow> j < SYNCS_CLIENT_MAXIMUM \<Longrightarrow> k < SYNCS_CLIENT_MAXIMUM \<Longrightarrow> e_consumers e j = Some c \<Longrightarrow>
     e_consumers e k = Some c \<Longrightarrow> j = k"
  using event_ok_inj [of e] by (auto simp: inj_on_def)

lemma card_subscribers:
  assumes "event_ok e"
  shows "card (subscribers e) = count_slots SYNCS_CLIENT_MAXIMUM (\<lambda>k. e_consumers e k \<noteq> None)"
proof -
  let ?used = "{k. k < SYNCS_CLIENT_MAXIMUM \<and> e_consumers e k \<noteq> None}"
  have "Some ` subscribers e = e_consumers e ` ?used"
    by (force simp: subscribers_def image_iff)
  then have "card (Some ` subscribers e) = card ?used"
    using card_image [OF event_ok_inj [OF assms]] by simp
  then show ?thesis by (simp add: card_image count_slots_card)
qed

text \<open>A client of the table that is not yet among the consumers always finds a free place: 64 places, 64 clients.\<close>

lemma free_consumer_slot:
  assumes "event_ok e" "c < SYNCS_CLIENT_MAXIMUM" "c \<notin> subscribers e"
  shows "\<exists>k<SYNCS_CLIENT_MAXIMUM. e_consumers e k = None"
proof (rule ccontr)
  assume full: "\<not> ?thesis"
  have "subscribers e \<subseteq> {..<SYNCS_CLIENT_MAXIMUM} - {c}"
    using event_ok_subscribers [OF assms(1)] assms(3) by auto
  then have "card (subscribers e) \<le> card ({..<SYNCS_CLIENT_MAXIMUM} - {c})"
    by (intro card_mono) auto
  also have "\<dots> < SYNCS_CLIENT_MAXIMUM" using assms(2) by simp
  also have "SYNCS_CLIENT_MAXIMUM = card (subscribers e)"
    using full by (simp add: card_subscribers [OF assms(1)] count_slots_all)
  finally show False by simp
qed

lemma event_ok_add_consumer:
  assumes ok: "event_ok e" and k: "k < SYNCS_CLIENT_MAXIMUM" "e_consumers e k = None"
    and c: "c < SYNCS_CLIENT_MAXIMUM" "c \<notin> subscribers e"
  defines "e' \<equiv> e\<lparr>e_consumers := (e_consumers e)(k := Some c), e_consumers_count := e_consumers_count e + 1\<rparr>"
  shows "event_ok e'" and "subscribers e' = insert c (subscribers e)"
proof -
  show sub: "subscribers e' = insert c (subscribers e)"
  proof (intro set_eqI)
    fix x
    have "x \<in> subscribers e' \<longleftrightarrow> x = c \<or> (\<exists>j<SYNCS_CLIENT_MAXIMUM. j \<noteq> k \<and> e_consumers e j = Some x)"
      using k(1) by (auto simp: subscribers_def e'_def)
    also have "(\<exists>j<SYNCS_CLIENT_MAXIMUM. j \<noteq> k \<and> e_consumers e j = Some x) \<longleftrightarrow> x \<in> subscribers e"
      using k(2) by (auto simp: subscribers_def)
    finally show "x \<in> subscribers e' \<longleftrightarrow> x \<in> insert c (subscribers e)" by simp
  qed
  have "inj_on (e_consumers e') {j. j < SYNCS_CLIENT_MAXIMUM \<and> e_consumers e' j \<noteq> None}"
    using event_ok_inj [OF ok] c(2) by (force simp: inj_on_def e'_def subscribers_def)
  moreover have "count_slots SYNCS_CLIENT_MAXIMUM (\<lambda>j. e_consumers e' j \<noteq> None)
      = Suc (count_slots SYNCS_CLIENT_MAXIMUM (\<lambda>j. e_consumers e j \<noteq> None))"
    using k by (intro count_slots_set [of k]) (auto simp: e'_def)
  then have "e_consumers_count e' = of_nat (count_slots SYNCS_CLIENT_MAXIMUM (\<lambda>j. e_consumers e' j \<noteq> None))"
    by (simp add: event_ok_count [OF ok] e'_def)
  ultimately show "event_ok e'"
    using event_ok_size [OF ok] event_ok_subscribers [OF ok] event_ok_prod [OF ok] c(1) sub
    unfolding event_ok_def by (simp add: e'_def)
qed

lemma drop_consumer_simps [simp]:
  "e_id (drop_consumer c e) = e_id e" "e_data (drop_consumer c e) = e_data e"
  "e_data_type (drop_consumer c e) = e_data_type e" "e_data_size (drop_consumer c e) = e_data_size e"
  "e_update_counter (drop_consumer c e) = e_update_counter e" "e_producer (drop_consumer c e) = e_producer e"
  "e_cb (drop_consumer c e) = e_cb e" "e_args (drop_consumer c e) = e_args e"
  by (auto simp: drop_consumer_def split: option.splits)

lemma drop_consumer_ok:
  assumes ok: "event_ok e"
  shows "event_ok (drop_consumer c e)" and "subscribers (drop_consumer c e) = subscribers e - {c}"
proof -
  have "event_ok (drop_consumer c e) \<and> subscribers (drop_consumer c e) = subscribers e - {c}"
  proof (cases "first_slot SYNCS_CLIENT_MAXIMUM (\<lambda>k. e_consumers e k = Some c)")
    case None
    then show ?thesis using ok subscribers_slot [of c e] by (simp add: drop_consumer_def)
  next
    case (Some k)
    let ?e = "drop_consumer c e"
    have k: "k < SYNCS_CLIENT_MAXIMUM" "e_consumers e k = Some c"
      using first_slot_SomeD [OF Some] by auto
    have e: "?e = e\<lparr>e_consumers := (e_consumers e)(k := None), e_consumers_count := e_consumers_count e - 1\<rparr>"
      by (simp add: drop_consumer_def Some)
    have uniq: "j = k" if "j < SYNCS_CLIENT_MAXIMUM" "e_consumers e j = Some c" for j
      using event_ok_same_client [OF ok that(1) k(1) that(2) k(2)] .
    have sub: "subscribers ?e = subscribers e - {c}"
    proof (intro set_eqI)
      fix x
      have "x \<in> subscribers ?e \<longleftrightarrow> (\<exists>j<SYNCS_CLIENT_MAXIMUM. j \<noteq> k \<and> e_consumers e j = Some x)"
        unfolding e by (auto simp: subscribers_def)
      also have "\<dots> \<longleftrightarrow> x \<in> subscribers e - {c}"
        using k by (cases "x = c") (auto simp: subscribers_def dest: uniq)
      finally show "x \<in> subscribers ?e \<longleftrightarrow> x \<in> subscribers e - {c}" .
    qed
    have "inj_on (e_consumers ?e) {j. j < SYNCS_CLIENT_MAXIMUM \<and> e_consumers ?e j \<noteq> None}"
      using event_ok_inj [OF ok] unfolding e by (auto simp: inj_on_def)
    moreover have cnt: "Suc (count_slots SYNCS_CLIENT_MAXIMUM (\<lambda>j. e_consumers ?e j \<noteq> None))
        = count_slots SYNCS_CLIENT_MAXIMUM (\<lambda>j. e_consumers e j \<noteq> None)"
      using k unfolding e by (intro count_slots_clear [of k]) auto
    then have "e_consumers_count ?e = of_nat (count_slots SYNCS_CLIENT_MAXIMUM (\<lambda>j. e_consumers ?e j \<noteq> None))"
      using of_nat_pred [OF cnt] event_ok_count [OF ok] by (simp add: e)
    ultimately show ?thesis
      using event_ok_size [OF ok] event_ok_subscribers [OF ok] event_ok_prod [OF ok] sub
      unfolding event_ok_def by auto
  qed
  then show "event_ok (drop_consumer c e)" "subscribers (drop_consumer c e) = subscribers e - {c}"
    by auto
qed

section \<open>Subscribing and unsubscribing one client\<close>

lemma add_client_to_event_ok:
  assumes inv: "server_inv s" and c: "c < SYNCS_CLIENT_MAXIMUM" and i: "i < SYNCS_EVENT_MAXIMUM"
  defines "s' \<equiv> snd (syncs_add_client_to_event c i s)"
  shows "fst (syncs_add_client_to_event c i s) = 0 \<and> server_inv s' \<and>
    subscribers (s_events s' i) = insert c (subscribers (s_events s i))"
proof -
  let ?e = "s_events s i"
  have ok: "event_ok ?e" using inv_event [OF inv i] .
  show ?thesis
  proof (cases "c \<in> subscribers ?e")
    case True
    then have "syncs_add_client_to_event c i s = (0, s)"
      using subscribers_slot [of c ?e] by (auto simp: syncs_add_client_to_event_def Let_def)
    then show ?thesis using True inv by (simp add: s'_def insert_absorb)
  next
    case False
    then have none: "first_slot SYNCS_CLIENT_MAXIMUM (\<lambda>k. e_consumers ?e k = Some c) = None"
      by (simp add: subscribers_slot)
    have "first_slot SYNCS_CLIENT_MAXIMUM (\<lambda>k. e_consumers ?e k = None) \<noteq> None"
      using free_consumer_slot [OF ok c False] unfolding first_slot_None by blast
    then obtain k where some: "first_slot SYNCS_CLIENT_MAXIMUM (\<lambda>k. e_consumers ?e k = None) = Some k"
      by blast
    then have k: "k < SYNCS_CLIENT_MAXIMUM" "e_consumers ?e k = None"
      by (auto dest: first_slot_SomeD)
    note add = event_ok_add_consumer [OF ok k c False]
    have "syncs_add_client_to_event c i s =
        (0, upd_client c (\<lambda>cl. cl\<lparr>c_event_subscribe := c_event_subscribe cl + 1\<rparr>)
              (upd_event i (\<lambda>e. e\<lparr>e_consumers := (e_consumers e)(k := Some c),
                                   e_consumers_count := e_consumers_count e + 1\<rparr>) s))"
      by (simp add: syncs_add_client_to_event_def none some)
    then show ?thesis
      unfolding s'_def using add inv inv_client [OF inv c]
      by (auto intro!: server_inv_upd_client server_inv_upd_event)
  qed
qed

lemma add_client_to_event_frame:
  "j \<noteq> i \<Longrightarrow> s_events (snd (syncs_add_client_to_event c i s)) j = s_events s j"
  "s_os (snd (syncs_add_client_to_event c i s)) = s_os s"
  "s_channels (snd (syncs_add_client_to_event c i s)) = s_channels s"
  "s_update_counter (snd (syncs_add_client_to_event c i s)) = s_update_counter s"
  "e_data (s_events (snd (syncs_add_client_to_event c i s)) i) = e_data (s_events s i)"
  "e_data_type (s_events (snd (syncs_add_client_to_event c i s)) i) = e_data_type (s_events s i)"
  "e_data_size (s_events (snd (syncs_add_client_to_event c i s)) i) = e_data_size (s_events s i)"
  "e_update_counter (s_events (snd (syncs_add_client_to_event c i s)) i) = e_update_counter (s_events s i)"
  "e_id (s_events (snd (syncs_add_client_to_event c i s)) i) = e_id (s_events s i)"
  "c_socketfd (s_clients (snd (syncs_add_client_to_event c i s)) d) = c_socketfd (s_clients s d)"
  "c_addr (s_clients (snd (syncs_add_client_to_event c i s)) d) = c_addr (s_clients s d)"
  "s_usocketfd (snd (syncs_add_client_to_event c i s)) = s_usocketfd s"
  by (auto simp: syncs_add_client_to_event_def Let_def split: option.splits)

lemma remove_client_from_event_eq:
  "s_events (syncs_remove_client_from_event c i s) = (s_events s)(i := drop_consumer c (s_events s i))"
  "s_channels (syncs_remove_client_from_event c i s) = s_channels s"
  "s_os (syncs_remove_client_from_event c i s) = s_os s"
  "d \<noteq> c \<Longrightarrow> s_clients (syncs_remove_client_from_event c i s) d = s_clients s d"
  "\<exists>n. s_clients (syncs_remove_client_from_event c i s) c = (s_clients s c)\<lparr>c_event_subscribe := n\<rparr>"
  by (auto simp: syncs_remove_client_from_event_def drop_consumer_def fun_eq_iff split: option.splits
      intro: exI [of _ "c_event_subscribe (s_clients s c)"])

lemma remove_client_from_event_inv:
  assumes "server_inv s" "i < SYNCS_EVENT_MAXIMUM"
  shows "server_inv (syncs_remove_client_from_event c i s)"
proof -
  let ?s = "syncs_remove_client_from_event c i s"
  have ids: "(\<lambda>j. e_id (s_events ?s j)) = (\<lambda>j. e_id (s_events s j))"
    by (auto simp: remove_client_from_event_eq)
  have "client_ok (s_clients ?s d) = client_ok (s_clients s d)" for d
    using remove_client_from_event_eq(4) [of _ c i s] remove_client_from_event_eq(5) [of c i s] by (cases "d = c") auto
  then show ?thesis
    using assms inv_event [OF assms(1)] ids drop_consumer_ok(1) [OF inv_event [OF assms]]
    by (auto simp: server_inv_def remove_client_from_event_eq(1-3))
qed

section \<open>Closing a client\<close>

text \<open>What the loop over the events does to the first \<open>n\<close> entries.\<close>

lemma remove_client_loop:
  fixes c :: nat
  assumes "server_inv s" "n \<le> SYNCS_EVENT_MAXIMUM"
  defines "t \<equiv> fold (\<lambda>i s. if id_i0 (e_id (s_events s i)) \<noteq> -1 then syncs_remove_client_from_event c i s else s) [0..<n] s"
  shows "server_inv t \<and> s_channels t = s_channels s \<and> s_os t = s_os s \<and> (\<forall>d. d \<noteq> c \<longrightarrow> s_clients t d = s_clients s d) \<and>
    (\<exists>m. s_clients t c = (s_clients s c)\<lparr>c_event_subscribe := m\<rparr>) \<and>
    s_events t = (\<lambda>i. if i < n \<and> live_id (e_id (s_events s i)) then drop_consumer c (s_events s i) else s_events s i)"
  using assms(2) unfolding t_def
proof (induction n)
  case 0
  then show ?case using assms(1) by (auto intro: exI [of _ "c_event_subscribe (s_clients s c)"])
next
  case (Suc n)
  let ?f = "\<lambda>i s. if id_i0 (e_id (s_events s i)) \<noteq> -1 then syncs_remove_client_from_event c i s else s"
  define u where "u = fold ?f [0..<n] s"
  have IH: "server_inv u" "s_channels u = s_channels s" "s_os u = s_os s" "\<forall>d. d \<noteq> c \<longrightarrow> s_clients u d = s_clients s d"
    "\<exists>m. s_clients u c = (s_clients s c)\<lparr>c_event_subscribe := m\<rparr>"
    "s_events u = (\<lambda>i. if i < n \<and> live_id (e_id (s_events s i)) then drop_consumer c (s_events s i) else s_events s i)"
    using Suc by (auto simp: u_def)
  have t: "fold ?f [0..<Suc n] s = (if live_id (e_id (s_events s n)) then syncs_remove_client_from_event c n u else u)"
    by (simp add: u_def [symmetric] IH(6) live_id_def)
  have "n < SYNCS_EVENT_MAXIMUM" using Suc.prems by simp
  then show ?case
    unfolding t using IH remove_client_from_event_eq(1-3,5) [of c n u]
      remove_client_from_event_eq(4) [of _ c n u] remove_client_from_event_inv [OF IH(1)]
    by (auto simp: fun_eq_iff less_Suc_eq)
qed

lemma remove_client_from_events_eq:
  fixes c :: nat
  assumes "server_inv s"
  defines "t \<equiv> syncs_remove_client_from_events c s"
  shows "server_inv t" "s_channels t = s_channels s" "s_os t = s_os s" "d \<noteq> c \<Longrightarrow> s_clients t d = s_clients s d"
    "\<exists>m. s_clients t c = (s_clients s c)\<lparr>c_event_subscribe := m\<rparr>"
    "i < SYNCS_EVENT_MAXIMUM \<Longrightarrow> s_events t i =
       (if live_id (e_id (s_events s i)) then drop_consumer c (s_events s i) else s_events s i)"
  using remove_client_loop [OF assms(1) order_refl, of c]
  by (simp_all add: t_def syncs_remove_client_from_events_def)

lemma remove_channels_loop:
  "fold (\<lambda>i s. if id_i0 (ch_id (s_channels s i)) \<noteq> -1 \<and> ch_producer (s_channels s i) = Some c
      then upd_channel i (\<lambda>ch. ch\<lparr>ch_id := (ch_id ch)\<lparr>id_i0 := -1\<rparr>\<rparr>) s else s) [0..<n] s
   = s\<lparr>s_channels := \<lambda>i. if i < n \<and> live_id (ch_id (s_channels s i)) \<and> ch_producer (s_channels s i) = Some c
       then (s_channels s i)\<lparr>ch_id := (ch_id (s_channels s i))\<lparr>id_i0 := -1\<rparr>\<rparr> else s_channels s i\<rparr>"
proof (induction n)
  case (Suc n)
  then show ?case
    by (auto simp: live_id_def upd_channel_def fun_eq_iff less_Suc_eq intro!: syncs_server.fold_congs)
qed simp

lemma remove_channels_of_client_eq:
  defines "t c s \<equiv> syncs_remove_channels_of_client c s"
  shows "s_events (t c s) = s_events s" "s_clients (t c s) = s_clients s" "s_os (t c s) = s_os s"
    "i < SYNCS_CHANNEL_MAXIMUM \<Longrightarrow> s_channels (t c s) i =
       (if live_id (ch_id (s_channels s i)) \<and> ch_producer (s_channels s i) = Some c
        then (s_channels s i)\<lparr>ch_id := (ch_id (s_channels s i))\<lparr>id_i0 := -1\<rparr>\<rparr> else s_channels s i)"
  by (simp_all add: t_def syncs_remove_channels_of_client_def remove_channels_loop)

lemma close_client_eq:
  fixes c :: nat
  assumes inv: "server_inv s" and c: "c < SYNCS_CLIENT_MAXIMUM"
  defines "t \<equiv> syncs_close_client_socket c s"
  shows "c_socketfd (s_clients t c) = -1"
    and "d \<noteq> c \<Longrightarrow> s_clients t d = s_clients s d"
    and "i < SYNCS_EVENT_MAXIMUM \<Longrightarrow> s_events t i =
       (if live_id (e_id (s_events s i)) then drop_consumer c (s_events s i) else s_events s i)"
    and "i < SYNCS_CHANNEL_MAXIMUM \<Longrightarrow> s_channels t i =
       (if live_id (ch_id (s_channels s i)) \<and> ch_producer (s_channels s i) = Some c
        then (s_channels s i)\<lparr>ch_id := (ch_id (s_channels s i))\<lparr>id_i0 := -1\<rparr>\<rparr> else s_channels s i)"
    and "s_os t = (s_os s)\<lparr>os_epoll := removeAll (c_socketfd (s_clients s c)) (os_epoll (s_os s)),
       os_closed := os_closed (s_os s) @ [c_socketfd (s_clients s c)]\<rparr>"
    and "\<exists>m. s_clients t c = (s_clients s c)\<lparr>c_event_subscribe := m, c_socketfd := -1\<rparr>"
proof -
  define u where "u = upd_os (\<lambda>w. w\<lparr>os_epoll := removeAll (c_socketfd (s_clients s c)) (os_epoll w)\<rparr>) s"
  have u: "server_inv u" "s_events u = s_events s" "s_clients u = s_clients s" "s_channels u = s_channels s"
    using inv by (auto simp: u_def server_inv_def)
  note ev = remove_client_from_events_eq [OF u(1), where c = c]
  show "c_socketfd (s_clients t c) = -1"
    by (simp add: t_def syncs_close_client_socket_def Let_def)
  show "d \<noteq> c \<Longrightarrow> s_clients t d = s_clients s d"
    using ev(4) by (simp add: t_def syncs_close_client_socket_def Let_def remove_channels_of_client_eq u_def)
  show "i < SYNCS_EVENT_MAXIMUM \<Longrightarrow> s_events t i =
       (if live_id (e_id (s_events s i)) then drop_consumer c (s_events s i) else s_events s i)"
    using ev(6) by (simp add: t_def syncs_close_client_socket_def Let_def remove_channels_of_client_eq u_def)
  show "i < SYNCS_CHANNEL_MAXIMUM \<Longrightarrow> s_channels t i =
       (if live_id (ch_id (s_channels s i)) \<and> ch_producer (s_channels s i) = Some c
        then (s_channels s i)\<lparr>ch_id := (ch_id (s_channels s i))\<lparr>id_i0 := -1\<rparr>\<rparr> else s_channels s i)"
    using ev(2) by (simp add: t_def syncs_close_client_socket_def Let_def remove_channels_of_client_eq u_def)
  show "s_os t = (s_os s)\<lparr>os_epoll := removeAll (c_socketfd (s_clients s c)) (os_epoll (s_os s)),
       os_closed := os_closed (s_os s) @ [c_socketfd (s_clients s c)]\<rparr>"
    using ev(3) by (simp add: t_def syncs_close_client_socket_def Let_def remove_channels_of_client_eq u_def)
  show "\<exists>m. s_clients t c = (s_clients s c)\<lparr>c_event_subscribe := m, c_socketfd := -1\<rparr>"
    using ev(5) by (auto simp: t_def syncs_close_client_socket_def Let_def remove_channels_of_client_eq u_def)
qed

lemma close_client_ids:
  assumes "server_inv s" "c < SYNCS_CLIENT_MAXIMUM" "i < SYNCS_EVENT_MAXIMUM"
  shows "e_id (s_events (syncs_close_client_socket c s) i) = e_id (s_events s i)"
  using close_client_eq(3) [OF assms] by simp

lemma close_client_inv [inv_intros]:
  assumes inv: "server_inv s" and c: "c < SYNCS_CLIENT_MAXIMUM"
  shows "server_inv (syncs_close_client_socket c s)"
proof -
  let ?t = "syncs_close_client_socket c s"
  note eq = close_client_eq [OF inv c]
  have "unique_ids SYNCS_EVENT_MAXIMUM (\<lambda>i. e_id (s_events ?t i))"
    using inv_event_ids [OF inv] by (simp add: unique_ids_def close_client_ids [OF inv c])
  moreover have "unique_ids SYNCS_CHANNEL_MAXIMUM (\<lambda>i. ch_id (s_channels ?t i))"
    using inv_channel_ids [OF inv] unfolding unique_ids_def by (auto simp: eq(4) live_id_def)
  moreover have "client_ok (s_clients ?t d)" if "d < SYNCS_CLIENT_MAXIMUM" for d
    using inv_client [OF inv that] inv_client [OF inv c] eq(2) [of d] eq(6)
    by (cases "d = c") (auto simp: client_ok_def)
  moreover have "event_ok (s_events ?t i)" if "i < SYNCS_EVENT_MAXIMUM" for i
    using inv_event [OF inv that] drop_consumer_ok(1) by (simp add: eq(3) that)
  moreover have "ch_producer (s_channels ?t i) = ch_producer (s_channels s i)" if "i < SYNCS_CHANNEL_MAXIMUM" for i
    by (simp add: eq(4) that)
  ultimately show ?thesis using inv eq(5) by (simp add: server_inv_def)
qed

end
