(* ===== verification/Server_Events.thy ===== *)
theory Server_Events
  imports Server_Subs
begin

unbundle bit_operations_syntax

text \<open>
  The operations of \<^verbatim>\<open>src/libsyncs/syncs-server.c\<close> on variables and events: the server's own API
  (subscribe, define, write, read), what a client's packet makes the server do
  (subscribe, unsubscribe, define, write, read), and the packets it sends for them.

  A callback is called with its argument, the id and the data of the event, and may change the server
  through the API, so it is a parameter \<open>call\<close> that maps the function pointer, the argument pointer, the
  id and the data to a change of the server. Functions that always return 0 and whose result no caller
  uses return the new state alone.
\<close>

type_synonym callback = "nat \<Rightarrow> nat \<Rightarrow> syncsid \<Rightarrow> byte list \<Rightarrow> syncs_server \<Rightarrow> syncs_server"

section \<open>Finding the event of a request\<close>

text \<open>
  The opening lines of \<open>syncs_server_subscribe_event\<close>, \<open>syncs_server_write\<close>, \<open>syncs_client_subscribe\<close> and
  \<open>syncs_client_write\<close>: find the event; when there is none, give up with -1 unless the flag FORCE
  is set, else create it, giving up with -2 when the table is full; \<open>new\<close> is what the function assigns to an
  event it has just created.
\<close>

definition open_event ::
    "u32 \<Rightarrow> syncsid \<Rightarrow> (syncs_event \<Rightarrow> syncs_event) \<Rightarrow> syncs_server \<Rightarrow> (int + nat) \<times> syncs_server" where
  "open_event flags x new s =
     (case syncs_find_event s x of
        Some i \<Rightarrow> (Inr i, s)
      | None \<Rightarrow>
          if flags AND SYNCS_TYPE_FORCE = 0 then (Inl (-1), s)
          else (case syncs_create_event s x of
                  (None, s) \<Rightarrow> (Inl (-2), s)
                | (Some i, s) \<Rightarrow> (Inr i, upd_event i new s)))"

section \<open>The server's own subscription\<close>

definition syncs_server_subscribe_event ::
    "u32 \<Rightarrow> byte list \<Rightarrow> nat option \<Rightarrow> nat \<Rightarrow> syncs_server \<Rightarrow> int \<times> syncs_server" where
  "syncs_server_subscribe_event flags cid cb args s =
     (case open_event flags (syncs_idstr cid) (\<lambda>e. e) s of
        (Inl err, s) \<Rightarrow> (err, s)
      | (Inr i, s) \<Rightarrow> (0, upd_event i (\<lambda>e. e\<lparr>e_args := args, e_cb := cb\<rparr>) s))"

definition syncs_server_unsubscribe_event :: "byte list \<Rightarrow> syncs_server \<Rightarrow> syncs_server" where
  "syncs_server_unsubscribe_event cid s =
     (case syncs_find_event s (syncs_idstr cid) of
        None \<Rightarrow> s
      | Some i \<Rightarrow> upd_event i (\<lambda>e. e\<lparr>e_cb := None, e_args := 0\<rparr>) s)"

section \<open>Packets to clients\<close>

definition syncs_sync_calculate :: "int \<Rightarrow> int \<Rightarrow> os \<Rightarrow> syncdata" where
  "syncs_sync_calculate offset_s offset_ms w =
     (let tv_sec = fst (os_now w) + offset_s;
          tv_nsec = snd (os_now w) + offset_ms * 1000000;
          (tv_sec, tv_nsec) = (if tv_nsec > 1000000000 then (tv_sec + 1, tv_nsec - 1000000000) else (tv_sec, tv_nsec))
      in \<lparr>data0 = of_int tv_sec, data1 = of_int tv_nsec\<rparr>)"

text \<open>
  The packet that carries the data of an event, in the local variable of the calling function.
\<close>

definition event_packet :: "u32 \<Rightarrow> syncs_event \<Rightarrow> syncs_packet \<Rightarrow> syncs_packet" where
  "event_packet type event packet =
     packet\<lparr>p_header := (syncs_fill_header (e_id event) type (p_header packet))\<lparr>h_data_size := ucast (e_data_size event)\<rparr>,
            p_buffer := mem_copy 0 (e_data event) (unat (e_data_size event)) (p_buffer packet)\<rparr>"

definition count_tx :: "nat \<Rightarrow> syncs_server \<Rightarrow> syncs_server" where
  "count_tx c = upd_client c (\<lambda>cl. cl\<lparr>c_tx_event_count := c_tx_event_count cl + 1\<rparr>)"

text \<open>The loop of \<open>syncs_send_event\<close>: one turn, with the body it runs for a consumer that is not left out.\<close>

definition send_event_to :: "syncs_packet \<Rightarrow> nat \<Rightarrow> syncs_server \<Rightarrow> syncs_server" where
  "send_event_to packet c s =
     (let s = count_tx c s;
          (ret, s) = syncs_client_send c packet s
      in if ret \<noteq> 0 then upd_client c (\<lambda>cl. cl\<lparr>c_tx_error := c_tx_error cl + 1\<rparr>) s else s)"

definition send_event_turn :: "nat \<Rightarrow> u32 \<Rightarrow> syncs_packet \<Rightarrow> nat \<Rightarrow> syncs_server \<Rightarrow> syncs_server" where
  "send_event_turn i flags packet k s =
     (case e_consumers (s_events s i) k of
        None \<Rightarrow> s
      | Some c \<Rightarrow>
          if e_producer (s_events s i) = Some c \<and> flags AND SYNCS_TYPE_ECHO = 0 then s
          else send_event_to packet c s)"

definition syncs_send_event :: "nat \<Rightarrow> u32 \<Rightarrow> syncs_server \<Rightarrow> syncs_server" where
  "syncs_send_event i flags s =
     (let event = s_events s i;
          packet = event_packet (SYNCS_TYPE_EVENT OR e_data_type event) event (os_stack (s_os s));
          s = upd_os (fault_if (unat (e_data_size event) > SYNCS_VARIABLE_SIZE_MAXIMUM)) s;
          packet = (if flags AND SYNCS_TYPE_SYNC \<noteq> 0
                    then packet\<lparr>p_header := (p_header packet)\<lparr>h_type := h_type (p_header packet) OR SYNCS_TYPE_SYNC,
                           h_sync := syncs_sync_calculate 0 (s_sync_offset s) (s_os s)\<rparr>\<rparr>
                    else packet)
      in fold (send_event_turn i flags packet) [0..<SYNCS_CLIENT_MAXIMUM] s)"

definition syncs_resend_event :: "nat \<Rightarrow> nat \<Rightarrow> syncs_server \<Rightarrow> syncs_server" where
  "syncs_resend_event c i s =
     (let event = s_events s i;
          packet = event_packet (SYNCS_TYPE_EVENT OR SYNCS_STATUS_LOST) event (os_stack (s_os s));
          s = upd_os (fault_if (unat (e_data_size event) > SYNCS_VARIABLE_SIZE_MAXIMUM)) s
      in count_tx c (snd (syncs_client_send c packet s)))"

text \<open>The header \<open>syncs_send_server_status\<close> and \<open>syncs_send_udp_server_status\<close> fill in.\<close>

definition status_packet :: "u64 \<Rightarrow> syncs_server \<Rightarrow> syncs_packet" where
  "status_packet code s =
     (let packet = os_stack (s_os s)
      in packet\<lparr>p_header :=
           (syncs_fill_header_request_str (id_bytes (s_id s)) SYNCS_TYPE_SERVER_STATUS (p_header packet))
             \<lparr>h_update_counter := code\<rparr>\<rparr>)"

definition syncs_send_server_status :: "nat \<Rightarrow> u64 \<Rightarrow> syncs_server \<Rightarrow> syncs_server" where
  "syncs_send_server_status c code s = count_tx c (snd (syncs_client_send c (status_packet code s) s))"

definition syncs_send_udp_server_status :: "sockaddr_in \<Rightarrow> u64 \<Rightarrow> syncs_server \<Rightarrow> syncs_server" where
  "syncs_send_udp_server_status addr code s =
     upd_os (\<lambda>w. w\<lparr>os_dgram := os_dgram w @
         [(s_usocketfd s, addr, packet_bytes (status_packet code s) sizeof_syncs_header)]\<rparr>) s"

section \<open>The server's own writes and reads\<close>

text \<open>
  \<open>data\<close> is the memory the argument points to. The copy is not bounded by the code: a size above the
  511 bytes of \<open>event->data\<close> runs over it.
\<close>

definition syncs_server_write :: "u32 \<Rightarrow> byte list \<Rightarrow> mem \<Rightarrow> u32 \<Rightarrow> syncs_server \<Rightarrow> int \<times> syncs_server" where
  "syncs_server_write flags cid data data_size s =
     (case open_event flags (syncs_idstr cid) (\<lambda>e. e) s of
        (Inl err, s) \<Rightarrow> (err, s)
      | (Inr i, s) \<Rightarrow>
          (let data_size = (if data_size = 0 then syncs_get_size_by_type flags else data_size);
               s = upd_os (fault_if (unat data_size > SYNCS_VARIABLE_SIZE_MAXIMUM)) s;
               s = upd_event i (\<lambda>e. e\<lparr>e_data := mem_copy 0 data (unat data_size) (e_data e), e_data_size := data_size\<rparr>) s;
               s = (if e_producer (s_events s i) \<noteq> None
                    then upd_event i (\<lambda>e. e\<lparr>e_producer := None, e_producers_count := e_producers_count e + 1\<rparr>) s
                    else s)
           in (0, syncs_send_event i flags s)))"

text \<open>The bit patterns of \<open>float\<close> and \<open>double\<close> arguments are words.\<close>

definition syncs_server_write_int32 :: "u32 \<Rightarrow> byte list \<Rightarrow> u32 \<Rightarrow> syncs_server \<Rightarrow> int \<times> syncs_server" where
  "syncs_server_write_int32 flags cid data = syncs_server_write (flags OR SYNCS_TYPE_VAR_INT32) cid (mem_of (le_bytes 4 data)) 0"

definition syncs_server_write_int64 :: "u32 \<Rightarrow> byte list \<Rightarrow> u64 \<Rightarrow> syncs_server \<Rightarrow> int \<times> syncs_server" where
  "syncs_server_write_int64 flags cid data = syncs_server_write (flags OR SYNCS_TYPE_VAR_INT64) cid (mem_of (le_bytes 8 data)) 0"

definition syncs_server_write_float :: "u32 \<Rightarrow> byte list \<Rightarrow> u32 \<Rightarrow> syncs_server \<Rightarrow> int \<times> syncs_server" where
  "syncs_server_write_float flags cid data = syncs_server_write (flags OR SYNCS_TYPE_VAR_FLOAT) cid (mem_of (le_bytes 4 data)) 0"

definition syncs_server_write_double :: "u32 \<Rightarrow> byte list \<Rightarrow> u64 \<Rightarrow> syncs_server \<Rightarrow> int \<times> syncs_server" where
  "syncs_server_write_double flags cid data = syncs_server_write (flags OR SYNCS_TYPE_VAR_DOUBLE) cid (mem_of (le_bytes 8 data)) 0"

definition syncs_server_write_str :: "u32 \<Rightarrow> byte list \<Rightarrow> byte list \<Rightarrow> syncs_server \<Rightarrow> int \<times> syncs_server" where
  "syncs_server_write_str flags cid data =
     syncs_server_write (flags OR SYNCS_TYPE_VAR_STRING) cid (mem_of (c_str data @ [0])) (of_nat (length (c_str data) + 1))"

text \<open>The result of a read: the return value, the bytes stored at \<open>data\<close> and the new \<open>*data_size\<close>.\<close>

definition syncs_server_read :: "u32 \<Rightarrow> byte list \<Rightarrow> u32 \<Rightarrow> syncs_server \<Rightarrow> int \<times> byte list \<times> u32" where
  "syncs_server_read flags cid data_size s =
     (case syncs_find_event s (syncs_idstr cid) of
        None \<Rightarrow> (-1, [], data_size)
      | Some i \<Rightarrow>
          (let event = s_events s i;
               data_size = (if data_size > e_data_size event then e_data_size event else data_size)
           in (0, mem_read (e_data event) 0 (unat data_size), data_size)))"

definition syncs_server_read_int32 :: "u32 \<Rightarrow> byte list \<Rightarrow> syncs_server \<Rightarrow> int \<times> byte list \<times> u32" where
  "syncs_server_read_int32 flags cid = syncs_server_read (flags OR SYNCS_TYPE_VAR_INT32) cid 4"

definition syncs_server_read_int64 :: "u32 \<Rightarrow> byte list \<Rightarrow> syncs_server \<Rightarrow> int \<times> byte list \<times> u32" where
  "syncs_server_read_int64 flags cid = syncs_server_read (flags OR SYNCS_TYPE_VAR_INT64) cid 8"

definition syncs_server_read_float :: "u32 \<Rightarrow> byte list \<Rightarrow> syncs_server \<Rightarrow> int \<times> byte list \<times> u32" where
  "syncs_server_read_float flags cid = syncs_server_read (flags OR SYNCS_TYPE_VAR_FLOAT) cid 4"

definition syncs_server_read_double :: "u32 \<Rightarrow> byte list \<Rightarrow> syncs_server \<Rightarrow> int \<times> byte list \<times> u32" where
  "syncs_server_read_double flags cid = syncs_server_read (flags OR SYNCS_TYPE_VAR_DOUBLE) cid 8"

definition syncs_server_read_str :: "u32 \<Rightarrow> byte list \<Rightarrow> u32 \<Rightarrow> syncs_server \<Rightarrow> int \<times> byte list \<times> u32" where
  "syncs_server_read_str flags cid sz = syncs_server_read (flags OR SYNCS_TYPE_VAR_STRING) cid sz"

definition syncs_server_cb_event :: "callback \<Rightarrow> syncsid \<Rightarrow> syncs_server \<Rightarrow> syncs_server" where
  "syncs_server_cb_event call x s =
     (case syncs_find_event s x of
        None \<Rightarrow> s
      | Some i \<Rightarrow>
          (let event = s_events s i
           in case e_cb event of
                None \<Rightarrow> s
              | Some cb \<Rightarrow> call cb (e_args event) x (mem_read (e_data event) 0 (unat (e_data_size event))) s))"

section \<open>Requests of a client\<close>

definition syncs_client_subscribe :: "nat \<Rightarrow> syncsid \<Rightarrow> u32 \<Rightarrow> u64 \<Rightarrow> syncs_server \<Rightarrow> int \<times> syncs_server" where
  "syncs_client_subscribe c x flags update_counter s =
     (case open_event flags x (\<lambda>e. e\<lparr>e_data_type := flags AND SYNCS_TYPE_VAR_MASK\<rparr>) s of
        (Inl err, s) \<Rightarrow> (err, s)
      | (Inr i, s) \<Rightarrow>
          if e_data_type (s_events s i) AND SYNCS_TYPE_VAR_MASK = SYNCS_TYPE_VAR_ANY \<or>
             flags AND SYNCS_TYPE_VAR_MASK = SYNCS_TYPE_VAR_ANY \<or>
             flags AND SYNCS_TYPE_VAR_MASK = e_data_type (s_events s i)
          then (let s = snd (syncs_add_client_to_event c i s)
                in (0, if update_counter < e_update_counter (s_events s i) then syncs_resend_event c i s else s))
          else (-3, s))"

definition syncs_client_unsubscribe :: "nat \<Rightarrow> syncsid \<Rightarrow> syncs_server \<Rightarrow> syncs_server" where
  "syncs_client_unsubscribe c x s =
     (case syncs_find_event s x of Some i \<Rightarrow> syncs_remove_client_from_event c i s | None \<Rightarrow> s)"

text \<open>\<open>data\<close> is \<open>None\<close> for a null pointer.\<close>

definition syncs_add_event :: "syncsid \<Rightarrow> u32 \<Rightarrow> mem option \<Rightarrow> u32 \<Rightarrow> syncs_server \<Rightarrow> int \<times> syncs_server" where
  "syncs_add_event x flags data sz s =
     (let assign = (\<lambda>i s.
        let data_size = (if sz > 1 \<and> unat sz < SYNCS_VARIABLE_SIZE_MAXIMUM then sz else syncs_get_size_by_type flags);
            s = upd_event i (\<lambda>e. e\<lparr>e_data_type := flags AND SYNCS_TYPE_VAR_MASK, e_data_size := data_size\<rparr>) s
        in (0, case data of
                 None \<Rightarrow> s
               | Some d \<Rightarrow> upd_event i (\<lambda>e. e\<lparr>e_data := mem_copy 0 d (unat data_size) (e_data e)\<rparr>) s))
      in case syncs_find_event s x of
           None \<Rightarrow> (case syncs_create_event s x of (None, s) \<Rightarrow> (-1, s) | (Some i, s) \<Rightarrow> assign i s)
         | Some i \<Rightarrow> if flags AND SYNCS_TYPE_FORCE = 0 then (-2, s) else assign i s)"

definition syncs_server_define :: "byte list \<Rightarrow> u32 \<Rightarrow> mem option \<Rightarrow> u32 \<Rightarrow> syncs_server \<Rightarrow> int \<times> syncs_server" where
  "syncs_server_define cid flags data sz s =
     (if unat sz > SYNCS_VARIABLE_SIZE_MAXIMUM then (-5, s)
      else syncs_add_event (syncs_idstr cid) flags data sz s)"

definition syncs_client_read :: "nat \<Rightarrow> syncsid \<Rightarrow> syncs_server \<Rightarrow> syncs_server" where
  "syncs_client_read c x s =
     (let packet = os_stack (s_os s);
          header = syncs_fill_header x SYNCS_TYPE_READ (p_header packet);
          (packet, s) =
            (case syncs_find_event s x of
               Some i \<Rightarrow>
                 (let event = s_events s i
                  in (packet\<lparr>p_header := header\<lparr>h_data_size := ucast (e_data_size event),
                                h_type := h_type header OR (e_data_type event AND SYNCS_TYPE_VAR_MASK)\<rparr>,
                             p_buffer := mem_copy 0 (e_data event) (unat (e_data_size event)) (p_buffer packet)\<rparr>,
                      upd_os (fault_if (unat (e_data_size event) > SYNCS_VARIABLE_SIZE_MAXIMUM)) s))
             | None \<Rightarrow>
                 (packet\<lparr>p_header := header\<lparr>h_type := h_type header OR SYNCS_TYPE_VAR_NOT_DEFINED, h_data_size := 0\<rparr>\<rparr>, s))
      in count_tx c (snd (syncs_client_send c packet s)))"

definition syncs_client_write ::
    "callback \<Rightarrow> nat \<Rightarrow> syncsid \<Rightarrow> u32 \<Rightarrow> mem \<Rightarrow> u32 \<Rightarrow> syncs_server \<Rightarrow> int \<times> syncs_server" where
  "syncs_client_write call c x flags data data_size s =
     (case open_event flags x (\<lambda>e. e\<lparr>e_data_type := flags AND SYNCS_TYPE_VAR_MASK\<rparr>) s of
        (Inl err, s) \<Rightarrow> (err, s)
      | (Inr i, s) \<Rightarrow>
          if flags AND SYNCS_TYPE_VAR_MASK \<noteq> e_data_type (s_events s i) then (-3, s)
          else
            (let s = (if e_producer (s_events s i) \<noteq> Some c
                      then upd_event i (\<lambda>e. e\<lparr>e_producer := Some c, e_producers_count := e_producers_count e + 1\<rparr>) s
                      else s);
                 s = upd_event i (\<lambda>e. e\<lparr>e_count := e_count e + 1\<rparr>) s;
                 s = upd_client c (\<lambda>cl. cl\<lparr>c_event_write := c_event_write cl + 1\<rparr>) s;
                 s = upd_os (fault_if (unat data_size > SYNCS_VARIABLE_SIZE_MAXIMUM)) s;
                 s = upd_event i (\<lambda>e. e\<lparr>e_data := mem_copy 0 data (unat data_size) (e_data e), e_data_size := data_size,
                                          e_update_counter := s_update_counter s\<rparr>) s;
                 s = s\<lparr>s_update_counter := s_update_counter s + 1\<rparr>;
                 event = s_events s i;
                 s = (case e_cb event of
                        None \<Rightarrow> s
                      | Some cb \<Rightarrow> call cb (e_args event) x (mem_read (e_data event) 0 (unat (e_data_size event))) s)
             in (0, syncs_send_event i (flags AND (SYNCS_TYPE_VAR_MASK OR SYNCS_TYPE_SYNC OR SYNCS_TYPE_ECHO)) s)))"

definition syncs_server_undefine :: "byte list \<Rightarrow> syncs_server \<Rightarrow> syncs_server" where
  "syncs_server_undefine cid s = syncs_free_event s (syncs_idstr cid)"

section \<open>What sending leaves alone\<close>

text \<open>
  \<open>quiet s t\<close>: \<open>s\<close> and \<open>t\<close> differ at most in what went out and in the transmit counters of clients. Every
  function that only answers a client is quiet, whatever the network does.
\<close>

definition wipe :: "syncs_server \<Rightarrow> syncs_server" where
  "wipe s = s\<lparr>s_os := (s_os s)\<lparr>os_script := [], os_sent := [], os_dgram := []\<rparr>,
     s_clients := \<lambda>c. (s_clients s c)\<lparr>c_tx_event_count := 0, c_tx_error := 0\<rparr>\<rparr>"

definition quiet :: "syncs_server \<Rightarrow> syncs_server \<Rightarrow> bool" where
  "quiet s t \<longleftrightarrow> wipe t = wipe s"

lemma quiet_refl [simp]: "quiet s s"
  by (simp add: quiet_def)

lemma quiet_trans: "quiet s t \<Longrightarrow> quiet t u \<Longrightarrow> quiet s u"
  by (simp add: quiet_def)

lemma wipe_simps:
  "s_events (wipe s) = s_events s" "s_channels (wipe s) = s_channels s" "s_usocketfd (wipe s) = s_usocketfd s"
  "s_update_counter (wipe s) = s_update_counter s" "s_event_count (wipe s) = s_event_count s" "s_id (wipe s) = s_id s"
  "s_channel_count (wipe s) = s_channel_count s" "s_client_count (wipe s) = s_client_count s"
  "s_ubuffer (wipe s) = s_ubuffer s" "s_sync_offset (wipe s) = s_sync_offset s"
  "s_uclient_count (wipe s) = s_uclient_count s"
  "os_fault (s_os (wipe s)) = os_fault (s_os s)" "os_stack (s_os (wipe s)) = os_stack (s_os s)"
  "os_now (s_os (wipe s)) = os_now (s_os s)" "os_epoll (s_os (wipe s)) = os_epoll (s_os s)"
  "os_closed (s_os (wipe s)) = os_closed (s_os s)"
  "s_clients (wipe s) c = (s_clients s c)\<lparr>c_tx_event_count := 0, c_tx_error := 0\<rparr>"
  by (simp_all add: wipe_def)

lemma quiet_frame:
  assumes "quiet s t"
  shows "s_events t = s_events s" "s_channels t = s_channels s" "s_usocketfd t = s_usocketfd s"
    "s_update_counter t = s_update_counter s" "s_event_count t = s_event_count s" "s_id t = s_id s"
    "s_channel_count t = s_channel_count s" "s_client_count t = s_client_count s"
    "s_ubuffer t = s_ubuffer s" "s_sync_offset t = s_sync_offset s" "s_uclient_count t = s_uclient_count s"
    "os_fault (s_os t) = os_fault (s_os s)" "os_stack (s_os t) = os_stack (s_os s)"
    "os_now (s_os t) = os_now (s_os s)" "os_epoll (s_os t) = os_epoll (s_os s)"
    "os_closed (s_os t) = os_closed (s_os s)"
  using assms wipe_simps(1-16) unfolding quiet_def by metis+

lemma quiet_client:
  assumes "quiet s t"
  shows "c_socketfd (s_clients t c) = c_socketfd (s_clients s c)" "c_addr (s_clients t c) = c_addr (s_clients s c)"
    "c_id (s_clients t c) = c_id (s_clients s c)" "c_buffer (s_clients t c) = c_buffer (s_clients s c)"
    "c_buffer_recv (s_clients t c) = c_buffer_recv (s_clients s c)"
    "c_event_subscribe (s_clients t c) = c_event_subscribe (s_clients s c)"
    "c_event_write (s_clients t c) = c_event_write (s_clients s c)"
    "c_rx_event_count (s_clients t c) = c_rx_event_count (s_clients s c)"
proof -
  have "(s_clients t c)\<lparr>c_tx_event_count := 0, c_tx_error := 0\<rparr> = (s_clients s c)\<lparr>c_tx_event_count := 0, c_tx_error := 0\<rparr>"
    using assms wipe_simps(17) unfolding quiet_def by metis
  then show "c_socketfd (s_clients t c) = c_socketfd (s_clients s c)" "c_addr (s_clients t c) = c_addr (s_clients s c)"
    "c_id (s_clients t c) = c_id (s_clients s c)" "c_buffer (s_clients t c) = c_buffer (s_clients s c)"
    "c_buffer_recv (s_clients t c) = c_buffer_recv (s_clients s c)"
    "c_event_subscribe (s_clients t c) = c_event_subscribe (s_clients s c)"
    "c_event_write (s_clients t c) = c_event_write (s_clients s c)"
    "c_rx_event_count (s_clients t c) = c_rx_event_count (s_clients s c)"
    by (metis (no_types, lifting) syncs_client.ext_inject syncs_client.update_convs(8,9) syncs_client.surjective)+
qed

lemma quiet_inv: "quiet s t \<Longrightarrow> server_inv t \<longleftrightarrow> server_inv s"
  by (simp add: server_inv_def client_ok_def quiet_frame quiet_client)

lemma quiet_count_tx: "quiet s (count_tx c s)"
  by (auto simp: quiet_def wipe_def count_tx_def upd_client_def fun_eq_iff intro!: syncs_server.fold_congs)

lemma quiet_tx_error: "quiet s (upd_client c (\<lambda>cl. cl\<lparr>c_tx_error := n cl\<rparr>) s)"
  by (auto simp: quiet_def wipe_def upd_client_def fun_eq_iff intro!: syncs_server.fold_congs)

lemma quiet_client_send: "quiet s (snd (syncs_client_send c packet s))"
proof -
  obtain ret out rest where
    "send_loop (packet_bytes packet (SYNCS_PACKET_SIZE packet)) (os_script (s_os s)) = (ret, out, rest)"
    by (metis prod_cases3)
  then show ?thesis
    by (auto simp: syncs_client_send_def quiet_def wipe_def syncs_blocking_send_def syncs_udp_send_def Let_def)
qed

lemma quiet_fault_if: "\<not> b \<Longrightarrow> upd_os (fault_if b) s = s"
  by (simp add: upd_os_def fault_if_def)

lemma quiet_send_event_to: "quiet s (send_event_to packet c s)"
proof -
  obtain ret u where u: "syncs_client_send c packet (count_tx c s) = (ret, u)" by fastforce
  have "quiet s u"
    using quiet_trans [OF quiet_count_tx quiet_client_send [of "count_tx c s" c packet]] by (simp add: u)
  then show ?thesis
    using quiet_trans quiet_tx_error by (auto simp: send_event_to_def u)
qed

lemma quiet_fold: "(\<And>k s. quiet s (f k s)) \<Longrightarrow> quiet s (fold f ks s)"
  by (induction ks arbitrary: s) (auto intro: quiet_trans)

lemma quiet_send_event_turn: "quiet s (send_event_turn i flags packet k s)"
  by (auto simp: send_event_turn_def quiet_send_event_to split: option.splits)

lemma quiet_send_event: "event_ok (s_events s i) \<Longrightarrow> quiet s (syncs_send_event i flags s)"
  using event_ok_size [of "s_events s i"]
  by (simp add: syncs_send_event_def Let_def quiet_fault_if quiet_fold quiet_send_event_turn)

lemma quiet_answer: "quiet s (count_tx c (snd (syncs_client_send c packet s)))"
  using quiet_trans [OF quiet_client_send quiet_count_tx] .

lemma quiet_resend_event: "event_ok (s_events s i) \<Longrightarrow> quiet s (syncs_resend_event c i s)"
  using event_ok_size [of "s_events s i"] by (simp add: syncs_resend_event_def Let_def quiet_fault_if quiet_answer)

lemma quiet_server_status: "quiet s (syncs_send_server_status c code s)"
  by (simp add: syncs_send_server_status_def quiet_answer)

lemma quiet_udp_server_status: "quiet s (syncs_send_udp_server_status addr code s)"
  by (auto simp: syncs_send_udp_server_status_def quiet_def wipe_def upd_os_def)

lemma quiet_client_read:
  assumes "server_inv s"
  shows "quiet s (syncs_client_read c x s)"
proof (cases "syncs_find_event s x")
  case None
  then show ?thesis by (simp add: syncs_client_read_def Let_def quiet_answer)
next
  case (Some i)
  then have "unat (e_data_size (s_events s i)) \<le> SYNCS_VARIABLE_SIZE_MAXIMUM"
    using inv_event [OF assms] ev.find_Some [OF Some] by (simp add: event_ok_size)
  then show ?thesis by (simp add: syncs_client_read_def Let_def Some quiet_fault_if quiet_answer)
qed

end
