(* ===== verification/Server_Vars.thy ===== *)
theory Server_Vars
  imports Server_Events
begin

unbundle bit_operations_syntax

text \<open>
  The server's variables as an abstract store: a partial function from live ids to a type and the bytes
  last stored. \<open>variables\<close> abstracts a server to its store; the lemmas say what each assignment, creation
  and removal does to it. The contract of each operation is a function on stores
  (\<open>abs_write\<close>, \<open>abs_subscribe\<close>, \<open>abs_define\<close>, \<open>abs_server_write\<close>), and the theorems say that the detailed
  operations implement these contracts, error codes included.
\<close>

type_synonym store = "syncsid \<rightharpoonup> u32 \<times> byte list"

definition var_of :: "syncs_event \<Rightarrow> u32 \<times> byte list" where
  "var_of e = (e_data_type e, mem_read (e_data e) 0 (unat (e_data_size e)))"

definition variables :: "syncs_server \<Rightarrow> store" where
  "variables s x =
     (if live_id x then map_option (\<lambda>i. var_of (s_events s i)) (syncs_find_event s x) else None)"

section \<open>The store after one change\<close>

lemma variables_cong: "s_events t = s_events s \<Longrightarrow> variables t = variables s"
  by (rule ext) (simp add: variables_def syncs_find_event_def)

lemma variables_quiet: "quiet s t \<Longrightarrow> variables t = variables s"
  by (intro variables_cong quiet_frame)

lemma variables_Some:
  assumes "server_inv s"
  shows "variables s x = Some v \<longleftrightarrow>
     live_id x \<and> (\<exists>i<SYNCS_EVENT_MAXIMUM. e_id (s_events s i) = x \<and> v = var_of (s_events s i))"
proof -
  have "variables s x = Some v \<longleftrightarrow> live_id x \<and> (\<exists>i. syncs_find_event s x = Some i \<and> v = var_of (s_events s i))"
    by (auto simp: variables_def)
  then show ?thesis using ev.find_live [OF inv_event_ids [OF assms], of x] by blast
qed

lemma variables_dom: "x \<in> dom (variables s) \<longleftrightarrow> live_id x \<and> (\<exists>i<SYNCS_EVENT_MAXIMUM. e_id (s_events s i) = x)"
  using ev.find_None [of s x] by (auto simp: variables_def dom_def)

lemma variables_None:
  "server_inv s \<Longrightarrow> live_id x \<Longrightarrow> variables s x = None \<longleftrightarrow> syncs_find_event s x = None"
  by (simp add: variables_def)

lemma variables_find:
  "syncs_find_event s x = Some i \<Longrightarrow> live_id x \<Longrightarrow> variables s x = Some (var_of (s_events s i))"
  by (simp add: variables_def)

lemma variables_upd_event:
  assumes inv: "server_inv s" and i: "i < SYNCS_EVENT_MAXIMUM"
    and f: "e_id (f (s_events s i)) = e_id (s_events s i)"
  shows "variables (upd_event i f s) =
    (if live_id (e_id (s_events s i)) then (variables s)(e_id (s_events s i) \<mapsto> var_of (f (s_events s i)))
     else variables s)"
proof (rule ext)
  fix y
  have find: "syncs_find_event (upd_event i f s) y = syncs_find_event s y"
    using f by (simp add: syncs_find_event_def) (metis (no_types, lifting) fun_upd_apply)
  show "variables (upd_event i f s) y =
    (if live_id (e_id (s_events s i)) then (variables s)(e_id (s_events s i) \<mapsto> var_of (f (s_events s i)))
     else variables s) y"
  proof (cases "live_id y")
    case True
    then show ?thesis
      using ev.find_live [OF inv_event_ids [OF inv] True] i
      by (cases "syncs_find_event s y") (auto simp: variables_def find dest: ev.find_Some)
  next
    case False
    then show ?thesis by (auto simp: variables_def)
  qed
qed

lemma variables_create_event:
  assumes inv: "server_inv s" and "syncs_find_event s x = None" "live_id x" "fst (syncs_create_event s x) = Some i"
  shows "variables (snd (syncs_create_event s x)) = (variables s)(x \<mapsto> (0, []))"
proof (rule ext)
  fix y
  let ?t = "snd (syncs_create_event s x)"
  note new = create_event_new [OF assms(4)]
  have i: "\<not> live_id (e_id (s_events s i))" using ev.create_Some [OF assms(4)] by simp
  show "variables ?t y = ((variables s)(x \<mapsto> (0, []))) y"
  proof (cases "y = x")
    case True
    have "syncs_find_event ?t x = Some i"
      using ev.find_create [OF inv_event_ids [OF inv] assms(2-4)] .
    then show ?thesis using assms(3) by (simp add: True variables_def new var_of_def syncs_event_init_def)
  next
    case False
    have "syncs_find_event ?t y = syncs_find_event s y" if "live_id y"
      using ev.find_create_other [OF inv_event_ids [OF inv] assms(2) that False] .
    moreover have "j \<noteq> i" if "syncs_find_event s y = Some j" "live_id y" for j
      using ev.find_Some [OF that(1)] that(2) i by auto
    ultimately show ?thesis
      using False by (cases "syncs_find_event s y") (auto simp: variables_def new)
  qed
qed

lemma variables_create_full: "fst (syncs_create_event s x) = None \<Longrightarrow> variables (snd (syncs_create_event s x)) = variables s"
  by (simp add: ev.create_None_same)

lemma variables_free_event:
  assumes inv: "server_inv s" and x: "live_id x"
  shows "variables (syncs_free_event s x) = (variables s)(x := None)"
proof (rule ext)
  fix y
  show "variables (syncs_free_event s x) y = ((variables s)(x := None)) y"
  proof (cases "y = x")
    case True
    then show ?thesis
      using ev.find_free [OF inv_event_ids [OF inv] x] by (simp add: variables_def)
  next
    case False
    have "syncs_find_event (syncs_free_event s x) y = syncs_find_event s y" if "live_id y"
      using ev.find_free_other [OF inv_event_ids [OF inv] x that False] .
    moreover have "var_of (s_events (syncs_free_event s x) j) = var_of (s_events s j)" for j
      by (auto simp: syncs_free_event_def var_of_def split: option.splits)
    ultimately show ?thesis using False by (simp add: variables_def)
  qed
qed

text \<open>The table is full exactly when the store has 256 variables.\<close>

lemma card_variables:
  assumes inv: "server_inv s"
  shows "card (dom (variables s)) = count_slots SYNCS_EVENT_MAXIMUM (\<lambda>i. live_id (e_id (s_events s i)))"
proof -
  let ?live = "{i. i < SYNCS_EVENT_MAXIMUM \<and> live_id (e_id (s_events s i))}"
  have "dom (variables s) = (\<lambda>i. e_id (s_events s i)) ` ?live"
    by (intro set_eqI) (auto simp: variables_dom)
  moreover have "inj_on (\<lambda>i. e_id (s_events s i)) ?live"
    using unique_idsD [OF inv_event_ids [OF inv]] unfolding inj_on_def by blast
  ultimately show ?thesis by (simp add: card_image count_slots_card)
qed

lemma table_full:
  assumes "server_inv s"
  shows "fst (syncs_create_event s x) = None \<longleftrightarrow> card (dom (variables s)) = SYNCS_EVENT_MAXIMUM"
proof -
  let ?live = "{i. i < SYNCS_EVENT_MAXIMUM \<and> live_id (e_id (s_events s i))}"
  have "card ?live = SYNCS_EVENT_MAXIMUM \<longleftrightarrow> ?live = {..<SYNCS_EVENT_MAXIMUM}"
  proof
    assume "card ?live = SYNCS_EVENT_MAXIMUM"
    then show "?live = {..<SYNCS_EVENT_MAXIMUM}" by (intro card_subset_eq) auto
  qed simp
  then show ?thesis
    unfolding ev.create_None card_variables [OF assms] count_slots_card by auto
qed

section \<open>A sample server\<close>

text \<open>The server that witnesses start from: just created, in a world where every send succeeds.\<close>

definition sample_server :: syncs_server where
  "sample_server = the (syncs_server_create True (Some (cstr ''127.0.0.1'')) 4444 (Some (cstr ''hub'')) idle_os)"

lemma sample_server_created:
  "syncs_server_create True (Some (cstr ''127.0.0.1'')) 4444 (Some (cstr ''hub'')) idle_os = Some sample_server"
  by (simp add: sample_server_def syncs_server_create_def Let_def)

lemmas sample_server_fields = server_create_fields [OF sample_server_created]

lemma sample_server_inv: "server_inv sample_server"
  using server_create_inv [OF sample_server_created] by (simp add: idle_os_def)

lemma server_create_variables:
  assumes "syncs_server_create True addr port cid w = Some s"
  shows "variables s = Map.empty"
proof (rule ext)
  fix x
  have "live_id x \<Longrightarrow> syncs_find_event s x = None"
    unfolding ev.find_None by (auto simp: server_create_fields [OF assms] live_id_def)
  then show "variables s x = None" by (simp add: variables_def)
qed

lemma sample_server_find: "live_id x \<Longrightarrow> syncs_find_event sample_server x = None"
  unfolding ev.find_None by (auto simp: sample_server_fields live_id_def)

lemma sample_server_variables: "variables sample_server = Map.empty"
  by (rule ext) (simp add: variables_def sample_server_find)

end
