(* ===== verification/Server_Laws.thy ===== *)
theory Server_Laws
  imports Server_Vars
begin

unbundle bit_operations_syntax

text \<open>
  That the operations on events keep the invariant and implement their contracts on the store of
  variables. The locale \<open>server_callbacks\<close> is what the server relies on in the application: a callback, like
  any use of the API, keeps the invariant. \<open>passive_callbacks\<close> are callbacks that only observe, which is
  what the callbacks of \<^verbatim>\<open>src/syncsserver/syncsserver.c\<close> do; for them the store changes exactly as the contract
  of the write says.
\<close>

section \<open>Finding or creating the event of a request\<close>

lemma open_event_cases:
  obtains (found) i where "syncs_find_event s x = Some i" "open_event flags x new s = (Inr i, s)"
  | (refused) "syncs_find_event s x = None" "flags AND SYNCS_TYPE_FORCE = 0" "open_event flags x new s = (Inl (-1), s)"
  | (full) "syncs_find_event s x = None" "flags AND SYNCS_TYPE_FORCE \<noteq> 0" "fst (syncs_create_event s x) = None"
      "open_event flags x new s = (Inl (-2), s)"
  | (created) i where "syncs_find_event s x = None" "flags AND SYNCS_TYPE_FORCE \<noteq> 0"
      "fst (syncs_create_event s x) = Some i"
      "open_event flags x new s = (Inr i, upd_event i new (snd (syncs_create_event s x)))"
proof (cases "syncs_find_event s x")
  case None
  then show ?thesis
    using refused full created ev.create_None_same [of s x]
    by (cases "flags AND SYNCS_TYPE_FORCE = 0"; cases "syncs_create_event s x"; cases "fst (syncs_create_event s x)")
      (auto simp: open_event_def)
qed (use found in \<open>simp add: open_event_def\<close>)

lemma open_event_inv:
  assumes inv: "server_inv s"
    and new: "\<And>e. event_ok e \<Longrightarrow> event_ok (new e)" "\<And>e. e_id (new e) = e_id e"
  shows "server_inv (snd (open_event flags x new s))"
proof (cases rule: open_event_cases [where s = s and x = x and flags = flags and new = new])
  case (created i)
  have "server_inv (snd (syncs_create_event s x))" using create_event_inv [OF inv created(1)] .
  moreover have "event_ok (s_events (snd (syncs_create_event s x)) i)"
    using inv_event [OF calculation] ev.create_Some [OF created(3)] by simp
  ultimately show ?thesis using new by (simp add: created(4) server_inv_upd_event)
qed (use inv in simp_all)

lemma open_event_slot:
  assumes "fst (open_event flags x new s) = Inr i" "\<And>e. e_id (new e) = e_id e"
  shows "i < SYNCS_EVENT_MAXIMUM \<and> e_id (s_events (snd (open_event flags x new s)) i) = x"
proof (cases rule: open_event_cases [where s = s and x = x and flags = flags and new = new])
  case (created j)
  have "j < SYNCS_EVENT_MAXIMUM" "e_id (s_events (snd (syncs_create_event s x)) j) = x"
    using ev.create_Some [OF created(3)] by (auto dest: fun_cong [of _ _ j])
  then show ?thesis using assms created by simp
qed (use assms ev.find_Some in auto)

lemma open_event_frame:
  "s_clients (snd (open_event flags x new s)) = s_clients s"
  "s_os (snd (open_event flags x new s)) = s_os s"
  "s_channels (snd (open_event flags x new s)) = s_channels s"
  "s_update_counter (snd (open_event flags x new s)) = s_update_counter s"
  "s_usocketfd (snd (open_event flags x new s)) = s_usocketfd s"
  by (cases rule: open_event_cases [where s = s and x = x and flags = flags and new = new]; simp add: create_event_frame)+

text \<open>The contract of opening on the store.\<close>

definition abs_open :: "bool \<Rightarrow> syncsid \<Rightarrow> u32 \<Rightarrow> store \<Rightarrow> int + store" where
  "abs_open force x t m =
     (if x \<in> dom m then Inr m
      else if \<not> force then Inl (-1)
      else if card (dom m) = SYNCS_EVENT_MAXIMUM then Inl (-2)
      else Inr (m(x \<mapsto> (t, []))))"

lemma open_event_refines:
  assumes inv: "server_inv s" and x: "live_id x"
    and new: "\<And>e. var_of (new e) = (if v then t else e_data_type e, snd (var_of e))" "\<And>e. e_id (new e) = e_id e"
  shows "case open_event flags x new s of
      (Inl err, s') \<Rightarrow> abs_open (flags AND SYNCS_TYPE_FORCE \<noteq> 0) x (if v then t else 0) (variables s) = Inl err \<and> s' = s
    | (Inr i, s') \<Rightarrow> abs_open (flags AND SYNCS_TYPE_FORCE \<noteq> 0) x (if v then t else 0) (variables s) = Inr (variables s')"
proof (cases rule: open_event_cases [where s = s and x = x and flags = flags and new = new])
  case (found i)
  then have "x \<in> dom (variables s)" using x by (auto simp: variables_find)
  then show ?thesis by (simp add: found abs_open_def)
next
  case refused
  then have "x \<notin> dom (variables s)" using variables_None [OF inv x] by auto
  then show ?thesis by (simp add: refused abs_open_def)
next
  case full
  then have "x \<notin> dom (variables s)" using variables_None [OF inv x] by auto
  then show ?thesis using full table_full [OF inv, of x] by (simp add: abs_open_def)
next
  case (created i)
  let ?t = "snd (syncs_create_event s x)"
  have "x \<notin> dom (variables s)" using variables_None [OF inv x] created by auto
  moreover have "card (dom (variables s)) \<noteq> SYNCS_EVENT_MAXIMUM"
    using table_full [OF inv, of x] created by simp
  moreover have "i < SYNCS_EVENT_MAXIMUM" "e_id (s_events ?t i) = x"
    using ev.create_Some [OF created(3)] by (auto dest: fun_cong [of _ _ i])
  moreover have "server_inv ?t" using create_event_inv [OF inv created(1)] .
  moreover have "variables ?t = (variables s)(x \<mapsto> (0, []))"
    using variables_create_event [OF inv created(1) x created(3)] .
  moreover have "var_of (new (s_events ?t i)) = (if v then t else 0, [])"
    using new(1) by (simp add: create_event_new [OF created(3)] syncs_event_init_def var_of_def)
  ultimately show ?thesis
    using x new(2) created(2) by (auto simp: created(4) abs_open_def variables_upd_event)
qed

section \<open>The invariant\<close>

lemma event_ok_types [simp]: "event_ok (e\<lparr>e_args := a, e_cb := p\<rparr>) = event_ok e"
  "event_ok (e\<lparr>e_producer := None, e_producers_count := n\<rparr>) = event_ok (e\<lparr>e_producer := None\<rparr>)"
  by (simp_all only: event_ok_plain)

lemma server_subscribe_event_inv:
  assumes "server_inv s"
  shows "server_inv (snd (syncs_server_subscribe_event flags cid cb args s))"
proof -
  obtain r t where o: "open_event flags (syncs_idstr cid) (\<lambda>e. e) s = (r, t)" by fastforce
  have t: "server_inv t" using open_event_inv [OF assms, of "\<lambda>e. e" flags "syncs_idstr cid"] by (simp add: o)
  show ?thesis
  proof (cases r)
    case (Inr i)
    then have "event_ok (s_events t i)"
      using open_event_slot [of flags "syncs_idstr cid" "\<lambda>e. e" s i] inv_event [OF t] by (simp add: o)
    then show ?thesis using t by (simp add: syncs_server_subscribe_event_def o Inr server_inv_upd_event)
  qed (simp add: syncs_server_subscribe_event_def o t)
qed

lemma server_unsubscribe_event_inv:
  assumes "server_inv s"
  shows "server_inv (syncs_server_unsubscribe_event cid s)"
proof (cases "syncs_find_event s (syncs_idstr cid)")
  case (Some i)
  then show ?thesis
    using assms inv_event [OF assms, of i] ev.find_Some [OF Some]
    by (simp add: syncs_server_unsubscribe_event_def server_inv_upd_event)
qed (use assms in \<open>simp add: syncs_server_unsubscribe_event_def\<close>)

lemma size_by_type_le: "unat (syncs_get_size_by_type t) \<le> 8"
  by (simp add: syncs_get_size_by_type_def Let_def)

lemma event_ok_store:
  "event_ok e \<Longrightarrow> unat n \<le> SYNCS_VARIABLE_SIZE_MAXIMUM \<Longrightarrow> event_ok (e\<lparr>e_data := m, e_data_size := n\<rparr>)"
  "event_ok e \<Longrightarrow> unat n \<le> SYNCS_VARIABLE_SIZE_MAXIMUM \<Longrightarrow> event_ok (e\<lparr>e_data_type := t, e_data_size := n\<rparr>)"
  "event_ok e \<Longrightarrow> unat n \<le> SYNCS_VARIABLE_SIZE_MAXIMUM \<Longrightarrow>
     event_ok (e\<lparr>e_data := m, e_data_size := n, e_update_counter := u\<rparr>)"
  by (simp_all add: event_ok_data_size)

lemma event_ok_no_producer: "event_ok e \<Longrightarrow> event_ok (e\<lparr>e_producer := None\<rparr>)"
  by (rule event_ok_producer) simp_all

text \<open>An API write of at most 511 bytes, up to its sending.\<close>

lemma server_write_inv:
  assumes inv: "server_inv s" and sz: "unat data_size \<le> SYNCS_VARIABLE_SIZE_MAXIMUM"
  shows "server_inv (snd (syncs_server_write flags cid data data_size s))"
proof -
  obtain r t where o: "open_event flags (syncs_idstr cid) (\<lambda>e. e) s = (r, t)" by fastforce
  have t: "server_inv t" using open_event_inv [OF inv, of "\<lambda>e. e" flags "syncs_idstr cid"] by (simp add: o)
  define n where "n = (if data_size = 0 then syncs_get_size_by_type flags else data_size)"
  have n: "unat n \<le> SYNCS_VARIABLE_SIZE_MAXIMUM"
    using sz size_by_type_le [of flags] by (simp add: n_def)
  show ?thesis
  proof (cases r)
    case (Inr i)
    then have i: "i < SYNCS_EVENT_MAXIMUM"
      using open_event_slot [of flags "syncs_idstr cid" "\<lambda>e. e" s i] by (simp add: o)
    define u where "u = upd_event i (\<lambda>e. e\<lparr>e_data := mem_copy 0 data (unat n) (e_data e), e_data_size := n\<rparr>) t"
    define v where "v = (if e_producer (s_events u i) \<noteq> None
      then upd_event i (\<lambda>e. e\<lparr>e_producer := None, e_producers_count := e_producers_count e + 1\<rparr>) u else u)"
    have u: "server_inv u"
      unfolding u_def using t n inv_event [OF t i] by (intro server_inv_upd_event) (simp_all add: event_ok_store)
    then have v: "server_inv v"
      unfolding v_def using inv_event [OF u i] by (auto intro!: server_inv_upd_event simp: event_ok_no_producer)
    have "e_producer (s_events u i) = e_producer (s_events t i)" by (simp add: u_def)
    then have "snd (syncs_server_write flags cid data data_size s) = syncs_send_event i flags v"
      using n by (simp add: syncs_server_write_def o Inr Let_def n_def [symmetric] quiet_fault_if u_def [symmetric] v_def)
    then show ?thesis using quiet_inv [OF quiet_send_event [OF inv_event [OF v i]]] v by simp
  qed (simp add: syncs_server_write_def o t)
qed

lemma client_unsubscribe_inv:
  assumes "server_inv s"
  shows "server_inv (syncs_client_unsubscribe c x s)"
proof (cases "syncs_find_event s x")
  case (Some i)
  then show ?thesis using ev.find_Some [OF Some] remove_client_from_event_inv [OF assms, of i c]
    by (simp add: syncs_client_unsubscribe_def)
qed (use assms in \<open>simp add: syncs_client_unsubscribe_def\<close>)

lemma client_subscribe_inv:
  assumes inv: "server_inv s" and c: "c < SYNCS_CLIENT_MAXIMUM"
  shows "server_inv (snd (syncs_client_subscribe c x flags update_counter s))"
proof -
  let ?new = "\<lambda>e. e\<lparr>e_data_type := flags AND SYNCS_TYPE_VAR_MASK\<rparr>"
  obtain r t where o: "open_event flags x ?new s = (r, t)" by fastforce
  have t: "server_inv t" using open_event_inv [OF inv, of ?new flags x] by (simp add: o)
  show ?thesis
  proof (cases r)
    case (Inr i)
    then have i: "i < SYNCS_EVENT_MAXIMUM" using open_event_slot [of flags x ?new s i] by (simp add: o)
    have u: "server_inv (snd (syncs_add_client_to_event c i t))"
      using add_client_to_event_ok [OF t c i] by simp
    then show ?thesis
      using t quiet_inv [OF quiet_resend_event [OF inv_event [OF u i], of c]]
      by (simp add: syncs_client_subscribe_def o Inr Let_def)
  qed (simp add: syncs_client_subscribe_def o t)
qed

text \<open>What a definition assigns to the event it has found or made.\<close>

definition define_size :: "u32 \<Rightarrow> u32 \<Rightarrow> u32" where
  "define_size flags sz =
     (if sz > 1 \<and> unat sz < SYNCS_VARIABLE_SIZE_MAXIMUM then sz else syncs_get_size_by_type flags)"

definition define_assign :: "u32 \<Rightarrow> mem option \<Rightarrow> u32 \<Rightarrow> syncs_event \<Rightarrow> syncs_event" where
  "define_assign flags data sz e =
     (let e = e\<lparr>e_data_type := flags AND SYNCS_TYPE_VAR_MASK, e_data_size := define_size flags sz\<rparr>
      in case data of None \<Rightarrow> e | Some d \<Rightarrow> e\<lparr>e_data := mem_copy 0 d (unat (define_size flags sz)) (e_data e)\<rparr>)"

lemma add_event_eq:
  "syncs_add_event x flags data sz s =
     (case syncs_find_event s x of
        None \<Rightarrow> (case syncs_create_event s x of
             (None, s) \<Rightarrow> (-1, s) | (Some i, s) \<Rightarrow> (0, upd_event i (define_assign flags data sz) s))
      | Some i \<Rightarrow> if flags AND SYNCS_TYPE_FORCE = 0 then (-2, s) else (0, upd_event i (define_assign flags data sz) s))"
proof -
  have "(case data of
       None \<Rightarrow> upd_event i (\<lambda>e. e\<lparr>e_data_type := flags AND SYNCS_TYPE_VAR_MASK, e_data_size := define_size flags sz\<rparr>) s
     | Some d \<Rightarrow> upd_event i (\<lambda>e. e\<lparr>e_data := mem_copy 0 d (unat (define_size flags sz)) (e_data e)\<rparr>)
         (upd_event i (\<lambda>e. e\<lparr>e_data_type := flags AND SYNCS_TYPE_VAR_MASK, e_data_size := define_size flags sz\<rparr>) s))
    = upd_event i (define_assign flags data sz) s" for i s
    by (cases data) (auto simp: upd_event_def define_assign_def Let_def)
  then show ?thesis
    by (simp add: syncs_add_event_def Let_def define_size_def [symmetric] cong: option.case_cong)
qed

lemma define_assign_ok:
  assumes "event_ok e"
  shows "event_ok (define_assign flags data sz e)" "e_id (define_assign flags data sz e) = e_id e"
proof -
  have "unat (define_size flags sz) \<le> SYNCS_VARIABLE_SIZE_MAXIMUM"
    using size_by_type_le [of flags] by (simp add: define_size_def)
  then show "event_ok (define_assign flags data sz e)"
    using assms by (auto simp: define_assign_def Let_def event_ok_store split: option.splits)
  show "e_id (define_assign flags data sz e) = e_id e"
    by (auto simp: define_assign_def Let_def split: option.splits)
qed

lemma add_event_inv:
  assumes inv: "server_inv s"
  shows "server_inv (snd (syncs_add_event x flags data sz s))"
proof (cases "syncs_find_event s x")
  case None
  obtain r t where cr: "syncs_create_event s x = (r, t)" by fastforce
  have t: "server_inv t" using create_event_inv [OF inv None] by (simp add: cr)
  show ?thesis
  proof (cases r)
    case (Some i)
    then have "i < SYNCS_EVENT_MAXIMUM" using ev.create_Some [of s x i] by (simp add: cr)
    from inv_event [OF t this] show ?thesis
      using t by (auto simp: add_event_eq None cr Some define_assign_ok intro: server_inv_upd_event)
  qed (simp add: add_event_eq None cr t)
next
  case (Some i)
  from inv_event [OF inv, of i] show ?thesis
    using inv ev.find_Some [OF Some] by (auto simp: add_event_eq Some define_assign_ok intro: server_inv_upd_event)
qed

lemma server_define_inv: "server_inv s \<Longrightarrow> server_inv (snd (syncs_server_define cid flags data sz s))"
  by (simp add: syncs_server_define_def add_event_inv)

lemma server_undefine_inv: "server_inv s \<Longrightarrow> server_inv (syncs_server_undefine cid s)"
  by (simp add: syncs_server_undefine_def free_event_inv)

section \<open>A client's write\<close>

text \<open>The two stages of an accepted \<open>syncs_client_write\<close> before the event goes out: the assignments, and the callback.\<close>

definition store_write :: "nat \<Rightarrow> nat \<Rightarrow> mem \<Rightarrow> u32 \<Rightarrow> syncs_server \<Rightarrow> syncs_server" where
  "store_write c i data n s =
     (upd_event i (\<lambda>e. e\<lparr>e_producer := Some c,
            e_producers_count := (if e_producer e \<noteq> Some c then e_producers_count e + 1 else e_producers_count e),
            e_count := e_count e + 1, e_data := mem_copy 0 data (unat n) (e_data e), e_data_size := n,
            e_update_counter := s_update_counter s\<rparr>)
       (upd_client c (\<lambda>cl. cl\<lparr>c_event_write := c_event_write cl + 1\<rparr>) s))\<lparr>s_update_counter := s_update_counter s + 1\<rparr>"

definition run_cb :: "callback \<Rightarrow> syncsid \<Rightarrow> nat \<Rightarrow> syncs_server \<Rightarrow> syncs_server" where
  "run_cb call x i s =
     (case e_cb (s_events s i) of
        None \<Rightarrow> s
      | Some cb \<Rightarrow> call cb (e_args (s_events s i)) x (snd (var_of (s_events s i))) s)"

lemma client_write_cases:
  assumes "unat n \<le> SYNCS_VARIABLE_SIZE_MAXIMUM"
  obtains (rejected) err t where
      "open_event flags x (\<lambda>e. e\<lparr>e_data_type := flags AND SYNCS_TYPE_VAR_MASK\<rparr>) s = (Inl err, t)"
      "syncs_client_write call c x flags data n s = (err, t)"
  | (mistyped) i t where
      "open_event flags x (\<lambda>e. e\<lparr>e_data_type := flags AND SYNCS_TYPE_VAR_MASK\<rparr>) s = (Inr i, t)"
      "flags AND SYNCS_TYPE_VAR_MASK \<noteq> e_data_type (s_events t i)"
      "syncs_client_write call c x flags data n s = (-3, t)"
  | (accepted) i t where
      "open_event flags x (\<lambda>e. e\<lparr>e_data_type := flags AND SYNCS_TYPE_VAR_MASK\<rparr>) s = (Inr i, t)"
      "flags AND SYNCS_TYPE_VAR_MASK = e_data_type (s_events t i)"
      "syncs_client_write call c x flags data n s =
         (0, syncs_send_event i (flags AND (SYNCS_TYPE_VAR_MASK OR SYNCS_TYPE_SYNC OR SYNCS_TYPE_ECHO))
               (run_cb call x i (store_write c i data n t)))"
proof -
  let ?new = "\<lambda>e. e\<lparr>e_data_type := flags AND SYNCS_TYPE_VAR_MASK\<rparr>"
  obtain r t where o: "open_event flags x ?new s = (r, t)" by fastforce
  show ?thesis
  proof (cases r)
    case (Inl err)
    then show ?thesis using rejected o by (simp add: syncs_client_write_def)
  next
    case (Inr i)
    show ?thesis
    proof (cases "flags AND SYNCS_TYPE_VAR_MASK = e_data_type (s_events t i)")
      case True
      have "syncs_client_write call c x flags data n s =
         (0, syncs_send_event i (flags AND (SYNCS_TYPE_VAR_MASK OR SYNCS_TYPE_SYNC OR SYNCS_TYPE_ECHO))
               (run_cb call x i (store_write c i data n t)))"
        using o True assms
        by (cases "e_producer (s_events t i) = Some c"; cases "e_cb (s_events t i)"; cases "s_events t i")
          (simp_all add: Inr syncs_client_write_def Let_def quiet_fault_if upd_client_def upd_event_def store_write_def
            run_cb_def var_of_def)
      then show ?thesis using accepted o Inr True by blast
    next
      case False
      then show ?thesis using mistyped o Inr by (simp add: syncs_client_write_def)
    qed
  qed
qed

lemma store_write_event:
  "s_events (store_write c i data n s) = (s_events s)(i := (s_events s i)\<lparr>e_producer := Some c,
            e_producers_count := (if e_producer (s_events s i) \<noteq> Some c then e_producers_count (s_events s i) + 1 else e_producers_count (s_events s i)),
            e_count := e_count (s_events s i) + 1, e_data := mem_copy 0 data (unat n) (e_data (s_events s i)), e_data_size := n,
            e_update_counter := s_update_counter s\<rparr>)"
  "s_update_counter (store_write c i data n s) = s_update_counter s + 1"
  "s_os (store_write c i data n s) = s_os s"
  "c_socketfd (s_clients (store_write c i data n s) d) = c_socketfd (s_clients s d)"
  "c_addr (s_clients (store_write c i data n s) d) = c_addr (s_clients s d)"
  "s_usocketfd (store_write c i data n s) = s_usocketfd s"
  by (simp_all add: store_write_def)

lemma store_write_inv:
  assumes inv: "server_inv s" and i: "i < SYNCS_EVENT_MAXIMUM" and c: "c < SYNCS_CLIENT_MAXIMUM"
    and n: "unat n \<le> SYNCS_VARIABLE_SIZE_MAXIMUM"
  shows "server_inv (store_write c i data n s)"
proof -
  have e: "event_ok ((s_events s i)\<lparr>e_producer := Some c, e_data_size := n\<rparr>)"
    using inv_event [OF inv i] c n by (intro event_ok_data_size event_ok_producer) auto
  have swap: "e\<lparr>e_producer := p, e_producers_count := m, e_count := k, e_data := d, e_data_size := n, e_update_counter := u\<rparr>
      = e\<lparr>e_producer := p, e_data_size := n\<rparr>\<lparr>e_producers_count := m, e_count := k, e_data := d, e_update_counter := u\<rparr>"
    for e p m k d u by simp
  show ?thesis
    unfolding store_write_def swap server_inv_plain
    using inv e inv_client [OF inv c] by (intro server_inv_upd_client server_inv_upd_event) simp_all
qed

lemma store_write_variables:
  assumes "server_inv s" "i < SYNCS_EVENT_MAXIMUM" "live_id (e_id (s_events s i))"
  shows "variables (store_write c i data n s) =
    (variables s)(e_id (s_events s i) \<mapsto> (e_data_type (s_events s i), mem_read data 0 (unat n)))"
proof -
  define f where "f e = e\<lparr>e_producer := Some c,
            e_producers_count := (if e_producer e \<noteq> Some c then e_producers_count e + 1 else e_producers_count e),
            e_count := e_count e + 1, e_data := mem_copy 0 data (unat n) (e_data e), e_data_size := n,
            e_update_counter := s_update_counter s\<rparr>" for e :: syncs_event
  have "variables (store_write c i data n s) = variables (upd_event i f s)"
    by (intro variables_cong) (simp add: store_write_event f_def)
  then show ?thesis
    using assms by (simp add: variables_upd_event f_def var_of_def mem_simps)
qed

section \<open>Callbacks\<close>

locale server_callbacks =
  fixes call :: callback
  assumes call_inv: "server_inv s \<Longrightarrow> server_inv (call cb args x data s)"
begin

lemma run_cb_inv: "server_inv s \<Longrightarrow> server_inv (run_cb call x i s)"
  by (auto simp: run_cb_def call_inv split: option.splits)

lemma cb_event_inv: "server_inv s \<Longrightarrow> server_inv (syncs_server_cb_event call x s)"
  by (auto simp: syncs_server_cb_event_def call_inv Let_def split: option.splits)

lemma write_inv:
  assumes inv: "server_inv s" and c: "c < SYNCS_CLIENT_MAXIMUM" and n: "unat n \<le> SYNCS_VARIABLE_SIZE_MAXIMUM"
  shows "server_inv (snd (syncs_client_write call c x flags data n s))"
proof -
  let ?new = "\<lambda>e. e\<lparr>e_data_type := flags AND SYNCS_TYPE_VAR_MASK\<rparr>"
  have open_inv: "server_inv (snd (open_event flags x ?new s))"
    using open_event_inv [OF inv] by simp
  from n show ?thesis
  proof (cases rule: client_write_cases [where flags = flags and x = x and s = s and call = call and c = c and data = data])
    case (accepted i t)
    then have i: "i < SYNCS_EVENT_MAXIMUM" using open_event_slot [of flags x ?new s i] by simp
    have "server_inv t" using open_inv accepted(1) by simp
    from run_cb_inv [OF store_write_inv [OF this i c n]]
    have v: "server_inv (run_cb call x i (store_write c i data n t))" .
    then show ?thesis using quiet_inv [OF quiet_send_event [OF inv_event [OF v i]]] by (simp add: accepted)
  qed (use open_inv in auto)
qed

end

locale passive_callbacks =
  fixes call :: callback
  assumes call_quiet: "quiet s (call cb args x data s)"

sublocale passive_callbacks \<subseteq> server_callbacks
  using quiet_inv call_quiet by unfold_locales blast

context passive_callbacks
begin

lemma run_cb_quiet: "quiet s (run_cb call x i s)"
  by (auto simp: run_cb_def call_quiet split: option.splits)

end

text \<open>
  The callbacks of \<^verbatim>\<open>src/syncsserver/syncsserver.c\<close>, \<open>syncs_cb_message\<close> and \<open>syncs_cb_mode\<close>, return without
  touching the server.
\<close>

definition syncs_cb_message :: "nat \<Rightarrow> syncsid \<Rightarrow> byte list \<Rightarrow> syncs_server \<Rightarrow> syncs_server" where
  "syncs_cb_message args x data s = s"

definition syncs_cb_mode :: "nat \<Rightarrow> syncsid \<Rightarrow> byte list \<Rightarrow> syncs_server \<Rightarrow> syncs_server" where
  "syncs_cb_mode args x data s = s"

definition syncsserver_call :: callback where
  "syncsserver_call cb args x data s =
     (if cb = 1 then syncs_cb_message args x data s else if cb = 2 then syncs_cb_mode args x data s else s)"

interpretation syncsserver: passive_callbacks syncsserver_call
  by unfold_locales (simp add: syncsserver_call_def syncs_cb_message_def syncs_cb_mode_def)

end
