(* ===== verification/Server_Store.thy ===== *)
theory Server_Store
  imports Server_Laws
begin

unbundle bit_operations_syntax

text \<open>
  The contracts of the requests on variables, as functions on the store, and the theorems that the server
  implements them: what a write, a subscription, a definition or a read does to the store, to
  the subscribers, and what the client is answered.
\<close>

section \<open>Contracts\<close>

text \<open>A write needs the type of the variable; FORCE creates a variable that is not there.\<close>

definition abs_write :: "bool \<Rightarrow> syncsid \<Rightarrow> u32 \<Rightarrow> byte list \<Rightarrow> store \<Rightarrow> int \<times> store" where
  "abs_write force x t d m =
     (case abs_open force x t m of
        Inl err \<Rightarrow> (err, m)
      | Inr m' \<Rightarrow> if fst (the (m' x)) = t then (0, m'(x \<mapsto> (t, d))) else (-3, m'))"

text \<open>A subscription may also ask for any type, or meet a variable of type ANY.\<close>

definition types_agree :: "u32 \<Rightarrow> u32 \<Rightarrow> bool" where
  "types_agree wanted t \<longleftrightarrow> t AND SYNCS_TYPE_VAR_MASK = SYNCS_TYPE_VAR_ANY \<or> wanted = SYNCS_TYPE_VAR_ANY \<or> wanted = t"

definition abs_subscribe :: "bool \<Rightarrow> syncsid \<Rightarrow> u32 \<Rightarrow> store \<Rightarrow> int \<times> store" where
  "abs_subscribe force x t m =
     (case abs_open force x t m of
        Inl err \<Rightarrow> (err, m)
      | Inr m' \<Rightarrow> (if types_agree t (fst (the (m' x))) then 0 else -3, m'))"

text \<open>The server's own write does not look at the type; a variable it creates has type 0.\<close>

definition abs_server_write :: "bool \<Rightarrow> syncsid \<Rightarrow> byte list \<Rightarrow> store \<Rightarrow> int \<times> store" where
  "abs_server_write force x d m =
     (case abs_open force x 0 m of
        Inl err \<Rightarrow> (err, m)
      | Inr m' \<Rightarrow> (0, m'(x \<mapsto> (fst (the (m' x)), d))))"

section \<open>Who subscribes to a variable\<close>

definition subscribed :: "syncs_server \<Rightarrow> syncsid \<Rightarrow> nat set" where
  "subscribed s x =
     (case syncs_find_event s x of Some i \<Rightarrow> subscribers (s_events s i) | None \<Rightarrow> {})"

lemma subscribed_quiet: "quiet s t \<Longrightarrow> subscribed t = subscribed s"
  by (rule ext) (simp add: subscribed_def syncs_find_event_def quiet_frame(1) cong: option.case_cong)

section \<open>Writes\<close>

lemma open_typed_refines:
  assumes "server_inv s" "live_id x"
  shows "case open_event flags x (\<lambda>e. e\<lparr>e_data_type := flags AND SYNCS_TYPE_VAR_MASK\<rparr>) s of
      (Inl err, t) \<Rightarrow> abs_open (flags AND SYNCS_TYPE_FORCE \<noteq> 0) x (flags AND SYNCS_TYPE_VAR_MASK) (variables s) = Inl err \<and> t = s
    | (Inr i, t) \<Rightarrow>
        abs_open (flags AND SYNCS_TYPE_FORCE \<noteq> 0) x (flags AND SYNCS_TYPE_VAR_MASK) (variables s) = Inr (variables t) \<and>
        server_inv t \<and> i < SYNCS_EVENT_MAXIMUM \<and> e_id (s_events t i) = x \<and> syncs_find_event t x = Some i \<and>
        variables t x = Some (var_of (s_events t i))"
proof -
  let ?new = "\<lambda>e. e\<lparr>e_data_type := flags AND SYNCS_TYPE_VAR_MASK\<rparr>"
  obtain r t where o: "open_event flags x ?new s = (r, t)" by fastforce
  note ref = open_event_refines [OF assms, of ?new True "flags AND SYNCS_TYPE_VAR_MASK" flags]
  show ?thesis
  proof (cases r)
    case (Inr i)
    have t: "server_inv t" using open_event_inv [OF assms(1), of ?new flags x] by (simp add: o)
    have i: "i < SYNCS_EVENT_MAXIMUM" "e_id (s_events t i) = x"
      using open_event_slot [of flags x ?new s i] by (simp_all add: o Inr)
    then have "syncs_find_event t x = Some i"
      using ev.find_live [OF inv_event_ids [OF t] assms(2)] by simp
    then show ?thesis using ref t i assms(2) by (simp add: o Inr var_of_def variables_find)
  qed (use ref in \<open>simp add: o var_of_def\<close>)
qed

context passive_callbacks
begin

lemma write_refines:
  fixes flags :: u32 and data :: mem
  assumes inv: "server_inv s" and c: "c < SYNCS_CLIENT_MAXIMUM" and x: "live_id x"
    and n: "unat n \<le> SYNCS_VARIABLE_SIZE_MAXIMUM"
  defines "r \<equiv> syncs_client_write call c x flags data n s"
  shows "(fst r, variables (snd r)) =
    abs_write (flags AND SYNCS_TYPE_FORCE \<noteq> 0) x (flags AND SYNCS_TYPE_VAR_MASK) (mem_read data 0 (unat n)) (variables s)"
proof -
  note ref = open_typed_refines [OF inv x, of flags]
  from n show ?thesis
  proof (cases rule: client_write_cases [where flags = flags and x = x and s = s and call = call and c = c and data = data])
    case (accepted i t)
    let ?u = "store_write c i data n t"
    have t: "server_inv t" "i < SYNCS_EVENT_MAXIMUM" "e_id (s_events t i) = x"
      "variables t x = Some (var_of (s_events t i))"
      using ref accepted(1) by simp_all
    have "server_inv (run_cb call x i ?u)"
      using run_cb_inv [OF store_write_inv [OF t(1,2) c n]] .
    then have "quiet ?u (snd r)"
      using quiet_trans [OF run_cb_quiet quiet_send_event [OF inv_event [OF _ t(2)]]] by (simp add: r_def accepted(3))
    then have "variables (snd r) = (variables t)(x \<mapsto> (e_data_type (s_events t i), mem_read data 0 (unat n)))"
      using store_write_variables [OF t(1,2), of c data n] t(3) x by (simp add: variables_quiet)
    then show ?thesis
      using ref accepted t(4) by (simp add: r_def abs_write_def var_of_def)
  qed (use ref in \<open>auto simp: r_def abs_write_def var_of_def\<close>)
qed

end

text \<open>
  A client's write implements its contract on the store of variables. For every live id, every
  flags and every payload of at most 511 bytes, \<open>syncs_client_write\<close> returns the code of the contract and
  leaves the store the contract gives: -1 for an unknown variable without FORCE, -2 with FORCE when
  all 256 entries are in use, -3 when the type differs, nothing changed in these cases; else
  0 with exactly that variable holding exactly those bytes, all other variables untouched.
\<close>

lemma client_write_refines_store:
  fixes flags :: u32 and data :: mem
  assumes "passive_callbacks call" "server_inv s" "c < SYNCS_CLIENT_MAXIMUM" "live_id x"
    "unat n \<le> SYNCS_VARIABLE_SIZE_MAXIMUM"
  shows "(fst (syncs_client_write call c x flags data n s), variables (snd (syncs_client_write call c x flags data n s))) =
    abs_write (flags AND SYNCS_TYPE_FORCE \<noteq> 0) x (flags AND SYNCS_TYPE_VAR_MASK) (mem_read data 0 (unat n)) (variables s)"
  using passive_callbacks.write_refines [OF assms] .

section \<open>Subscriptions\<close>

lemma subscribed_change:
  assumes inv: "server_inv s" and find: "syncs_find_event s x = Some i" and x: "live_id x"
    and ids: "\<And>j. j < SYNCS_EVENT_MAXIMUM \<Longrightarrow> e_id (s_events t j) = e_id (s_events s j)"
    and other: "\<And>j. j \<noteq> i \<Longrightarrow> j < SYNCS_EVENT_MAXIMUM \<Longrightarrow> subscribers (s_events t j) = subscribers (s_events s j)"
    and y: "live_id y"
  shows "subscribed t y = (if y = x then subscribers (s_events t i) else subscribed s y)"
proof -
  have same: "syncs_find_event t z = syncs_find_event s z" for z
    unfolding syncs_find_event_def by (rule first_slot_cong) (simp add: ids)
  show ?thesis
  proof (cases "y = x")
    case False
    have "subscribers (s_events t j) = subscribers (s_events s j)" if "syncs_find_event s y = Some j" for j
      using other [of j] ev.find_Some [OF that] ev.find_Some [OF find] False by metis
    then show ?thesis using False by (auto simp: subscribed_def same split: option.splits)
  qed (simp add: subscribed_def same find)
qed

lemma subscribers_init: "subscribers (syncs_event_init x e) = {}"
  by (auto simp: subscribers_def syncs_event_init_def)

lemma subscribed_open_event:
  assumes inv: "server_inv s" and x: "live_id x" and y: "live_id y"
    and new: "\<And>e. subscribers (new e) = subscribers e" "\<And>e. e_id (new e) = e_id e"
  shows "subscribed (snd (open_event flags x new s)) y = subscribed s y"
proof (cases rule: open_event_cases [where s = s and x = x and flags = flags and new = new])
  case (created i)
  let ?t = "snd (open_event flags x new s)"
  let ?u = "snd (syncs_create_event s x)"
  have i: "\<not> live_id (e_id (s_events s i))" using ev.create_Some [OF created(3)] by simp
  have "(\<lambda>j. e_id (s_events ?t j)) = (\<lambda>j. e_id (s_events ?u j))" using new(2) by (auto simp: created(4))
  then have find: "syncs_find_event ?t y = syncs_find_event ?u y"
    unfolding syncs_find_event_def by (metis (mono_tags, lifting))
  have subs: "subscribers (s_events ?t j) = (if j = i then {} else subscribers (s_events s j))" for j
    using new(1) by (simp add: created(4) create_event_new [OF created(3)] subscribers_init)
  show ?thesis
  proof (cases "y = x")
    case True
    have "syncs_find_event ?u x = Some i" using ev.find_create [OF inv_event_ids [OF inv] created(1) x created(3)] .
    then show ?thesis using True created(1) subs find by (simp add: subscribed_def)
  next
    case False
    have "syncs_find_event ?u y = syncs_find_event s y"
      using ev.find_create_other [OF inv_event_ids [OF inv] created(1) y False] .
    moreover have "j \<noteq> i" if "syncs_find_event s y = Some j" for j using ev.find_Some [OF that] y i by auto
    ultimately show ?thesis by (cases "syncs_find_event s y") (auto simp: subscribed_def find subs)
  qed
qed simp_all

lemma subscribers_type [simp]: "subscribers (e\<lparr>e_data_type := t\<rparr>) = subscribers e"
  by (simp add: subscribers_def)

lemma client_subscribe_effect:
  fixes flags :: u32 and u :: u64
  assumes inv: "server_inv s" and c: "c < SYNCS_CLIENT_MAXIMUM" and x: "live_id x"
  defines "r \<equiv> syncs_client_subscribe c x flags u s"
  shows "(fst r, variables (snd r)) =
      abs_subscribe (flags AND SYNCS_TYPE_FORCE \<noteq> 0) x (flags AND SYNCS_TYPE_VAR_MASK) (variables s)" (is ?store)
    and "live_id y \<Longrightarrow> subscribed (snd r) y = (if y = x \<and> fst r = 0 then insert c (subscribed s y) else subscribed s y)" (is "_ \<Longrightarrow> ?subs")
proof -
  let ?new = "\<lambda>e. e\<lparr>e_data_type := flags AND SYNCS_TYPE_VAR_MASK\<rparr>"
  note ref = open_typed_refines [OF inv x, of flags]
  obtain a t where o: "open_event flags x ?new s = (a, t)" by fastforce
  have sub_t: "subscribed t y = subscribed s y" if "live_id y" for y
    using subscribed_open_event [OF inv x that, of ?new flags] by (simp add: o)
  have "?store \<and> (live_id y \<longrightarrow> ?subs)"
  proof (cases a)
    case (Inl err)
    then show ?thesis
      using ref sub_t by (auto simp: r_def syncs_client_subscribe_def o abs_subscribe_def abs_open_def split: if_splits)
  next
    case (Inr i)
    have t: "server_inv t" "i < SYNCS_EVENT_MAXIMUM" "e_id (s_events t i) = x" "syncs_find_event t x = Some i"
      "variables t x = Some (var_of (s_events t i))"
      using ref by (simp_all add: o Inr)
    let ?v = "snd (syncs_add_client_to_event c i t)"
    note add = add_client_to_event_ok [OF t(1) c t(2)]
    have q: "quiet ?v (if u < e_update_counter (s_events ?v i) then syncs_resend_event c i ?v else ?v)"
      using add inv_event [of ?v i] t(2) by (simp add: quiet_resend_event)
    have ids: "e_id (s_events ?v j) = e_id (s_events t j)" for j
      by (cases "j = i") (simp_all add: add_client_to_event_frame)
    have vars: "variables ?v = variables t"
    proof (rule ext)
      fix z
      have "syncs_find_event ?v z = syncs_find_event t z" by (simp add: syncs_find_event_def ids)
      moreover have "var_of (s_events ?v j) = var_of (s_events t j)" for j
        by (cases "j = i") (simp_all add: add_client_to_event_frame var_of_def)
      ultimately show "variables ?v z = variables t z" by (simp add: variables_def)
    qed
    have subs: "subscribed ?v z = (if z = x then insert c (subscribed t z) else subscribed t z)" if "live_id z" for z
      using subscribed_change [OF t(1,4) x ids _ that] add t(4) by (simp add: add_client_to_event_frame subscribed_def)
    show ?thesis
    proof (cases "types_agree (flags AND SYNCS_TYPE_VAR_MASK) (e_data_type (s_events t i))")
      case True
      then have r: "r = (0, if u < e_update_counter (s_events ?v i) then syncs_resend_event c i ?v else ?v)"
        by (simp add: r_def syncs_client_subscribe_def o Inr types_agree_def Let_def)
      show ?thesis
        using True ref t(5) variables_quiet [OF q] subscribed_quiet [OF q] subs sub_t
        by (simp add: r vars abs_subscribe_def o Inr var_of_def)
    next
      case False
      then have r: "r = (-3, t)"
        by (simp add: r_def syncs_client_subscribe_def o Inr types_agree_def Let_def)
      show ?thesis using False ref t(5) sub_t by (simp add: r abs_subscribe_def o Inr var_of_def)
    qed
  qed
  then show ?store "live_id y \<Longrightarrow> ?subs" by auto
qed

text \<open>
  C25: A client's subscription implements its contract. \<open>syncs_client_subscribe\<close> returns the code the
  contract gives (-1 unknown variable without FORCE, -2 table full, -3 types that do not agree, 0 otherwise), changes
  the store only by creating an empty variable of the asked type under FORCE, and on success adds exactly this
  client to exactly this variable's subscribers; subscribing twice is subscribing once, and there is always a
  place for the client.
\<close>

theorem client_subscribe_contract:
  fixes flags :: u32 and u :: u64
  assumes "server_inv s" "c < SYNCS_CLIENT_MAXIMUM" "live_id x"
  shows "(fst (syncs_client_subscribe c x flags u s), variables (snd (syncs_client_subscribe c x flags u s))) =
      abs_subscribe (flags AND SYNCS_TYPE_FORCE \<noteq> 0) x (flags AND SYNCS_TYPE_VAR_MASK) (variables s) \<and>
    (\<forall>y. live_id y \<longrightarrow> subscribed (snd (syncs_client_subscribe c x flags u s)) y =
       (if y = x \<and> fst (syncs_client_subscribe c x flags u s) = 0 then insert c (subscribed s y) else subscribed s y))"
  using client_subscribe_effect [OF assms] by blast

theorem client_subscribe_contract_witness:
  "fst (syncs_client_subscribe 5 (syncs_idstr (cstr ''a'')) 0x285 0 sample_server) = 0 \<and>
   subscribed (snd (syncs_client_subscribe 5 (syncs_idstr (cstr ''a'')) 0x285 0 sample_server)) (syncs_idstr (cstr ''a'')) = {5}"
  using client_subscribe_contract [OF sample_server_inv _ live_id_a, of 5 "0x285" 0]
  by (simp add: abs_subscribe_def abs_open_def types_agree_def sample_server_variables live_id_a
      subscribed_def [of sample_server] sample_server_find)

section \<open>Unsubscribing and leaving\<close>

lemma client_unsubscribe_effect:
  assumes inv: "server_inv s" and x: "live_id x" and y: "live_id y"
  shows "variables (syncs_client_unsubscribe c x s) = variables s"
    and "subscribed (syncs_client_unsubscribe c x s) y = (if y = x then subscribed s y - {c} else subscribed s y)"
proof -
  let ?t = "syncs_client_unsubscribe c x s"
  have "variables ?t = variables s \<and> subscribed ?t y = (if y = x then subscribed s y - {c} else subscribed s y)"
  proof (cases "syncs_find_event s x")
    case None
    then show ?thesis by (simp add: syncs_client_unsubscribe_def subscribed_def)
  next
    case (Some i)
    have t: "s_events ?t = (s_events s)(i := drop_consumer c (s_events s i))"
      by (simp add: syncs_client_unsubscribe_def Some remove_client_from_event_eq)
    have ids: "e_id (s_events ?t j) = e_id (s_events s j)" for j by (simp add: t)
    have "variables ?t z = variables s z" for z
    proof -
      have "syncs_find_event ?t z = syncs_find_event s z" by (simp add: syncs_find_event_def ids)
      moreover have "var_of (s_events ?t j) = var_of (s_events s j)" for j by (simp add: t var_of_def)
      ultimately show ?thesis by (simp add: variables_def)
    qed
    moreover have "subscribed ?t y = (if y = x then subscribers (s_events ?t i) else subscribed s y)"
      by (rule subscribed_change [OF inv Some x ids _ y]) (simp add: t)
    moreover have "subscribers (s_events ?t i) = subscribed s x - {c}"
      using drop_consumer_ok(2) [of "s_events s i" c] inv_event [OF inv] ev.find_Some [OF Some]
      by (simp add: t subscribed_def Some)
    ultimately show ?thesis by auto
  qed
  then show "variables ?t = variables s" "subscribed ?t y = (if y = x then subscribed s y - {c} else subscribed s y)"
    by auto
qed

text \<open>
  Unsubscribing undoes subscribing and nothing else. After \<open>syncs_client_unsubscribe\<close> the client is not
  among the variable's subscribers, all other subscriptions of all variables and all values are as they were.
\<close>

lemma client_unsubscribe_contract:
  assumes "server_inv s" "live_id x" "live_id y"
  shows "variables (syncs_client_unsubscribe c x s) = variables s \<and>
    subscribed (syncs_client_unsubscribe c x s) y = (if y = x then subscribed s y - {c} else subscribed s y)"
  using client_unsubscribe_effect [OF assms] by blast

lemma close_client_find:
  assumes "server_inv s" "c < SYNCS_CLIENT_MAXIMUM"
  shows "syncs_find_event (syncs_close_client_socket c s) x = syncs_find_event s x"
  unfolding syncs_find_event_def by (rule first_slot_cong) (simp add: close_client_ids [OF assms])

lemma close_client_variables:
  assumes "server_inv s" "c < SYNCS_CLIENT_MAXIMUM"
  shows "variables (syncs_close_client_socket c s) = variables s"
proof
  fix x
  show "variables (syncs_close_client_socket c s) x = variables s x"
    using close_client_eq(3) [OF assms] ev.find_Some [of s x]
    by (cases "syncs_find_event s x") (auto simp: variables_def close_client_find [OF assms] var_of_def)
qed



end
