(* ===== verification/Server_Api.thy ===== *)
theory Server_Api
  imports Server_Store
begin

unbundle bit_operations_syntax

text \<open>
  The server's own API on variables: \<open>syncs_server_write\<close> and its typed forms, \<open>syncs_server_read\<close> and its
  typed forms, \<open>syncs_server_define\<close>, \<open>syncs_server_undefine\<close>. Each is shown to act on the store of variables
  as its contract says, and what was written is what is read.
\<close>

section \<open>Writing\<close>

definition write_size :: "u32 \<Rightarrow> u32 \<Rightarrow> u32" where
  "write_size flags n = (if n = 0 then syncs_get_size_by_type flags else n)"

lemma write_size_le: "unat n \<le> SYNCS_VARIABLE_SIZE_MAXIMUM \<Longrightarrow> unat (write_size flags n) \<le> SYNCS_VARIABLE_SIZE_MAXIMUM"
  using size_by_type_le [of flags] by (simp add: write_size_def)

lemma open_plain_refines:
  assumes "server_inv s" "live_id x"
  shows "case open_event flags x (\<lambda>e. e) s of
      (Inl err, t) \<Rightarrow> abs_open (flags AND SYNCS_TYPE_FORCE \<noteq> 0) x 0 (variables s) = Inl err \<and> t = s
    | (Inr i, t) \<Rightarrow> abs_open (flags AND SYNCS_TYPE_FORCE \<noteq> 0) x 0 (variables s) = Inr (variables t) \<and>
        server_inv t \<and> i < SYNCS_EVENT_MAXIMUM \<and> e_id (s_events t i) = x \<and>
        variables t x = Some (var_of (s_events t i))"
proof -
  obtain r t where o: "open_event flags x (\<lambda>e. e) s = (r, t)" by fastforce
  note ref = open_event_refines [OF assms, of "\<lambda>e. e" False 0 flags]
  show ?thesis
  proof (cases r)
    case (Inr i)
    have t: "server_inv t" using open_event_inv [OF assms(1), of "\<lambda>e. e" flags x] by (simp add: o)
    have i: "i < SYNCS_EVENT_MAXIMUM" "e_id (s_events t i) = x"
      using open_event_slot [of flags x "\<lambda>e. e" s i] by (simp_all add: o Inr)
    then have "syncs_find_event t x = Some i"
      using ev.find_live [OF inv_event_ids [OF t] assms(2)] by simp
    then show ?thesis using ref t i assms(2) by (simp add: o Inr var_of_def variables_find)
  qed (use ref in \<open>simp add: o var_of_def\<close>)
qed

lemma server_write_refines:
  fixes flags :: u32 and data :: mem
  assumes inv: "server_inv s" and x: "live_id (syncs_idstr cid)" and n: "unat n \<le> SYNCS_VARIABLE_SIZE_MAXIMUM"
  defines "r \<equiv> syncs_server_write flags cid data n s"
  shows "(fst r, variables (snd r)) =
    abs_server_write (flags AND SYNCS_TYPE_FORCE \<noteq> 0) (syncs_idstr cid) (mem_read data 0 (unat (write_size flags n))) (variables s)"
proof -
  let ?x = "syncs_idstr cid"
  let ?n = "write_size flags n"
  note ref = open_plain_refines [OF inv x, of flags]
  obtain a t where o: "open_event flags ?x (\<lambda>e. e) s = (a, t)" by fastforce
  show ?thesis
  proof (cases a)
    case (Inl err)
    then show ?thesis using ref by (simp add: r_def syncs_server_write_def o abs_server_write_def)
  next
    case (Inr i)
    have t: "server_inv t" "i < SYNCS_EVENT_MAXIMUM" "e_id (s_events t i) = ?x"
      "variables t ?x = Some (var_of (s_events t i))"
      using ref by (simp_all add: o Inr)
    define f where "f e = e\<lparr>e_data := mem_copy 0 data (unat ?n) (e_data e), e_data_size := ?n\<rparr>" for e :: syncs_event
    define g where "g e = (if e_producer e \<noteq> None
      then e\<lparr>e_producer := None, e_producers_count := e_producers_count e + 1\<rparr> else e)" for e :: syncs_event
    have ok: "event_ok (g (f (s_events t i)))"
      using inv_event [OF t(1,2)] write_size_le [OF n, of flags]
      by (auto simp: f_def g_def event_ok_store event_ok_no_producer)
    have "upd_event i (\<lambda>e. g (f e)) t = (if e_producer (s_events t i) \<noteq> None
        then upd_event i (\<lambda>e. e\<lparr>e_producer := None, e_producers_count := e_producers_count e + 1\<rparr>) (upd_event i f t)
        else upd_event i f t)"
      by (simp add: upd_event_def g_def f_def)
    then have r: "r = (0, syncs_send_event i flags (upd_event i (\<lambda>e. g (f e)) t))"
      using write_size_le [OF n, of flags]
      by (simp add: r_def syncs_server_write_def o Inr Let_def write_size_def [symmetric] quiet_fault_if f_def [symmetric])
    have "quiet (upd_event i (\<lambda>e. g (f e)) t) (snd r)"
      using quiet_send_event [of "upd_event i (\<lambda>e. g (f e)) t" i flags] ok by (simp add: r)
    moreover have "variables (upd_event i (\<lambda>e. g (f e)) t) = (variables t)(?x \<mapsto> var_of (g (f (s_events t i))))"
      using variables_upd_event [OF t(1,2), of "\<lambda>e. g (f e)"] t(3) x by (simp add: g_def f_def)
    moreover have "var_of (g (f (s_events t i))) = (e_data_type (s_events t i), mem_read data 0 (unat ?n))"
      by (simp add: g_def f_def var_of_def mem_simps)
    ultimately show ?thesis
      using ref t(4) by (simp add: variables_quiet r abs_server_write_def o Inr var_of_def)
  qed
qed

section \<open>Reading\<close>

lemma server_read_store:
  assumes inv: "server_inv s" and x: "live_id (syncs_idstr cid)"
  shows "syncs_server_read flags cid n s =
    (case variables s (syncs_idstr cid) of
       None \<Rightarrow> (-1, [], n)
     | Some (t, d) \<Rightarrow> (0, take (unat n) d, if unat n > length d then of_nat (length d) else n))"
proof (cases "syncs_find_event s (syncs_idstr cid)")
  case (Some i)
  then have "variables s (syncs_idstr cid) = Some (var_of (s_events s i))" using x by (simp add: variables_find)
  then show ?thesis
    by (auto simp: syncs_server_read_def Some var_of_def Let_def take_mem_read word_less_nat_alt min_def)
qed (simp add: syncs_server_read_def variables_def)

lemma server_write_then_read:
  assumes inv: "server_inv s" and x: "live_id (syncs_idstr cid)" and n: "unat n \<le> SYNCS_VARIABLE_SIZE_MAXIMUM"
    and ok: "fst (syncs_server_write flags cid data n s) = 0"
  shows "syncs_server_read flags' cid m (snd (syncs_server_write flags cid data n s)) =
    (0, mem_read data 0 (min (unat m) (unat (write_size flags n))),
     if m > write_size flags n then write_size flags n else m)"
proof -
  let ?t = "snd (syncs_server_write flags cid data n s)"
  have "server_inv ?t" using server_write_inv [OF inv n] .
  moreover obtain ty where "variables ?t (syncs_idstr cid) = Some (ty, mem_read data 0 (unat (write_size flags n)))"
    using server_write_refines [OF inv x n, of flags data] ok
    by (auto simp: abs_server_write_def abs_open_def split: if_splits sum.splits)
  ultimately show ?thesis
    using server_read_store [OF _ x, of ?t flags' m] by (simp add: take_mem_read word_less_nat_alt)
qed

text \<open>
  The server's own write implements its contract on the store of variables: like a client's
  write, but it keeps the type the variable has (0 when FORCE creates it) and never compares types. A
  size of 0 stands for the size of the type in the flags.
\<close>

lemma server_write_refines_store:
  fixes flags :: u32 and data :: mem
  assumes "server_inv s" "live_id (syncs_idstr cid)" "unat n \<le> SYNCS_VARIABLE_SIZE_MAXIMUM"
  shows "(fst (syncs_server_write flags cid data n s), variables (snd (syncs_server_write flags cid data n s))) =
    abs_server_write (flags AND SYNCS_TYPE_FORCE \<noteq> 0) (syncs_idstr cid)
      (mem_read data 0 (unat (if n = 0 then syncs_get_size_by_type flags else n))) (variables s)"
  using server_write_refines [OF assms] by (simp add: write_size_def)

section \<open>What is written is what is read\<close>

lemma size_of_typed:
  "flags AND SYNCS_TYPE_VAR_MASK = 0 \<Longrightarrow> write_size (flags OR SYNCS_TYPE_VAR_INT32) 0 = 4"
  "flags AND SYNCS_TYPE_VAR_MASK = 0 \<Longrightarrow> write_size (flags OR SYNCS_TYPE_VAR_FLOAT) 0 = 4"
  "flags AND SYNCS_TYPE_VAR_MASK = 0 \<Longrightarrow> write_size (flags OR SYNCS_TYPE_VAR_INT64) 0 = 8"
  "flags AND SYNCS_TYPE_VAR_MASK = 0 \<Longrightarrow> write_size (flags OR SYNCS_TYPE_VAR_DOUBLE) 0 = 8"
  by (simp_all add: write_size_def syncs_get_size_by_type_def Let_def bit.conj_disj_distrib2)

lemma le_bytes_readback: "n = length bs \<Longrightarrow> mem_read (mem_of bs) 0 n = bs"
  by (simp add: mem_read_mem_of)

lemma api_roundtrips:
  assumes "server_inv s" "live_id (syncs_idstr cid)" "flags AND SYNCS_TYPE_VAR_MASK = 0"
  shows "fst (syncs_server_write_int32 flags cid v s) = 0 \<Longrightarrow>
      syncs_server_read_int32 flags' cid (snd (syncs_server_write_int32 flags cid v s)) = (0, le_bytes 4 v, 4)"
    and "fst (syncs_server_write_int64 flags cid w s) = 0 \<Longrightarrow>
      syncs_server_read_int64 flags' cid (snd (syncs_server_write_int64 flags cid w s)) = (0, le_bytes 8 w, 8)"
    and "fst (syncs_server_write_float flags cid v s) = 0 \<Longrightarrow>
      syncs_server_read_float flags' cid (snd (syncs_server_write_float flags cid v s)) = (0, le_bytes 4 v, 4)"
    and "fst (syncs_server_write_double flags cid w s) = 0 \<Longrightarrow>
      syncs_server_read_double flags' cid (snd (syncs_server_write_double flags cid w s)) = (0, le_bytes 8 w, 8)"
    and "fst (syncs_server_write_str flags cid str s) = 0 \<Longrightarrow> length (c_str str) < SYNCS_VARIABLE_SIZE_MAXIMUM \<Longrightarrow>
      syncs_server_read_str flags' cid 511 (snd (syncs_server_write_str flags cid str s))
        = (0, c_str str @ [0], of_nat (length (c_str str) + 1))"
proof -
  note wr = server_write_then_read [OF assms(1,2)]
  note sz = size_of_typed [OF assms(3)]
  show "fst (syncs_server_write_int32 flags cid v s) = 0 \<Longrightarrow>
      syncs_server_read_int32 flags' cid (snd (syncs_server_write_int32 flags cid v s)) = (0, le_bytes 4 v, 4)"
    unfolding syncs_server_write_int32_def syncs_server_read_int32_def using wr [of 0] by (simp add: sz le_bytes_readback)
  show "fst (syncs_server_write_int64 flags cid w s) = 0 \<Longrightarrow>
      syncs_server_read_int64 flags' cid (snd (syncs_server_write_int64 flags cid w s)) = (0, le_bytes 8 w, 8)"
    unfolding syncs_server_write_int64_def syncs_server_read_int64_def using wr [of 0] by (simp add: sz le_bytes_readback)
  show "fst (syncs_server_write_float flags cid v s) = 0 \<Longrightarrow>
      syncs_server_read_float flags' cid (snd (syncs_server_write_float flags cid v s)) = (0, le_bytes 4 v, 4)"
    unfolding syncs_server_write_float_def syncs_server_read_float_def using wr [of 0] by (simp add: sz le_bytes_readback)
  show "fst (syncs_server_write_double flags cid w s) = 0 \<Longrightarrow>
      syncs_server_read_double flags' cid (snd (syncs_server_write_double flags cid w s)) = (0, le_bytes 8 w, 8)"
    unfolding syncs_server_write_double_def syncs_server_read_double_def using wr [of 0] by (simp add: sz le_bytes_readback)
  show "fst (syncs_server_write_str flags cid str s) = 0 \<Longrightarrow> length (c_str str) < SYNCS_VARIABLE_SIZE_MAXIMUM \<Longrightarrow>
      syncs_server_read_str flags' cid 511 (snd (syncs_server_write_str flags cid str s))
        = (0, c_str str @ [0], of_nat (length (c_str str) + 1))"
  proof -
    assume ok: "fst (syncs_server_write_str flags cid str s) = 0" and len: "length (c_str str) < SYNCS_VARIABLE_SIZE_MAXIMUM"
    define n :: u32 where "n = of_nat (length (c_str str) + 1)"
    have n: "unat n = length (c_str str) + 1"
      unfolding n_def using len by (intro unat_of_nat_small) simp
    then have "n \<noteq> 0" "unat n \<le> SYNCS_VARIABLE_SIZE_MAXIMUM" using len by auto
    then have "write_size (flags OR SYNCS_TYPE_VAR_STRING) n = n"
      by (simp add: write_size_def)
    have "n \<le> 511" using \<open>unat n \<le> _\<close> by (simp add: word_le_nat_alt)
    then have "\<not> n < 511 \<longrightarrow> n = 511" by auto
    with \<open>write_size _ n = n\<close> show ?thesis
      using ok wr [of n "flags OR SYNCS_TYPE_VAR_STRING" "mem_of (c_str str @ [0])" "flags' OR SYNCS_TYPE_VAR_STRING" 511]
        len n \<open>unat n \<le> _\<close>
      unfolding syncs_server_write_str_def syncs_server_read_str_def n_def [symmetric]
      by (simp add: le_bytes_readback)
  qed
qed

text \<open>
  C27: Typed values survive a write and a read through the server's API. When a write of an integer
  or of a string of at most 510 characters succeeds, the matching read returns 0, the same value,
  and its size; a string comes back with its terminator.
\<close>

theorem server_api_roundtrip:
  assumes "server_inv s" "live_id (syncs_idstr cid)" "flags AND SYNCS_TYPE_VAR_MASK = 0"
  shows "(fst (syncs_server_write_int32 flags cid v s) = 0 \<longrightarrow>
      syncs_server_read_int32 flags' cid (snd (syncs_server_write_int32 flags cid v s)) = (0, le_bytes 4 v, 4)) \<and>
    (fst (syncs_server_write_int64 flags cid w s) = 0 \<longrightarrow>
      syncs_server_read_int64 flags' cid (snd (syncs_server_write_int64 flags cid w s)) = (0, le_bytes 8 w, 8)) \<and>
    (fst (syncs_server_write_float flags cid v s) = 0 \<longrightarrow>
      syncs_server_read_float flags' cid (snd (syncs_server_write_float flags cid v s)) = (0, le_bytes 4 v, 4)) \<and>
    (fst (syncs_server_write_double flags cid w s) = 0 \<longrightarrow>
      syncs_server_read_double flags' cid (snd (syncs_server_write_double flags cid w s)) = (0, le_bytes 8 w, 8)) \<and>
    (fst (syncs_server_write_str flags cid str s) = 0 \<and> length (c_str str) < SYNCS_VARIABLE_SIZE_MAXIMUM \<longrightarrow>
      syncs_server_read_str flags' cid 511 (snd (syncs_server_write_str flags cid str s))
        = (0, c_str str @ [0], of_nat (length (c_str str) + 1)))"
  using api_roundtrips [OF assms] by blast

theorem server_api_roundtrip_witness:
  "syncs_server_read_int32 0 (cstr ''a'') (snd (syncs_server_write_int32 0x80 (cstr ''a'') 0x12345678 sample_server))
     = (0, le_bytes 4 (0x12345678 :: u32), 4)"
proof -
  have "fst (syncs_server_write_int32 0x80 (cstr ''a'') 0x12345678 sample_server) = 0"
    using server_write_refines [OF sample_server_inv live_id_a, of 0 "0x280" "mem_of (le_bytes 4 (0x12345678 :: u32))"]
    by (simp add: syncs_server_write_int32_def abs_server_write_def abs_open_def sample_server_variables)
  then show ?thesis
    using server_api_roundtrip [OF sample_server_inv live_id_a, of "0x80"] by simp
qed

section \<open>Definitions\<close>

lemma define_assign_var:
  "\<exists>d. var_of (define_assign flags data n e) = (flags AND SYNCS_TYPE_VAR_MASK, d) \<and> length d = unat (define_size flags n) \<and>
     (\<forall>m. data = Some m \<longrightarrow> d = mem_read m 0 (unat (define_size flags n)))"
  by (cases data) (simp_all add: var_of_def define_assign_def Let_def mem_simps)

lemma add_event_effect:
  assumes inv: "server_inv s" and x: "live_id x"
  shows "x \<in> dom (variables s) \<and> flags AND SYNCS_TYPE_FORCE = 0 \<Longrightarrow> syncs_add_event x flags data n s = (-2, s)"
    and "x \<notin> dom (variables s) \<and> card (dom (variables s)) = SYNCS_EVENT_MAXIMUM \<Longrightarrow> syncs_add_event x flags data n s = (-1, s)"
    and "(if x \<in> dom (variables s) then flags AND SYNCS_TYPE_FORCE \<noteq> 0 else card (dom (variables s)) \<noteq> SYNCS_EVENT_MAXIMUM) \<Longrightarrow>
      \<exists>d. fst (syncs_add_event x flags data n s) = 0 \<and>
        variables (snd (syncs_add_event x flags data n s)) = (variables s)(x \<mapsto> (flags AND SYNCS_TYPE_VAR_MASK, d)) \<and>
        length d = unat (define_size flags n) \<and> (\<forall>m. data = Some m \<longrightarrow> d = mem_read m 0 (unat (define_size flags n)))"
proof -
  have dom: "x \<in> dom (variables s) \<longleftrightarrow> syncs_find_event s x \<noteq> None" using x by (auto simp: variables_def)
  show "x \<in> dom (variables s) \<and> flags AND SYNCS_TYPE_FORCE = 0 \<Longrightarrow> syncs_add_event x flags data n s = (-2, s)"
    by (auto simp: dom add_event_eq)
  show "x \<notin> dom (variables s) \<and> card (dom (variables s)) = SYNCS_EVENT_MAXIMUM \<Longrightarrow> syncs_add_event x flags data n s = (-1, s)"
    using table_full [OF inv, of x] ev.create_None_same [of s x]
    by (cases "syncs_create_event s x") (auto simp: dom add_event_eq)
  assume go: "if x \<in> dom (variables s) then flags AND SYNCS_TYPE_FORCE \<noteq> 0 else card (dom (variables s)) \<noteq> SYNCS_EVENT_MAXIMUM"
  obtain i t where t: "syncs_add_event x flags data n s = (0, upd_event i (define_assign flags data n) t)"
    and it: "server_inv t" "i < SYNCS_EVENT_MAXIMUM" "e_id (s_events t i) = x"
      "\<And>v. (variables t)(x \<mapsto> v) = (variables s)(x \<mapsto> v)"
  proof (cases "syncs_find_event s x")
    case None
    then obtain i where i: "fst (syncs_create_event s x) = Some i" using go table_full [OF inv, of x] by (auto simp: dom)
    let ?t = "snd (syncs_create_event s x)"
    have "syncs_add_event x flags data n s = (0, upd_event i (define_assign flags data n) ?t)"
      using i by (cases "syncs_create_event s x") (simp add: add_event_eq None)
    moreover have "i < SYNCS_EVENT_MAXIMUM" "e_id (s_events ?t i) = x"
      using ev.create_Some [OF i] by (auto dest: fun_cong [of _ _ i])
    ultimately show ?thesis
      using that [of i ?t] create_event_inv [OF inv None] variables_create_event [OF inv None x i] by simp
  next
    case (Some i)
    then show ?thesis using that [of i s] go inv ev.find_Some [OF Some] by (simp add: dom add_event_eq)
  qed
  show "\<exists>d. fst (syncs_add_event x flags data n s) = 0 \<and>
        variables (snd (syncs_add_event x flags data n s)) = (variables s)(x \<mapsto> (flags AND SYNCS_TYPE_VAR_MASK, d)) \<and>
        length d = unat (define_size flags n) \<and> (\<forall>m. data = Some m \<longrightarrow> d = mem_read m 0 (unat (define_size flags n)))"
    using define_assign_var [of flags data n "s_events t i"] define_assign_ok(2) [OF inv_event [OF it(1,2)]] x
    by (auto simp: t variables_upd_event [OF it(1,2)] it(3,4))
qed



lemma finite_variables: "finite (dom (variables s))"
proof (rule finite_subset)
  show "dom (variables s) \<subseteq> (\<lambda>i. e_id (s_events s i)) ` {..<SYNCS_EVENT_MAXIMUM}"
  proof
    fix x
    assume "x \<in> dom (variables s)"
    then obtain i where "i < SYNCS_EVENT_MAXIMUM" "e_id (s_events s i) = x" unfolding variables_dom by blast
    then show "x \<in> (\<lambda>i. e_id (s_events s i)) ` {..<SYNCS_EVENT_MAXIMUM}" by auto
  qed
qed simp

text \<open>
  Removing a variable. After \<open>syncs_server_undefine\<close> the variable is gone from the store, every other
  variable is untouched, and the entry is free for the next definition: right after it a definition of any new
  name succeeds.
\<close>

lemma server_undefine_contract:
  assumes "server_inv s" "live_id (syncs_idstr cid)" "syncs_idstr cid \<in> dom (variables s)"
    "live_id (syncs_idstr cid')" "syncs_idstr cid' \<notin> dom (variables s)" "unat n \<le> 511"
  shows "variables (syncs_server_undefine cid s) = (variables s)(syncs_idstr cid := None) \<and>
    fst (syncs_server_define cid' flags data n (syncs_server_undefine cid s)) = 0"
proof -
  let ?t = "syncs_server_undefine cid s"
  have t: "variables ?t = (variables s)(syncs_idstr cid := None)" "server_inv ?t"
    using variables_free_event [OF assms(1,2)] server_undefine_inv [OF assms(1)] by (simp_all add: syncs_server_undefine_def)
  have "card (dom (variables s)) \<le> SYNCS_EVENT_MAXIMUM"
    using card_variables [OF assms(1)] count_slots_le by metis
  moreover note fin = finite_variables [of s]
  moreover have "dom (variables ?t) = dom (variables s) - {syncs_idstr cid}" by (simp add: t(1))
  ultimately have "card (dom (variables ?t)) \<noteq> SYNCS_EVENT_MAXIMUM"
    using assms(3) card_Diff1_less [OF fin assms(3)] by simp
  moreover have "syncs_idstr cid' \<notin> dom (variables ?t)" using assms(5) by (simp add: t(1))
  ultimately have "\<exists>d. fst (syncs_add_event (syncs_idstr cid') flags data n ?t) = 0 \<and>
      variables (snd (syncs_add_event (syncs_idstr cid') flags data n ?t))
        = (variables ?t)(syncs_idstr cid' \<mapsto> (flags AND SYNCS_TYPE_VAR_MASK, d)) \<and>
      length d = unat (define_size flags n) \<and> (\<forall>m. data = Some m \<longrightarrow> d = mem_read m 0 (unat (define_size flags n)))"
    by (intro add_event_effect(3) [OF t(2) assms(4)]) simp
  then show ?thesis using assms(6) t(1) by (auto simp: syncs_server_define_def)
qed

end
