(* ===== verification/Server_Delivery.thy ===== *)
theory Server_Delivery
  imports Server_Store
begin

unbundle bit_operations_syntax

text \<open>
  What clients receive: which clients an event goes to, and the exact bytes of events, lost events and
  answers to reads, when the network takes what is sent. A packet on the wire is its header followed by the
  data, \<open>header_bytes h @ d\<close>.
\<close>

section \<open>Packets on the wire\<close>

lemma packet_size_small:
  assumes "h_data_size (p_header p) = ucast n" "unat (n :: u32) \<le> SYNCS_VARIABLE_SIZE_MAXIMUM"
  shows "SYNCS_PACKET_SIZE p = sizeof_syncs_header + unat n"
proof -
  have b: "bit n k \<Longrightarrow> k < 9" for k using small_bit [of n 9] assms(2) by simp
  have m: "(0x0fff :: u32) = mask 12" by (simp add: mask_eq_exp_minus_1)
  have "SYNCS_PACKET_DATA_SIZE (ucast (ucast n :: u16)) = n"
    unfolding SYNCS_PACKET_DATA_SIZE_def m by (rule bit_word_eqI) (fastforce simp: bit_simps dest: b)
  then show ?thesis by (simp add: SYNCS_PACKET_SIZE_def assms(1))
qed

lemma packet_on_wire:
  assumes "h_data_size (p_header p) = ucast n" "unat (n :: u32) \<le> SYNCS_VARIABLE_SIZE_MAXIMUM"
  shows "packet_bytes p (SYNCS_PACKET_SIZE p) = header_bytes (p_header p) @ mem_read (p_buffer p) 0 (unat n)"
  by (simp add: packet_size_small [OF assms] packet_bytes_split)

lemma event_packet_on_wire:
  assumes "unat (e_data_size e) \<le> SYNCS_VARIABLE_SIZE_MAXIMUM" "h_data_size h = ucast (e_data_size e)"
  shows "packet_bytes ((event_packet type e p)\<lparr>p_header := h\<rparr>) (SYNCS_PACKET_SIZE ((event_packet type e p)\<lparr>p_header := h\<rparr>))
    = header_bytes h @ snd (var_of e)"
proof -
  let ?p = "(event_packet type e p)\<lparr>p_header := h\<rparr>"
  have "mem_read (p_buffer ?p) 0 (unat (e_data_size e)) = snd (var_of e)"
    by (simp add: event_packet_def var_of_def mem_read_copy)
  then show ?thesis using packet_on_wire [of ?p "e_data_size e"] assms by simp
qed

section \<open>Who receives an event\<close>

definition turn_target :: "u32 \<Rightarrow> syncs_event \<Rightarrow> nat \<Rightarrow> nat list" where
  "turn_target flags e k =
     (case e_consumers e k of
         None \<Rightarrow> []
       | Some c \<Rightarrow> if e_producer e = Some c \<and> flags AND SYNCS_TYPE_ECHO = 0 then [] else [c])"

definition event_targets :: "u32 \<Rightarrow> syncs_event \<Rightarrow> nat list" where
  "event_targets flags e = concat (map (turn_target flags e) [0..<SYNCS_CLIENT_MAXIMUM])"

lemma set_event_targets:
  "set (event_targets flags e) = subscribers e - (if flags AND SYNCS_TYPE_ECHO = 0 then set_option (e_producer e) else {})"
proof (rule set_eqI)
  fix c
  have "c \<in> set (turn_target flags e k) \<longleftrightarrow>
      e_consumers e k = Some c \<and> \<not> (e_producer e = Some c \<and> flags AND SYNCS_TYPE_ECHO = 0)" for k
    by (auto simp: turn_target_def split: option.splits)
  then have "c \<in> set (event_targets flags e) \<longleftrightarrow> (\<exists>k<SYNCS_CLIENT_MAXIMUM. e_consumers e k = Some c) \<and>
      \<not> (e_producer e = Some c \<and> flags AND SYNCS_TYPE_ECHO = 0)"
    unfolding event_targets_def set_concat set_map by auto
  then show "c \<in> set (event_targets flags e) \<longleftrightarrow>
      c \<in> subscribers e - (if flags AND SYNCS_TYPE_ECHO = 0 then set_option (e_producer e) else {})"
    by (auto simp: subscribers_def)
qed

lemma distinct_concat_slots:
  assumes "inj_on f {k. k < n \<and> f k \<noteq> None}"
    and "\<And>k. g k = [] \<or> (\<exists>c. f k = Some c \<and> g k = [c])"
  shows "distinct (concat (map g [0..<n]))"
  using assms(1)
proof (induction n)
  case (Suc n)
  have "inj_on f {k. k < n \<and> f k \<noteq> None}" by (rule inj_on_subset [OF Suc.prems]) auto
  note IH = Suc.IH [OF this]
  have "c \<notin> set (concat (map g [0..<n]))" if "g n = [c]" for c
  proof
    assume "c \<in> set (concat (map g [0..<n]))"
    then obtain k where k: "k < n" "c \<in> set (g k)" by auto
    then have "f k = Some c" "f n = Some c" using assms(2) [of k] assms(2) [of n] that by auto
    then have "k = n" using k(1) by (intro inj_onD [OF Suc.prems]) auto
    then show False using k(1) by simp
  qed
  then show ?case using IH assms(2) [of n] by auto
qed simp

lemma distinct_event_targets: "event_ok e \<Longrightarrow> distinct (event_targets flags e)"
  unfolding event_targets_def
  by (rule distinct_concat_slots [OF event_ok_inj]) (auto simp: turn_target_def split: option.splits)

lemma send_event_loop:
  "fold (send_event_turn i flags packet) ks s =
     fold (send_event_to packet) (concat (map (turn_target flags (s_events s i)) ks)) s"
proof (induction ks arbitrary: s)
  case (Cons k ks)
  have "s_events (send_event_turn i flags packet k s) = s_events s"
    using quiet_frame(1) [OF quiet_send_event_turn] .
  moreover have "send_event_turn i flags packet k s = fold (send_event_to packet) (turn_target flags (s_events s i) k) s"
    by (simp add: send_event_turn_def turn_target_def split: option.split)
  ultimately show ?case by (simp add: Cons)
qed simp

text \<open>What a list of sends puts on the network when the network takes it.\<close>

definition stream_to :: "syncs_server \<Rightarrow> byte list \<Rightarrow> nat list \<Rightarrow> (int \<times> byte list) list" where
  "stream_to s bs cs = map (\<lambda>c. (c_socketfd (s_clients s c), bs)) (filter (\<lambda>c. c_socketfd (s_clients s c) > -1) cs)"

definition dgram_to :: "syncs_server \<Rightarrow> byte list \<Rightarrow> nat list \<Rightarrow> (int \<times> sockaddr_in \<times> byte list) list" where
  "dgram_to s bs cs = map (\<lambda>c. (s_usocketfd s, c_addr (s_clients s c), bs)) (filter (\<lambda>c. c_socketfd (s_clients s c) = UDP_SOCKET_STUB) cs)"

lemma client_send_ideal:
  assumes "os_script (s_os s) = []"
  shows "s_os (snd (syncs_client_send c packet s)) =
    (s_os s)\<lparr>os_sent := os_sent (s_os s) @ stream_to s (packet_bytes packet (SYNCS_PACKET_SIZE packet)) [c],
      os_dgram := os_dgram (s_os s) @ dgram_to s (packet_bytes packet (SYNCS_PACKET_SIZE packet)) [c]\<rparr>"
  using assms by (auto simp: syncs_client_send_def Let_def blocking_send_ideal syncs_udp_send_def stream_to_def dgram_to_def)

lemma s_os_count_tx [simp]: "s_os (count_tx c s) = s_os s" "s_usocketfd (count_tx c s) = s_usocketfd s"
  "c_socketfd (s_clients (count_tx c s) d) = c_socketfd (s_clients s d)" "c_addr (s_clients (count_tx c s) d) = c_addr (s_clients s d)"
  by (simp_all add: count_tx_def)

lemma send_event_to_ideal:
  assumes "os_script (s_os s) = []"
  shows "s_os (send_event_to packet c s) =
    (s_os s)\<lparr>os_sent := os_sent (s_os s) @ stream_to s (packet_bytes packet (SYNCS_PACKET_SIZE packet)) [c],
      os_dgram := os_dgram (s_os s) @ dgram_to s (packet_bytes packet (SYNCS_PACKET_SIZE packet)) [c]\<rparr>"
proof -
  obtain ret u where u: "syncs_client_send c packet (count_tx c s) = (ret, u)" by fastforce
  have "s_os (send_event_to packet c s) = s_os u" by (simp add: send_event_to_def u)
  then show ?thesis
    using client_send_ideal [of "count_tx c s" c packet] assms by (simp add: u stream_to_def dgram_to_def)
qed

lemma send_list_ideal:
  assumes "os_script (s_os s) = []"
  shows "s_os (fold (send_event_to packet) cs s) =
    (s_os s)\<lparr>os_sent := os_sent (s_os s) @ stream_to s (packet_bytes packet (SYNCS_PACKET_SIZE packet)) cs,
      os_dgram := os_dgram (s_os s) @ dgram_to s (packet_bytes packet (SYNCS_PACKET_SIZE packet)) cs\<rparr>"
  using assms
proof (induction cs arbitrary: s)
  case Nil
  then show ?case by (simp add: stream_to_def dgram_to_def)
next
  case (Cons c cs)
  have q: "quiet s (send_event_to packet c s)" by (rule quiet_send_event_to)
  show ?case
    using Cons send_event_to_ideal [OF Cons.prems, of packet c]
    by (simp add: stream_to_def dgram_to_def quiet_client [OF q] quiet_frame [OF q])
qed

section \<open>Events\<close>

text \<open>A header that announces \<open>n\<close> bytes of data of the variable \<open>x\<close>, and that a receiver recognises.\<close>

definition data_header :: "syncsid \<Rightarrow> u32 \<Rightarrow> nat \<Rightarrow> syncs_header \<Rightarrow> bool" where
  "data_header x type n h \<longleftrightarrow>
     h_magic h = SYNCS_PACKET_MAGIC \<and> h_magic_data h = SYNCS_PACKET_MAGIC_DATA \<and> h_id h = x \<and>
     h_type h = type \<and> unat (h_data_size h) = n"

lemma event_packet_header:
  assumes "unat (e_data_size e) \<le> SYNCS_VARIABLE_SIZE_MAXIMUM"
  shows "data_header (e_id e) type (unat (e_data_size e)) (p_header (event_packet type e p))"
    and "h_data_size (p_header (event_packet type e p)) = ucast (e_data_size e)"
proof -
  have "unat (ucast (e_data_size e) :: u16) = unat (e_data_size e)"
    using assms by (intro unat_ucast_small) simp
  then show "data_header (e_id e) type (unat (e_data_size e)) (p_header (event_packet type e p))"
    by (simp add: data_header_def event_packet_def syncs_fill_header_def syncs_fill_basic_header_def Let_def)
qed (simp add: event_packet_def)

definition event_type :: "u32 \<Rightarrow> u32 \<Rightarrow> u32" where
  "event_type flags t =
     (if flags AND SYNCS_TYPE_SYNC \<noteq> 0 then (SYNCS_TYPE_EVENT OR t) OR SYNCS_TYPE_SYNC else SYNCS_TYPE_EVENT OR t)"

lemma send_event_ideal:
  assumes ok: "event_ok (s_events s i)" and net: "os_script (s_os s) = []"
  defines "e \<equiv> s_events s i"
  shows "\<exists>h. data_header (e_id e) (event_type flags (e_data_type e)) (unat (e_data_size e)) h \<and>
    (flags AND SYNCS_TYPE_SYNC \<noteq> 0 \<longrightarrow> h_sync h = syncs_sync_calculate 0 (s_sync_offset s) (s_os s)) \<and>
    s_os (syncs_send_event i flags s) =
      (s_os s)\<lparr>os_sent := os_sent (s_os s) @ stream_to s (header_bytes h @ snd (var_of e)) (event_targets flags e),
        os_dgram := os_dgram (s_os s) @ dgram_to s (header_bytes h @ snd (var_of e)) (event_targets flags e)\<rparr>"
proof -
  define p0 where "p0 = event_packet (SYNCS_TYPE_EVENT OR e_data_type e) e (os_stack (s_os s))"
  define h where "h = (if flags AND SYNCS_TYPE_SYNC \<noteq> 0
    then (p_header p0)\<lparr>h_type := h_type (p_header p0) OR SYNCS_TYPE_SYNC,
           h_sync := syncs_sync_calculate 0 (s_sync_offset s) (s_os s)\<rparr> else p_header p0)"
  have sz: "unat (e_data_size e) \<le> SYNCS_VARIABLE_SIZE_MAXIMUM" using event_ok_size [OF ok] by (simp add: e_def)
  note hd = event_packet_header [OF sz, of "SYNCS_TYPE_EVENT OR e_data_type e" "os_stack (s_os s)", folded p0_def]
  have "data_header (e_id e) (event_type flags (e_data_type e)) (unat (e_data_size e)) h"
    using hd(1) by (simp add: h_def event_type_def data_header_def)
  moreover have "flags AND SYNCS_TYPE_SYNC \<noteq> 0 \<longrightarrow> h_sync h = syncs_sync_calculate 0 (s_sync_offset s) (s_os s)"
    by (simp add: h_def)
  moreover have "syncs_send_event i flags s = fold (send_event_to (p0\<lparr>p_header := h\<rparr>)) (event_targets flags e) s"
    using sz by (simp add: syncs_send_event_def Let_def quiet_fault_if e_def [symmetric] p0_def [symmetric] h_def
        send_event_loop event_targets_def)
  moreover have "packet_bytes (p0\<lparr>p_header := h\<rparr>) (SYNCS_PACKET_SIZE (p0\<lparr>p_header := h\<rparr>)) = header_bytes h @ snd (var_of e)"
    unfolding p0_def using sz hd(2) by (intro event_packet_on_wire) (simp_all add: h_def)
  ultimately show ?thesis using send_list_ideal [OF net] by metis
qed

lemma subscribers_store_write: "subscribers (s_events (store_write c i data n s) i) = subscribers (s_events s i)"
  by (simp add: store_write_event subscribers_def)

lemma run_cb_syncsserver [simp]: "run_cb syncsserver_call x i s = s"
  by (simp add: run_cb_def syncsserver_call_def syncs_cb_message_def syncs_cb_mode_def split: option.splits)

lemma flag_of_flags:
  "(flags AND (SYNCS_TYPE_VAR_MASK OR SYNCS_TYPE_SYNC OR SYNCS_TYPE_ECHO)) AND SYNCS_TYPE_SYNC = (flags :: u32) AND SYNCS_TYPE_SYNC"
  "(flags AND (SYNCS_TYPE_VAR_MASK OR SYNCS_TYPE_SYNC OR SYNCS_TYPE_ECHO)) AND SYNCS_TYPE_ECHO = flags AND SYNCS_TYPE_ECHO"
  by (simp_all add: and.assoc)

lemma stream_to_cong:
  "(\<And>c. c_socketfd (s_clients t c) = c_socketfd (s_clients s c)) \<Longrightarrow> stream_to t bs cs = stream_to s bs cs"
  "(\<And>c. c_socketfd (s_clients t c) = c_socketfd (s_clients s c)) \<Longrightarrow> (\<And>c. c_addr (s_clients t c) = c_addr (s_clients s c)) \<Longrightarrow>
     s_usocketfd t = s_usocketfd s \<Longrightarrow> dgram_to t bs cs = dgram_to s bs cs"
  by (simp_all add: stream_to_def dgram_to_def)

text \<open>
  C6: A write reaches exactly the subscribers. When a client's write is accepted and the network takes
  what is sent, each subscriber of that variable except the writer (the writer too with ECHO) is sent exactly
  one event packet, by TCP or UDP as it is connected, and nobody else is sent anything; the packet
  carries the id, the type and exactly the bytes written, and the time to act for a synchronised write.
\<close>

theorem write_reaches_subscribers:
  fixes flags :: u32 and data :: mem
  assumes inv: "server_inv s" and c: "c < SYNCS_CLIENT_MAXIMUM" and x: "live_id x" and n: "unat n \<le> SYNCS_VARIABLE_SIZE_MAXIMUM"
    and net: "os_script (s_os s) = []" and accepted: "fst (syncs_client_write syncsserver_call c x flags data n s) = 0"
  shows "\<exists>h cs. data_header x (event_type flags (flags AND SYNCS_TYPE_VAR_MASK)) (unat n) h \<and>
    (flags AND SYNCS_TYPE_SYNC \<noteq> 0 \<longrightarrow> h_sync h = syncs_sync_calculate 0 (s_sync_offset s) (s_os s)) \<and>
    distinct cs \<and> set cs = subscribed s x - (if flags AND SYNCS_TYPE_ECHO = 0 then {c} else {}) \<and>
    s_os (snd (syncs_client_write syncsserver_call c x flags data n s)) =
      (s_os s)\<lparr>os_sent := os_sent (s_os s) @ stream_to s (header_bytes h @ mem_read data 0 (unat n)) cs,
        os_dgram := os_dgram (s_os s) @ dgram_to s (header_bytes h @ mem_read data 0 (unat n)) cs\<rparr>"
  using n
proof (cases rule: client_write_cases [where flags = flags and x = x and s = s and call = syncsserver_call and c = c and data = data])
  case (rejected err t)
  then show ?thesis
    using accepted open_typed_refines [OF inv x, of flags] by (simp add: abs_open_def split: if_splits)
next
  case (mistyped i t)
  then show ?thesis using accepted by simp
next
  case (accepted i t)
  let ?new = "\<lambda>e. e\<lparr>e_data_type := flags AND SYNCS_TYPE_VAR_MASK\<rparr>"
  let ?f = "flags AND (SYNCS_TYPE_VAR_MASK OR SYNCS_TYPE_SYNC OR SYNCS_TYPE_ECHO)"
  define u where "u = store_write c i data n t"
  have t: "server_inv t" "i < SYNCS_EVENT_MAXIMUM" "e_id (s_events t i) = x" "syncs_find_event t x = Some i"
    using open_typed_refines [OF inv x, of flags] by (simp_all add: accepted(1))
  have frame: "s_clients t = s_clients s" "s_os t = s_os s" "s_usocketfd t = s_usocketfd s"
    using open_event_frame [of flags x ?new s] by (simp_all add: accepted(1))
  have sync: "s_sync_offset t = s_sync_offset s"
    using accepted(1) by (cases rule: open_event_cases [where s = s and x = x and flags = flags and new = ?new])
      (auto simp: syncs_create_event_def split: option.splits)
  have ok: "event_ok (s_events u i)"
    using inv_event [OF store_write_inv [OF t(1,2) c n] t(2)] by (simp add: u_def)
  have ev: "e_id (s_events u i) = x" "e_data_type (s_events u i) = flags AND SYNCS_TYPE_VAR_MASK" "e_data_size (s_events u i) = n"
    "snd (var_of (s_events u i)) = mem_read data 0 (unat n)" "e_producer (s_events u i) = Some c"
    using accepted(2) t(3) by (simp_all add: u_def store_write_event var_of_def mem_simps)
  have subs: "subscribers (s_events u i) = subscribed s x"
    using subscribed_open_event [OF inv x x, of ?new flags] t(4)
    by (simp add: u_def subscribers_store_write accepted(1) subscribed_def)
  have os: "s_os u = s_os s" "s_sync_offset u = s_sync_offset s"
    by (simp_all add: u_def store_write_event frame) (simp add: store_write_def sync)
  have fd: "stream_to u = stream_to s" "dgram_to u = dgram_to s"
    by (intro ext stream_to_cong; simp add: u_def store_write_event frame)+
  have "set (event_targets ?f (s_events u i)) = subscribed s x - (if flags AND SYNCS_TYPE_ECHO = 0 then {c} else {})"
    by (simp add: set_event_targets flag_of_flags(2) [simplified] ev subs)
  moreover have "event_type ?f t = event_type flags t" for t
    by (simp add: event_type_def flag_of_flags(1) [simplified])
  moreover have "snd (syncs_client_write syncsserver_call c x flags data n s) = syncs_send_event i ?f u"
    by (simp add: accepted(3) u_def)
  moreover have "distinct (event_targets ?f (s_events u i))" using distinct_event_targets [OF ok] .
  ultimately show ?thesis
    using send_event_ideal [OF ok, of ?f] net
    by (simp only: os ev fd flag_of_flags) metis
qed

text \<open>A server with one variable and one TCP client subscribed to it.\<close>

definition sample_subscribed :: syncs_server where
  "sample_subscribed =
     upd_client 5 (\<lambda>cl. cl\<lparr>c_socketfd := 7\<rparr>)
       (snd (syncs_add_client_to_event 5 0
         (upd_event 0 (\<lambda>e. e\<lparr>e_data_type := SYNCS_TYPE_VAR_INT32\<rparr>)
           (snd (syncs_create_event sample_server (syncs_idstr (cstr ''a'')))))))"

lemma sample_create: "fst (syncs_create_event sample_server x) = Some 0"
  by (simp add: syncs_create_event_def first_slot_def upt_rec sample_server_fields)

lemma sample_subscribed_facts:
  shows "server_inv sample_subscribed" and "subscribed sample_subscribed (syncs_idstr (cstr ''a'')) = {5}"
    and "s_os sample_subscribed = idle_os" and "c_socketfd (s_clients sample_subscribed 5) = 7"
    and "variables sample_subscribed (syncs_idstr (cstr ''a'')) = Some (SYNCS_TYPE_VAR_INT32, [])"
    and "syncs_find_event sample_subscribed (syncs_idstr (cstr ''a'')) = Some 0"
proof -
  let ?a = "syncs_idstr (cstr ''a'')"
  define s1 where "s1 = snd (syncs_create_event sample_server ?a)"
  define s2 where "s2 = upd_event 0 (\<lambda>e. e\<lparr>e_data_type := SYNCS_TYPE_VAR_INT32\<rparr>) s1"
  define s3 where "s3 = snd (syncs_add_client_to_event 5 0 s2)"
  have sample: "sample_subscribed = upd_client 5 (\<lambda>cl. cl\<lparr>c_socketfd := 7\<rparr>) s3"
    by (simp add: sample_subscribed_def s1_def s2_def s3_def)
  have i1: "server_inv s1"
    unfolding s1_def by (rule create_event_inv [OF sample_server_inv sample_server_find [OF live_id_a]])
  have i2: "server_inv s2"
    unfolding s2_def using inv_event [OF i1, of 0] i1 by (intro server_inv_upd_event) simp_all
  have add: "server_inv s3" "subscribers (s_events s3 0) = insert 5 (subscribers (s_events s2 0))"
    using add_client_to_event_ok [OF i2, of 5 0] by (simp_all add: s3_def)
  have e0: "s_events s2 0 = (syncs_event_init ?a (s_events sample_server 0))\<lparr>e_data_type := SYNCS_TYPE_VAR_INT32\<rparr>"
    by (simp add: s2_def s1_def create_event_new [OF sample_create])
  show inv: "server_inv sample_subscribed"
    unfolding sample using add(1) inv_client [OF add(1), of 5]
    by (intro server_inv_upd_client) (simp_all add: client_ok_def)
  have "e_id (s_events sample_subscribed 0) = ?a"
    using add_client_to_event_frame(9) [of 5 0 s2] by (simp add: sample s3_def e0 syncs_event_init_def)
  then show find: "syncs_find_event sample_subscribed ?a = Some 0"
    using ev.find_live [OF inv_event_ids [OF inv] live_id_a, of 0] by simp
  show "subscribed sample_subscribed ?a = {5}"
    using add(2) by (simp add: subscribed_def find) (simp add: sample e0 subscribers_init)
  show "s_os sample_subscribed = idle_os"
    by (simp add: sample s3_def add_client_to_event_frame s2_def s1_def create_event_frame sample_server_fields)
  show "c_socketfd (s_clients sample_subscribed 5) = 7" by (simp add: sample)
  have "var_of (s_events s3 0) = (SYNCS_TYPE_VAR_INT32, [])"
    by (simp add: var_of_def s3_def add_client_to_event_frame e0 syncs_event_init_def)
  then show "variables sample_subscribed ?a = Some (SYNCS_TYPE_VAR_INT32, [])"
    using variables_find [OF find live_id_a] by (simp add: sample)
qed

theorem write_reaches_subscribers_witness:
  "\<exists>h. os_sent (s_os (snd (syncs_client_write syncsserver_call 3 (syncs_idstr (cstr ''a'')) 0x203 (mem_of [1, 2, 3, 4]) 4
       sample_subscribed))) = [(7, header_bytes h @ [1, 2, 3, 4])]"
proof -
  let ?a = "syncs_idstr (cstr ''a'')"
  let ?r = "syncs_client_write syncsserver_call 3 ?a 0x203 (mem_of [1, 2, 3, 4]) 4 sample_subscribed"
  have "fst ?r = 0"
    using syncsserver.write_refines [OF sample_subscribed_facts(1) _ live_id_a, of 3 4 "0x203" "mem_of [1, 2, 3, 4]"]
    by (simp add: abs_write_def abs_open_def dom_def sample_subscribed_facts(5))
  then obtain h cs where cs: "distinct cs" "set cs = {5}"
    and sent: "s_os (snd ?r) = (s_os sample_subscribed)\<lparr>
      os_sent := os_sent (s_os sample_subscribed) @ stream_to sample_subscribed (header_bytes h @ mem_read (mem_of [1, 2, 3, 4]) 0 4) cs,
      os_dgram := os_dgram (s_os sample_subscribed) @ dgram_to sample_subscribed (header_bytes h @ mem_read (mem_of [1, 2, 3, 4]) 0 4) cs\<rparr>"
    using write_reaches_subscribers [OF sample_subscribed_facts(1) _ live_id_a, of 3 4 "0x203" "mem_of [1, 2, 3, 4]"]
    by (auto simp: sample_subscribed_facts(2,3) idle_os_def)
  have "cs = [5]" using cs by (metis distinct.simps(2) empty_set list.exhaust_sel list.set_sel(1,2) list.simps(15) singletonD set_empty2)
  then show ?thesis
    by (auto simp: sent sample_subscribed_facts idle_os_def stream_to_def mem_read_mem_of)
qed

section \<open>Answers to one client\<close>

text \<open>The answer \<open>bs\<close> to client \<open>c\<close>, and nothing else, went out.\<close>

definition answered :: "syncs_server \<Rightarrow> syncs_server \<Rightarrow> nat \<Rightarrow> byte list \<Rightarrow> bool" where
  "answered s t c bs \<longleftrightarrow>
     s_os t = (s_os s)\<lparr>os_sent := os_sent (s_os s) @ stream_to s bs [c], os_dgram := os_dgram (s_os s) @ dgram_to s bs [c]\<rparr>"

lemma answered_send:
  "os_script (s_os s) = [] \<Longrightarrow> packet_bytes p (SYNCS_PACKET_SIZE p) = bs \<Longrightarrow>
     answered s (count_tx c (snd (syncs_client_send c p s))) c bs"
  by (simp add: answered_def client_send_ideal)

lemma resend_ideal:
  assumes "event_ok (s_events s i)" "os_script (s_os s) = []"
  shows "\<exists>h. data_header (e_id (s_events s i)) (SYNCS_TYPE_EVENT OR SYNCS_STATUS_LOST) (length (snd (var_of (s_events s i)))) h \<and>
    answered s (syncs_resend_event c i s) c (header_bytes h @ snd (var_of (s_events s i)))"
proof -
  define p where "p = event_packet (SYNCS_TYPE_EVENT OR SYNCS_STATUS_LOST) (s_events s i) (os_stack (s_os s))"
  have sz: "unat (e_data_size (s_events s i)) \<le> SYNCS_VARIABLE_SIZE_MAXIMUM" using event_ok_size [OF assms(1)] .
  have eq: "syncs_resend_event c i s = count_tx c (snd (syncs_client_send c p s))"
    using sz by (simp add: syncs_resend_event_def Let_def quiet_fault_if p_def)
  have "packet_bytes p (SYNCS_PACKET_SIZE p) = header_bytes (p_header p) @ snd (var_of (s_events s i))"
    using event_packet_on_wire [OF sz event_packet_header(2) [OF sz, of "SYNCS_TYPE_EVENT OR SYNCS_STATUS_LOST" "os_stack (s_os s)"],
        of "SYNCS_TYPE_EVENT OR SYNCS_STATUS_LOST" "os_stack (s_os s)"] by (simp add: p_def)
  then have "answered s (syncs_resend_event c i s) c (header_bytes (p_header p) @ snd (var_of (s_events s i)))"
    using answered_send [OF assms(2), of p] eq by simp
  moreover have "data_header (e_id (s_events s i)) (SYNCS_TYPE_EVENT OR SYNCS_STATUS_LOST)
      (length (snd (var_of (s_events s i)))) (p_header p)"
    unfolding p_def using event_packet_header(1) [OF sz] by (simp add: var_of_def)
  ultimately show ?thesis by blast
qed

definition stamp :: "syncs_server \<Rightarrow> syncsid \<Rightarrow> u64" where
  "stamp s x = (case syncs_find_event s x of Some i \<Rightarrow> e_update_counter (s_events s i) | None \<Rightarrow> 0)"

text \<open>
  C29: A late subscriber gets the value it missed, and only then. When a subscription is accepted, the client
  is sent one packet marked LOST with the current data of the variable if the update counter it
  names is below the variable's, and nothing otherwise; nobody else is sent anything.
\<close>

theorem subscribe_resends_missed:
  fixes flags :: u32 and u :: u64
  assumes inv: "server_inv s" and c: "c < SYNCS_CLIENT_MAXIMUM" and x: "live_id x" and net: "os_script (s_os s) = []"
    and ok: "fst (syncs_client_subscribe c x flags u s) = 0"
  shows "if u < stamp s x
    then \<exists>h t d. variables s x = Some (t, d) \<and> data_header x (SYNCS_TYPE_EVENT OR SYNCS_STATUS_LOST) (length d) h \<and>
           answered s (snd (syncs_client_subscribe c x flags u s)) c (header_bytes h @ d)
    else s_os (snd (syncs_client_subscribe c x flags u s)) = s_os s"
proof -
  let ?new = "\<lambda>e. e\<lparr>e_data_type := flags AND SYNCS_TYPE_VAR_MASK\<rparr>"
  let ?r = "snd (syncs_client_subscribe c x flags u s)"
  obtain a t where o: "open_event flags x ?new s = (a, t)" by fastforce
  note ref = open_typed_refines [OF inv x, of flags, unfolded o]
  have frame: "s_clients t = s_clients s" "s_os t = s_os s" "s_usocketfd t = s_usocketfd s"
    using open_event_frame [of flags x ?new s] by (simp_all add: o)
  obtain i where a: "a = Inr i"
    using ok ref by (cases a) (auto simp: syncs_client_subscribe_def o abs_open_def split: if_splits)
  have t: "server_inv t" "i < SYNCS_EVENT_MAXIMUM" "e_id (s_events t i) = x"
    using ref by (simp_all add: a)
  define v where "v = snd (syncs_add_client_to_event c i t)"
  have v: "server_inv v" using add_client_to_event_ok [OF t(1) c t(2)] by (simp add: v_def)
  have ev: "e_id (s_events v i) = x" "var_of (s_events v i) = var_of (s_events t i)" "s_os v = s_os s"
    "e_update_counter (s_events v i) = e_update_counter (s_events t i)"
    by (simp_all add: v_def add_client_to_event_frame t var_of_def frame)
  have r: "?r = (if u < e_update_counter (s_events v i) then syncs_resend_event c i v else v)"
    using ok by (auto simp: syncs_client_subscribe_def o a Let_def v_def split: if_splits)
  have "stream_to v = stream_to s" "dgram_to v = dgram_to s"
    by (intro ext stream_to_cong; simp add: v_def add_client_to_event_frame frame)+
  then have sent: "answered v w c bs = answered s w c bs" for w bs by (simp add: answered_def ev)
  have stamp: "e_update_counter (s_events t i) = stamp s x \<and> (u < stamp s x \<longrightarrow> variables s x = Some (var_of (s_events t i)))"
  proof (cases rule: open_event_cases [where s = s and x = x and flags = flags and new = ?new])
    case (found j)
    then show ?thesis using o a x by (simp add: stamp_def variables_find)
  next
    case (created j)
    then show ?thesis using o a by (auto simp: stamp_def create_event_new syncs_event_init_def)
  qed (use o a in simp_all)
  show ?thesis
    using stamp resend_ideal [OF inv_event [OF v t(2)], of c] net r
    by (auto simp: ev sent) (metis ev(1) surjective_pairing)
qed

theorem subscribe_resends_missed_witness:
  "\<exists>h. os_sent (s_os (snd (syncs_client_subscribe 5 (syncs_idstr (cstr ''a'')) 0x205 0
       (upd_event 0 (\<lambda>e. e\<lparr>e_update_counter := 1\<rparr>) sample_subscribed)))) = [(7, header_bytes h)]"
proof -
  let ?a = "syncs_idstr (cstr ''a'')"
  let ?s = "upd_event 0 (\<lambda>e. e\<lparr>e_update_counter := 1\<rparr>) sample_subscribed"
  note f = sample_subscribed_facts
  have inv: "server_inv ?s"
    using f(1) inv_event [OF f(1), of 0] by (intro server_inv_upd_event) simp_all
  have id0: "e_id (s_events sample_subscribed 0) = ?a" using ev.find_Some [OF f(6)] by simp
  then have "syncs_find_event ?s ?a = Some 0"
    using ev.find_live [OF inv_event_ids [OF inv] live_id_a, of 0] by simp
  then have stamp: "stamp ?s ?a = 1" and vars: "variables ?s ?a = Some (SYNCS_TYPE_VAR_INT32, [])"
    using f(5) variables_find [OF f(6) live_id_a] by (simp_all add: stamp_def variables_find live_id_a var_of_def)
  have "fst (syncs_client_subscribe 5 ?a 0x205 0 ?s) = 0"
    using client_subscribe_effect(1) [OF inv _ live_id_a, of 5 "0x205" 0] vars
    by (auto simp: abs_subscribe_def abs_open_def types_agree_def dom_def)
  then show ?thesis
    using subscribe_resends_missed [OF inv _ live_id_a, of 5 "0x205" 0] f(3,4) stamp vars
    by (auto simp: idle_os_def answered_def stream_to_def)
qed

lemma read_answered:
  assumes inv: "server_inv s" and x: "live_id x" and net: "os_script (s_os s) = []"
  shows "\<exists>h. case variables s x of
      Some (t, d) \<Rightarrow> data_header x (SYNCS_TYPE_READ OR (t AND SYNCS_TYPE_VAR_MASK)) (length d) h \<and>
        answered s (syncs_client_read c x s) c (header_bytes h @ d)
    | None \<Rightarrow> data_header x (SYNCS_TYPE_READ OR SYNCS_TYPE_VAR_NOT_DEFINED) 0 h \<and>
        answered s (syncs_client_read c x s) c (header_bytes h)"
proof (cases "syncs_find_event s x")
  case None
  define h where "h = syncs_fill_header x SYNCS_TYPE_READ (p_header (os_stack (s_os s)))"
  define p where "p = (os_stack (s_os s))\<lparr>p_header := h\<lparr>h_type := h_type h OR SYNCS_TYPE_VAR_NOT_DEFINED, h_data_size := 0\<rparr>\<rparr>"
  have "packet_bytes p (SYNCS_PACKET_SIZE p) = header_bytes (p_header p)"
    using packet_on_wire [of p 0] by (simp add: p_def)
  moreover have "syncs_client_read c x s = count_tx c (snd (syncs_client_send c p s))"
    by (simp add: syncs_client_read_def None Let_def p_def h_def)
  moreover have "data_header x (SYNCS_TYPE_READ OR SYNCS_TYPE_VAR_NOT_DEFINED) 0 (p_header p)"
    by (simp add: data_header_def p_def h_def syncs_fill_header_def syncs_fill_basic_header_def Let_def)
  ultimately show ?thesis
    using None answered_send [OF net, of p] by (auto simp: variables_def)
next
  case (Some i)
  let ?e = "s_events s i"
  define h where "h = (syncs_fill_header x SYNCS_TYPE_READ (p_header (os_stack (s_os s))))
    \<lparr>h_data_size := ucast (e_data_size ?e), h_type := SYNCS_TYPE_READ OR (e_data_type ?e AND SYNCS_TYPE_VAR_MASK)\<rparr>"
  define p where "p = (os_stack (s_os s))\<lparr>p_header := h,
    p_buffer := mem_copy 0 (e_data ?e) (unat (e_data_size ?e)) (p_buffer (os_stack (s_os s)))\<rparr>"
  have sz: "unat (e_data_size ?e) \<le> SYNCS_VARIABLE_SIZE_MAXIMUM"
    using inv_event [OF inv] ev.find_Some [OF Some] by (simp add: event_ok_size)
  have "packet_bytes p (SYNCS_PACKET_SIZE p) = header_bytes h @ snd (var_of ?e)"
    using packet_on_wire [of p "e_data_size ?e"] sz by (simp add: p_def h_def var_of_def mem_simps)
  moreover have "syncs_client_read c x s = count_tx c (snd (syncs_client_send c p s))"
    using sz by (simp add: syncs_client_read_def Some Let_def p_def h_def quiet_fault_if syncs_fill_header_def
        syncs_fill_basic_header_def)
  moreover have "unat (ucast (e_data_size ?e) :: u16) = unat (e_data_size ?e)"
    using sz by (intro unat_ucast_small) simp
  then have "data_header x (SYNCS_TYPE_READ OR (e_data_type ?e AND SYNCS_TYPE_VAR_MASK)) (length (snd (var_of ?e))) h"
    by (simp add: data_header_def h_def syncs_fill_header_def syncs_fill_basic_header_def Let_def var_of_def)
  ultimately show ?thesis
    using variables_find [OF Some x] answered_send [OF net, of p] by (auto simp: var_of_def)
qed

text \<open>
  A read is answered with the stored value. \<open>syncs_client_read\<close> sends the asking client, and nobody
  else, one packet: with the type and exactly the bytes of the variable when there is one, with the type
  NOT_DEFINED and no data when there is none.
\<close>

lemma client_read_answer:
  assumes inv: "server_inv s" and x: "live_id x" and net: "os_script (s_os s) = []"
  shows "\<exists>h. case variables s x of
      Some (t, d) \<Rightarrow> data_header x (SYNCS_TYPE_READ OR (t AND SYNCS_TYPE_VAR_MASK)) (length d) h \<and>
        answered s (syncs_client_read c x s) c (header_bytes h @ d)
    | None \<Rightarrow> data_header x (SYNCS_TYPE_READ OR SYNCS_TYPE_VAR_NOT_DEFINED) 0 h \<and>
        answered s (syncs_client_read c x s) c (header_bytes h)"
  using read_answered [OF assms] .

end
