(* ===== verification/Server_Lists.thy ===== *)
theory Server_Lists
  imports Server_Delivery
begin

unbundle bit_operations_syntax

text \<open>
  The lists of clients, events and channels that a client can ask for
  (\<open>syncs_client_send_clientlist\<close>, \<open>syncs_client_send_eventlist\<close>, \<open>syncs_client_send_channellist\<close>). The three
  functions are one loop over three tables: entries are packed into the data of a packet, the packet
  goes out whenever it is full, and a last one, possibly empty, closes the list. The model is that loop
  (\<open>list_start\<close>, \<open>list_turn\<close>, \<open>list_send\<close>, \<open>send_list\<close>) with three sets of arguments.

  The locale \<open>table_list\<close> states what the loop needs of a table and proves once that the pages carry
  every live entry exactly once and in order; it is interpreted for the three tables.
\<close>

section \<open>The loop\<close>

text \<open>An entry is packed field by field: bytes at offsets from the start of its structure.\<close>

definition put_entry :: "nat \<Rightarrow> (nat \<times> byte list) list \<Rightarrow> mem \<Rightarrow> mem" where
  "put_entry base fs m = fold (\<lambda>(off, bs). mem_put (base + off) bs) fs m"

definition set_id_c :: "nat \<Rightarrow> byte \<Rightarrow> syncs_packet \<Rightarrow> syncs_packet" where
  "set_id_c k b packet = packet\<lparr>p_header := (p_header packet)\<lparr>h_id := id_set_c k b (h_id (p_header packet))\<rparr>\<rparr>"

definition list_start :: "u32 \<Rightarrow> byte \<Rightarrow> byte \<Rightarrow> syncs_packet \<Rightarrow> syncs_packet" where
  "list_start type pages sequance packet =
     (let packet = packet\<lparr>p_header := (p_header packet)\<lparr>h_magic := SYNCS_PACKET_MAGIC,
            h_magic_data := SYNCS_PACKET_MAGIC_DATA, h_type := type\<rparr>\<rparr>
      in set_id_c 4 0 (set_id_c 3 sequance (set_id_c 1 pages (set_id_c 0 0 packet))))"

definition list_send :: "nat \<Rightarrow> nat \<Rightarrow> nat \<Rightarrow> syncs_packet \<Rightarrow> syncs_server \<Rightarrow> syncs_packet \<times> syncs_server" where
  "list_send c esz n packet s =
     (let packet = set_id_c 2 (of_nat n) packet;
          packet = packet\<lparr>p_header := (p_header packet)\<lparr>h_data_size := of_nat (n * esz)\<rparr>\<rparr>
      in (packet, count_tx c (snd (syncs_client_send c packet s))))"

definition list_turn ::
    "nat \<Rightarrow> nat \<Rightarrow> nat \<Rightarrow> (syncs_server \<Rightarrow> nat \<Rightarrow> bool) \<Rightarrow> (syncs_server \<Rightarrow> nat \<Rightarrow> (nat \<times> byte list) list) \<Rightarrow>
     nat \<Rightarrow> syncs_packet \<times> nat \<times> syncs_server \<Rightarrow> syncs_packet \<times> nat \<times> syncs_server" where
  "list_turn c maxn esz used entry i = (\<lambda>(packet, n, s).
     if used s i then
       (let packet = packet\<lparr>p_buffer := put_entry (n * esz) (entry s i) (p_buffer packet)\<rparr>;
            n = n + 1
        in if n \<ge> maxn then
             (let (packet, s) = list_send c esz n packet s
              in (set_id_c 0 (id_c (h_id (p_header packet)) 0 + 1) packet, 0, s))
           else (packet, n, s))
     else (packet, n, s))"

definition send_list ::
    "nat \<Rightarrow> u32 \<Rightarrow> byte \<Rightarrow> byte \<Rightarrow> nat \<Rightarrow> nat \<Rightarrow> nat \<Rightarrow> (syncs_server \<Rightarrow> nat \<Rightarrow> bool) \<Rightarrow>
     (syncs_server \<Rightarrow> nat \<Rightarrow> (nat \<times> byte list) list) \<Rightarrow> syncs_server \<Rightarrow> syncs_server" where
  "send_list c type pages sequance maxn esz cap used entry s =
     (let packet = list_start type pages sequance (os_stack (s_os s));
          (packet, n, s) = fold (list_turn c maxn esz used entry) [0..<cap] (packet, 0, s);
          packet = set_id_c 4 1 packet
      in snd (list_send c esz n packet s))"

section \<open>The three tables\<close>

definition client_used :: "syncs_server \<Rightarrow> nat \<Rightarrow> bool" where
  "client_used s i \<longleftrightarrow> c_socketfd (s_clients s i) \<noteq> -1"

definition syncs_client_info :: "syncs_server \<Rightarrow> nat \<Rightarrow> (nat \<times> byte list) list" where
  "syncs_client_info s i =
     (let client = s_clients s i
      in [(0, id_bytes (c_id client)), (32, le_bytes 4 (c_event_subscribe client)), (36, le_bytes 4 (c_event_write client)),
          (40, le_bytes 4 (c_rx_event_count client)), (44, le_bytes 4 (c_tx_event_count client)),
          (48, le_bytes 4 (sin_addr (c_addr client)))])"

definition syncs_client_send_clientlist :: "nat \<Rightarrow> byte \<Rightarrow> syncs_server \<Rightarrow> syncs_server" where
  "syncs_client_send_clientlist c sequance s =
     send_list c SYNCS_TYPE_CLIENT_LIST (of_nat (unat (s_client_count s) div 9 + 1)) sequance 9 52 SYNCS_CLIENT_MAXIMUM
       client_used syncs_client_info s"

definition event_used :: "syncs_server \<Rightarrow> nat \<Rightarrow> bool" where
  "event_used s i \<longleftrightarrow> id_i0 (e_id (s_events s i)) \<noteq> -1"

definition syncs_event_info :: "syncs_server \<Rightarrow> nat \<Rightarrow> (nat \<times> byte list) list" where
  "syncs_event_info s i =
     (let event = s_events s i
      in [(0, id_bytes (e_id event)), (82, le_bytes 4 (e_consumers_count event)), (78, le_bytes 4 (e_count event)),
          (68, le_bytes 2 (ucast (e_data_size event) :: u16)), (86, le_bytes 4 (e_producers_count event)),
          (32, le_bytes 4 (e_data_type event)),
          (36, mem_read (e_data event) 0 (min (unat (e_data_size event)) SYNCS_VARIABLE_INFO_SIZE_MAXIMUM))])"

definition syncs_client_send_eventlist :: "nat \<Rightarrow> byte \<Rightarrow> syncs_server \<Rightarrow> syncs_server" where
  "syncs_client_send_eventlist c sequance s =
     send_list c SYNCS_TYPE_EVENT_LIST (of_nat (unat (s_event_count s) div 5 + 1)) sequance 5 90 SYNCS_EVENT_MAXIMUM
       event_used syncs_event_info s"

definition channel_used :: "syncs_server \<Rightarrow> nat \<Rightarrow> bool" where
  "channel_used s i \<longleftrightarrow> id_i0 (ch_id (s_channels s i)) \<noteq> -1"

definition syncs_channel_info :: "syncs_server \<Rightarrow> nat \<Rightarrow> (nat \<times> byte list) list" where
  "syncs_channel_info s i =
     (let channel = s_channels s i
      in [(0, id_bytes (ch_id channel)), (32, le_bytes 4 (ch_anons_count channel)), (36, le_bytes 4 (ch_request_count channel)),
          (40, le_bytes 4 (t_ip (ch_ticket channel))), (44, le_bytes 2 (t_port (ch_ticket channel)))])"

definition syncs_client_send_channellist :: "nat \<Rightarrow> byte \<Rightarrow> syncs_server \<Rightarrow> syncs_server" where
  "syncs_client_send_channellist c sequance s =
     send_list c SYNCS_TYPE_CHANNEL_LIST (of_nat (unat (s_channel_count s) div 11 + 1)) sequance 11 46 SYNCS_CHANNEL_MAXIMUM
       channel_used syncs_channel_info s"

section \<open>Sending a list is quiet\<close>

lemma quiet_list_send: "quiet s (snd (list_send c esz n packet s))"
  by (simp add: list_send_def Let_def quiet_answer)

lemma quiet_list_turn: "quiet s (snd (snd (list_turn c maxn esz used entry i (packet, n, s))))"
  by (auto simp: list_turn_def Let_def quiet_list_send split: prod.splits)
    (metis quiet_list_send snd_conv)

lemma quiet_list_loop: "quiet s (snd (snd (fold (list_turn c maxn esz used entry) is (packet, n, s))))"
proof (induction "is" arbitrary: packet n s)
  case (Cons i "is")
  obtain p m t where t: "list_turn c maxn esz used entry i (packet, n, s) = (p, m, t)" by (metis prod_cases3)
  then have "quiet s t" using quiet_list_turn [of s c maxn esz used entry i packet n] by simp
  then show ?case using quiet_trans [OF _ Cons.IH [of t p m]] by (simp add: t)
qed simp

lemma quiet_send_list: "quiet s (send_list c type pages sequance maxn esz cap used entry s)"
proof -
  obtain p n t where t: "fold (list_turn c maxn esz used entry) [0..<cap]
      (list_start type pages sequance (os_stack (s_os s)), 0, s) = (p, n, t)" by (metis prod_cases3)
  have "quiet s t"
    using quiet_list_loop [of s c maxn esz used entry "[0..<cap]" "list_start type pages sequance (os_stack (s_os s))" 0]
    by (simp add: t)
  then show ?thesis using quiet_trans [OF _ quiet_list_send] by (simp add: send_list_def t Let_def)
qed

lemma quiet_lists:
  "quiet s (syncs_client_send_clientlist c sequance s)"
  "quiet s (syncs_client_send_eventlist c sequance s)"
  "quiet s (syncs_client_send_channellist c sequance s)"
  by (simp_all add: syncs_client_send_clientlist_def syncs_client_send_eventlist_def
      syncs_client_send_channellist_def quiet_send_list)

section \<open>Pages\<close>

lemma header_bytes_id: "k < 32 \<Longrightarrow> header_bytes h ! (9 + k) = id_c (h_id h) k"
  by (simp add: header_bytes_def nth_append id_c_def nth_Cons')

text \<open>What the header of the \<open>k\<close>-th page of a list says; \<open>final\<close> is 1 on the last page.\<close>

definition page_header :: "u32 \<Rightarrow> byte \<Rightarrow> nat \<Rightarrow> byte \<Rightarrow> syncs_header \<Rightarrow> bool" where
  "page_header type sequance k final h \<longleftrightarrow>
     h_magic h = SYNCS_PACKET_MAGIC \<and> h_magic_data h = SYNCS_PACKET_MAGIC_DATA \<and> h_type h = type \<and>
     id_c (h_id h) 0 = of_nat k \<and> id_c (h_id h) 3 = sequance \<and> id_c (h_id h) 4 = final"

definition page_ok :: "u32 \<Rightarrow> byte \<Rightarrow> nat \<Rightarrow> nat \<Rightarrow> byte \<Rightarrow> byte list \<Rightarrow> bool" where
  "page_ok type sequance esz k final pg \<longleftrightarrow>
     (\<exists>h d. pg = header_bytes h @ d \<and> page_header type sequance k final h \<and>
        unat (h_data_size h) = length d \<and> length d = unat (id_c (h_id h) 2) * esz)"

text \<open>The entries of a page, as a receiver takes them out.\<close>

definition page_entries :: "nat \<Rightarrow> (byte list \<Rightarrow> 'v) \<Rightarrow> byte list \<Rightarrow> 'v list" where
  "page_entries esz get pg = map (\<lambda>k. get (take esz (drop (sizeof_syncs_header + k * esz) pg))) [0..<unat (pg ! 11)]"

lemma list_send_page:
  fixes c :: nat
  assumes n: "n < 256" "n * esz \<le> SYNCS_VARIABLE_SIZE_MAXIMUM" and net: "os_script (s_os s) = []"
    and h: "page_header type sequance k final (p_header packet)"
  defines "r \<equiv> list_send c esz n packet s"
  shows "\<exists>pg. answered s (snd r) c pg \<and> page_ok type sequance esz k final pg \<and>
      page_entries esz get pg = map (\<lambda>j. get (mem_read (p_buffer packet) (j * esz) esz)) [0..<n] \<and>
      page_header type sequance k final (p_header (fst r)) \<and> p_buffer (fst r) = p_buffer packet"
proof -
  define p where "p = set_id_c 2 (of_nat n) packet"
  define q where "q = p\<lparr>p_header := (p_header p)\<lparr>h_data_size := of_nat (n * esz)\<rparr>\<rparr>"
  define pg where "pg = header_bytes (p_header q) @ mem_read (p_buffer packet) 0 (n * esz)"
  have r: "r = (q, count_tx c (snd (syncs_client_send c q s)))"
    by (simp add: r_def list_send_def Let_def p_def q_def)
  have u: "unat (of_nat (n * esz) :: u32) = n * esz" "unat (of_nat (n * esz) :: u16) = n * esz"
    using n(2) by (intro unat_of_nat_small; simp)+
  have "h_data_size (p_header q) = ucast (of_nat (n * esz) :: u32)"
    using n(2) u by (simp add: q_def unsigned_of_nat take_bit_nat_eq_self del: of_nat_mult)
  then have bytes: "packet_bytes q (SYNCS_PACKET_SIZE q) = pg"
    using packet_on_wire [of q "of_nat (n * esz)"] u n(2) by (simp add: pg_def q_def p_def set_id_c_def del: of_nat_mult)
  have c2: "unat (id_c (h_id (p_header q)) 2) = n"
    using n(1) by (simp add: q_def p_def set_id_c_def id_c_set_c unat_of_nat_small)
  have hq: "page_header type sequance k final (p_header q)"
    using h by (simp add: page_header_def q_def p_def set_id_c_def id_c_set_c)
  have "pg ! 11 = id_c (h_id (p_header q)) 2"
    using header_bytes_id [of 2 "p_header q"] by (simp add: pg_def nth_append)
  moreover have "take esz (drop (sizeof_syncs_header + j * esz) pg) = mem_read (p_buffer packet) (j * esz) esz" if "j < n" for j
  proof -
    have "j * esz + esz \<le> n * esz" using that by (metis Suc_leI add.commute mult_Suc mult_le_mono1)
    then show ?thesis by (simp add: pg_def mem_simps)
  qed
  ultimately have "page_entries esz get pg = map (\<lambda>j. get (mem_read (p_buffer packet) (j * esz) esz)) [0..<n]"
    by (simp add: page_entries_def c2)
  moreover have "page_ok type sequance esz k final pg"
    unfolding page_ok_def using hq c2 u
    by (intro exI [of _ "p_header q"] exI [of _ "mem_read (p_buffer packet) 0 (n * esz)"])
      (simp add: pg_def q_def del: of_nat_mult)
  moreover have "answered s (snd r) c pg" using answered_send [OF net bytes, of c] by (simp add: r)
  ultimately show ?thesis using hq by (auto simp: r q_def p_def set_id_c_def)
qed

lemma put_entry_outside:
  "(\<And>off bs. (off, bs) \<in> set fs \<Longrightarrow> off + length bs \<le> esz) \<Longrightarrow> k < base \<or> base + esz \<le> k \<Longrightarrow> put_entry base fs m k = m k"
proof (induction fs arbitrary: m)
  case (Cons f fs)
  obtain off bs where f: "f = (off, bs)" by fastforce
  have "off + length bs \<le> esz" using Cons.prems(1) [of off bs] by (simp add: f)
  then have "mem_put (base + off) bs m k = m k" using Cons.prems(2) by (intro mem_put_outside) auto
  moreover have "put_entry base fs (mem_put (base + off) bs m) k = mem_put (base + off) bs m k"
    by (rule Cons.IH) (use Cons.prems in auto)
  ultimately show ?case by (simp add: put_entry_def f)
qed (simp add: put_entry_def)

section \<open>Any table\<close>

locale table_list =
  fixes maxn esz cap :: nat
    and used :: "syncs_server \<Rightarrow> nat \<Rightarrow> bool"
    and entry :: "syncs_server \<Rightarrow> nat \<Rightarrow> (nat \<times> byte list) list"
    and get :: "byte list \<Rightarrow> 'v"
    and val :: "syncs_server \<Rightarrow> nat \<Rightarrow> 'v"
  assumes page_fits: "0 < maxn" "maxn < 256" "maxn * esz \<le> SYNCS_VARIABLE_SIZE_MAXIMUM"
    and entry_inside: "(off, bs) \<in> set (entry s i) \<Longrightarrow> off + length bs \<le> esz"
    and entry_get: "get (mem_read (put_entry base (entry s i) m) base esz) = val s i"
    and used_quiet: "quiet s t \<Longrightarrow> used t i = used s i"
    and val_quiet: "quiet s t \<Longrightarrow> val t i = val s i"
begin

definition packed :: "mem \<Rightarrow> nat \<Rightarrow> 'v list" where
  "packed m n = map (\<lambda>j. get (mem_read m (j * esz) esz)) [0..<n]"

lemma packed_put: "packed (put_entry (n * esz) (entry s i) m) (n + 1) = packed m n @ [val s i]"
proof -
  have "mem_read (put_entry (n * esz) (entry s i) m) (j * esz) esz = mem_read m (j * esz) esz" if "j < n" for j
  proof (rule mem_read_cong)
    fix k
    assume "k < esz"
    moreover have "j * esz + esz \<le> n * esz" using that by (metis Suc_leI add.commute mult_Suc mult_le_mono1)
    ultimately show "put_entry (n * esz) (entry s i) m (j * esz + k) = m (j * esz + k)"
      by (intro put_entry_outside [where esz = esz]) (auto dest: entry_inside)
  qed
  then show ?thesis by (simp add: packed_def entry_get)
qed

text \<open>
  The state of the loop after some indices: the pages sent so far and the entries packed so far are
  the used entries met so far.
\<close>

definition loop_ok ::
    "nat \<Rightarrow> u32 \<Rightarrow> byte \<Rightarrow> syncs_server \<Rightarrow> nat list \<Rightarrow> byte list list \<Rightarrow> syncs_packet \<times> nat \<times> syncs_server \<Rightarrow> bool" where
  "loop_ok c type sequance s is pages = (\<lambda>(p, n, t).
     n < maxn \<and> quiet s t \<and> os_script (s_os t) = [] \<and>
     os_sent (s_os t) = os_sent (s_os s) @ concat (map (\<lambda>pg. stream_to s pg [c]) pages) \<and>
     os_dgram (s_os t) = os_dgram (s_os s) @ concat (map (\<lambda>pg. dgram_to s pg [c]) pages) \<and>
     concat (map (page_entries esz get) pages) @ packed (p_buffer p) n = map (val s) (filter (used s) is) \<and>
     page_header type sequance (length pages) 0 (p_header p) \<and>
     (\<forall>k<length pages. page_ok type sequance esz k 0 (pages ! k) \<and> length (page_entries esz get (pages ! k)) = maxn))"

lemma list_send_step:
  assumes ok: "n < 256" "n * esz \<le> SYNCS_VARIABLE_SIZE_MAXIMUM" "quiet s t" "os_script (s_os t) = []"
      "os_sent (s_os t) = os_sent (s_os s) @ concat (map (\<lambda>pg. stream_to s pg [c]) pages)"
      "os_dgram (s_os t) = os_dgram (s_os s) @ concat (map (\<lambda>pg. dgram_to s pg [c]) pages)"
      "page_header type sequance k final (p_header p)"
  obtains pg where "quiet s (snd (list_send c esz n p t))" "os_script (s_os (snd (list_send c esz n p t))) = []"
    "os_sent (s_os (snd (list_send c esz n p t))) = os_sent (s_os s) @ concat (map (\<lambda>pg. stream_to s pg [c]) (pages @ [pg]))"
    "os_dgram (s_os (snd (list_send c esz n p t))) = os_dgram (s_os s) @ concat (map (\<lambda>pg. dgram_to s pg [c]) (pages @ [pg]))"
    "page_entries esz get pg = packed (p_buffer p) n" "page_ok type sequance esz k final pg"
    "page_header type sequance k final (p_header (fst (list_send c esz n p t)))"
proof -
  obtain pg where pg: "answered t (snd (list_send c esz n p t)) c pg" "page_ok type sequance esz k final pg"
      "page_entries esz get pg = packed (p_buffer p) n"
      "page_header type sequance k final (p_header (fst (list_send c esz n p t)))"
    using list_send_page [OF ok(1,2,4,7), of c get] by (auto simp: packed_def)
  have "stream_to t = stream_to s" "dgram_to t = dgram_to s"
    by (intro ext stream_to_cong; simp add: quiet_client [OF ok(3)] quiet_frame [OF ok(3)])+
  then show ?thesis
    using that [of pg] pg ok quiet_trans [OF ok(3) quiet_list_send] by (simp add: answered_def)
qed

lemma loop_step:
  assumes "loop_ok c type sequance s is pages st"
  shows "\<exists>pages'. loop_ok c type sequance s (is @ [i]) pages' (list_turn c maxn esz used entry i st)"
proof -
  obtain p n t where st: "st = (p, n, t)" by (metis prod_cases3)
  note ok = assms [unfolded loop_ok_def st, simplified]
  have used: "used t i = used s i" using ok used_quiet by blast
  show ?thesis
  proof (cases "used s i")
    case False
    then show ?thesis using assms by (intro exI [of _ pages]) (simp add: st list_turn_def used loop_ok_def)
  next
    case True
    let ?p = "p\<lparr>p_buffer := put_entry (n * esz) (entry t i) (p_buffer p)\<rparr>"
    have packed: "packed (p_buffer ?p) (n + 1) = packed (p_buffer p) n @ [val s i]"
      using packed_put ok val_quiet by simp
    show ?thesis
    proof (cases "n + 1 \<ge> maxn")
      case False
      then have "list_turn c maxn esz used entry i st = (?p, n + 1, t)"
        using True by (simp add: st list_turn_def used)
      then show ?thesis using ok packed True False by (intro exI [of _ pages]) (simp add: loop_ok_def flip: append_assoc)
    next
      case full: True
      then have n: "n + 1 = maxn" using ok by simp
      obtain q u where q: "list_send c esz (n + 1) ?p t = (q, u)" by fastforce
      have b: "n + 1 < 256" "(n + 1) * esz \<le> SYNCS_VARIABLE_SIZE_MAXIMUM" using n page_fits(2,3) by (simp_all only:)
      have o: "quiet s t" "os_script (s_os t) = []"
        "os_sent (s_os t) = os_sent (s_os s) @ concat (map (\<lambda>pg. stream_to s pg [c]) pages)"
        "os_dgram (s_os t) = os_dgram (s_os s) @ concat (map (\<lambda>pg. dgram_to s pg [c]) pages)"
        "page_header type sequance (length pages) 0 (p_header ?p)"
        using ok by simp_all
      obtain pg where pg: "quiet s u" "os_script (s_os u) = []"
        "os_sent (s_os u) = os_sent (s_os s) @ concat (map (\<lambda>pg. stream_to s pg [c]) (pages @ [pg]))"
        "os_dgram (s_os u) = os_dgram (s_os s) @ concat (map (\<lambda>pg. dgram_to s pg [c]) (pages @ [pg]))"
        "page_entries esz get pg = packed (p_buffer ?p) (n + 1)" "page_ok type sequance esz (length pages) 0 pg"
        "page_header type sequance (length pages) 0 (p_header q)"
        by (rule list_send_step [OF b o, unfolded q fst_conv snd_conv]) (rule that)
      have "list_turn c maxn esz used entry i st = (set_id_c 0 (id_c (h_id (p_header q)) 0 + 1) q, 0, u)"
        using True full q by (simp add: st list_turn_def used Let_def)
      moreover have "page_header type sequance (length (pages @ [pg])) 0 (p_header (set_id_c 0 (id_c (h_id (p_header q)) 0 + 1) q))"
        using pg(7) by (simp add: page_header_def set_id_c_def id_c_set_c)
      moreover have "concat (map (page_entries esz get) (pages @ [pg])) = map (val s) (filter (used s) (is @ [i]))"
        using ok packed True pg(5) by (simp flip: append_assoc)
      moreover have "length (page_entries esz get pg) = maxn" using pg(5) n by (simp add: packed_def)
      ultimately show ?thesis
        using pg ok page_fits(1) by (intro exI [of _ "pages @ [pg]"]) (auto simp: loop_ok_def packed_def nth_append less_Suc_eq)
    qed
  qed
qed

lemma loop_all:
  assumes "loop_ok c type sequance s [] [] (p, 0, s)"
  shows "\<exists>pages. loop_ok c type sequance s [0..<k] pages (fold (list_turn c maxn esz used entry) [0..<k] (p, 0, s))"
proof (induction k)
  case (Suc k)
  then show ?case using loop_step by fastforce
qed (use assms in auto)

lemma list_complete:
  fixes c :: nat and type :: u32 and pages sequance :: byte
  assumes net: "os_script (s_os s) = []"
  defines "t \<equiv> send_list c type pages sequance maxn esz cap used entry s"
  shows "\<exists>pgs. os_sent (s_os t) = os_sent (s_os s) @ concat (map (\<lambda>pg. stream_to s pg [c]) pgs) \<and>
      os_dgram (s_os t) = os_dgram (s_os s) @ concat (map (\<lambda>pg. dgram_to s pg [c]) pgs) \<and>
      concat (map (page_entries esz get) pgs) = map (val s) (filter (used s) [0..<cap]) \<and> pgs \<noteq> [] \<and>
      (\<forall>k<length pgs. page_ok type sequance esz k (if Suc k = length pgs then 1 else 0) (pgs ! k) \<and>
         length (page_entries esz get (pgs ! k)) \<le> maxn)"
proof -
  let ?p = "list_start type pages sequance (os_stack (s_os s))"
  have "page_header type sequance 0 0 (p_header ?p)"
    by (simp add: page_header_def list_start_def set_id_c_def id_c_set_c Let_def)
  then have "loop_ok c type sequance s [] [] (?p, 0, s)"
    using net page_fits(1) by (simp add: loop_ok_def packed_def)
  then obtain pgs where "loop_ok c type sequance s [0..<cap] pgs (fold (list_turn c maxn esz used entry) [0..<cap] (?p, 0, s))"
    using loop_all by blast
  moreover obtain p n u where u: "fold (list_turn c maxn esz used entry) [0..<cap] (?p, 0, s) = (p, n, u)" by (metis prod_cases3)
  ultimately have ok: "loop_ok c type sequance s [0..<cap] pgs (p, n, u)" by simp
  note ok = ok [unfolded loop_ok_def, simplified]
  let ?q = "set_id_c 4 1 p"
  have hq: "page_header type sequance (length pgs) 1 (p_header ?q)"
    using ok by (simp add: page_header_def set_id_c_def id_c_set_c)
  have nn: "n < 256" "n * esz \<le> SYNCS_VARIABLE_SIZE_MAXIMUM"
    using ok page_fits by (auto intro: order_trans [OF mult_le_mono1 [of n maxn esz]])
  have o: "quiet s u" "os_script (s_os u) = []"
    "os_sent (s_os u) = os_sent (s_os s) @ concat (map (\<lambda>pg. stream_to s pg [c]) pgs)"
    "os_dgram (s_os u) = os_dgram (s_os s) @ concat (map (\<lambda>pg. dgram_to s pg [c]) pgs)"
    using ok by simp_all
  obtain pg where pg:
    "os_sent (s_os (snd (list_send c esz n ?q u))) = os_sent (s_os s) @ concat (map (\<lambda>pg. stream_to s pg [c]) (pgs @ [pg]))"
    "os_dgram (s_os (snd (list_send c esz n ?q u))) = os_dgram (s_os s) @ concat (map (\<lambda>pg. dgram_to s pg [c]) (pgs @ [pg]))"
    "page_entries esz get pg = packed (p_buffer ?q) n" "page_ok type sequance esz (length pgs) 1 pg"
    by (rule list_send_step [OF nn o hq]) (rule that)
  have t: "t = snd (list_send c esz n ?q u)" by (simp add: t_def send_list_def u Let_def)
  have "concat (map (page_entries esz get) (pgs @ [pg])) = map (val s) (filter (used s) [0..<cap])"
    using ok pg(3) by (simp add: set_id_c_def)
  moreover have "page_ok type sequance esz k (if Suc k = length (pgs @ [pg]) then 1 else 0) ((pgs @ [pg]) ! k) \<and>
      length (page_entries esz get ((pgs @ [pg]) ! k)) \<le> maxn" if "k < length (pgs @ [pg])" for k
    using that ok pg(3,4) by (auto simp: nth_append less_Suc_eq packed_def)
  ultimately show ?thesis using pg(1,2) by (intro exI [of _ "pgs @ [pg]"]) (auto simp: t)
qed

end

section \<open>The three lists\<close>

text \<open>What a receiver takes out of an entry, and what it stands for.\<close>

definition client_fields :: "byte list \<Rightarrow> syncsid \<times> u32 \<times> u32 \<times> u32 \<times> u32" where
  "client_fields bs = (id_of_bytes (take 32 bs), le_word (take 4 (drop 32 bs)), le_word (take 4 (drop 36 bs)),
     le_word (take 4 (drop 40 bs)), le_word (take 4 (drop 48 bs)))"

definition client_facts :: "syncs_server \<Rightarrow> nat \<Rightarrow> syncsid \<times> u32 \<times> u32 \<times> u32 \<times> u32" where
  "client_facts s i = (let cl = s_clients s i in
     (c_id cl, c_event_subscribe cl, c_event_write cl, c_rx_event_count cl, sin_addr (c_addr cl)))"

definition event_fields :: "byte list \<Rightarrow> syncsid \<times> u32 \<times> u32 \<times> u32 \<times> u32 \<times> u16 \<times> byte list" where
  "event_fields bs = (id_of_bytes (take 32 bs), le_word (take 4 (drop 32 bs)), le_word (take 4 (drop 78 bs)),
     le_word (take 4 (drop 82 bs)), le_word (take 4 (drop 86 bs)), le_word (take 2 (drop 68 bs)),
     take (min 32 (unat (le_word (take 2 (drop 68 bs)) :: u16))) (drop 36 bs))"

definition event_facts :: "syncs_server \<Rightarrow> nat \<Rightarrow> syncsid \<times> u32 \<times> u32 \<times> u32 \<times> u32 \<times> u16 \<times> byte list" where
  "event_facts s i = (let e = s_events s i in
     (e_id e, e_data_type e, e_count e, e_consumers_count e, e_producers_count e, ucast (e_data_size e),
      mem_read (e_data e) 0 (min 32 (unat (ucast (e_data_size e) :: u16)))))"

definition channel_fields :: "byte list \<Rightarrow> syncsid \<times> u32 \<times> u32 \<times> u32 \<times> u16" where
  "channel_fields bs = (id_of_bytes (take 32 bs), le_word (take 4 (drop 32 bs)), le_word (take 4 (drop 36 bs)),
     le_word (take 4 (drop 40 bs)), le_word (take 2 (drop 44 bs)))"

definition channel_facts :: "syncs_server \<Rightarrow> nat \<Rightarrow> syncsid \<times> u32 \<times> u32 \<times> u32 \<times> u16" where
  "channel_facts s i = (let ch = s_channels s i in
     (ch_id ch, ch_anons_count ch, ch_request_count ch, t_ip (ch_ticket ch), t_port (ch_ticket ch)))"

interpretation clients: table_list 9 52 SYNCS_CLIENT_MAXIMUM client_used syncs_client_info client_fields client_facts
proof
  show "client_fields (mem_read (put_entry base (syncs_client_info s i) m) base 52) = client_facts s i" for base s i m
    by (simp add: client_fields_def client_facts_def syncs_client_info_def put_entry_def Let_def mem_simps le_simps)
qed (auto simp: syncs_client_info_def Let_def client_used_def client_facts_def quiet_client)

lemma unat_ucast16_le: "unat (ucast (w :: u32) :: u16) \<le> unat w"
  by (simp add: unsigned_ucast_eq)

interpretation events: table_list 5 90 SYNCS_EVENT_MAXIMUM event_used syncs_event_info event_fields event_facts
proof
  fix base i :: nat and s :: syncs_server and m :: mem
  let ?e = "s_events s i"
  let ?m = "put_entry base (syncs_event_info s i) m"
  let ?k = "min 32 (unat (ucast (e_data_size ?e) :: u16))"
  have full: "mem_read ?m (base + 36) (min (unat (e_data_size ?e)) 32) = mem_read (e_data ?e) 0 (min (unat (e_data_size ?e)) 32)"
    by (simp add: syncs_event_info_def put_entry_def Let_def mem_simps)
  have "?k \<le> min (unat (e_data_size ?e)) 32" using unat_ucast16_le [of "e_data_size ?e"] by auto
  then have "mem_read ?m (base + 36) ?k = mem_read (e_data ?e) 0 ?k"
    using arg_cong [OF full, of "take ?k"] by (simp only: take_mem_read min.absorb1)
  then show "event_fields (mem_read ?m base 90) = event_facts s i"
    by (simp add: event_fields_def event_facts_def syncs_event_info_def put_entry_def Let_def mem_simps le_simps)
qed (auto simp: syncs_event_info_def Let_def event_used_def event_facts_def quiet_frame)

interpretation channels: table_list 11 46 SYNCS_CHANNEL_MAXIMUM channel_used syncs_channel_info channel_fields channel_facts
proof
  show "channel_fields (mem_read (put_entry base (syncs_channel_info s i) m) base 46) = channel_facts s i" for base s i m
    by (simp add: channel_fields_def channel_facts_def syncs_channel_info_def put_entry_def Let_def mem_simps le_simps)
qed (auto simp: syncs_channel_info_def Let_def channel_used_def channel_facts_def quiet_frame)

text \<open>
  \<open>list_delivered s t c type sequance esz maxn get vals\<close>: between \<open>s\<close> and \<open>t\<close> client \<open>c\<close>, and nobody else, was
  sent at least one page; the pages are numbered from 0, carry the type and the sequence number of the
  request, announce as many bytes as they hold, and only the last is marked as last; each has at most \<open>maxn\<close>
  entries, and the entries of all pages in order are \<open>vals\<close>.
\<close>

definition list_delivered ::
    "syncs_server \<Rightarrow> syncs_server \<Rightarrow> nat \<Rightarrow> u32 \<Rightarrow> byte \<Rightarrow> nat \<Rightarrow> nat \<Rightarrow> (byte list \<Rightarrow> 'v) \<Rightarrow> 'v list \<Rightarrow> bool" where
  "list_delivered s t c type sequance esz maxn get vals \<longleftrightarrow>
     (\<exists>pgs. os_sent (s_os t) = os_sent (s_os s) @ concat (map (\<lambda>pg. stream_to s pg [c]) pgs) \<and>
      os_dgram (s_os t) = os_dgram (s_os s) @ concat (map (\<lambda>pg. dgram_to s pg [c]) pgs) \<and>
      concat (map (page_entries esz get) pgs) = vals \<and> pgs \<noteq> [] \<and>
      (\<forall>k<length pgs. page_ok type sequance esz k (if Suc k = length pgs then 1 else 0) (pgs ! k) \<and>
         length (page_entries esz get (pgs ! k)) \<le> maxn))"

text \<open>
  The list of events is complete. When the network takes what is sent, a client that asks for the event
  list is sent pages of at most 5 entries that together carry every event in use exactly once, in
  table order, with its id, type, counters and the first 32 bytes of its data; nothing is left out at a page
  boundary, and the last page is marked.
\<close>

lemma event_list_complete:
  assumes "os_script (s_os s) = []"
  shows "list_delivered s (syncs_client_send_eventlist c sequance s) c SYNCS_TYPE_EVENT_LIST sequance 90 5 event_fields
    (map (event_facts s) (filter (event_used s) [0..<SYNCS_EVENT_MAXIMUM]))"
  unfolding list_delivered_def syncs_client_send_eventlist_def using events.list_complete [OF assms] .

text \<open>
  The list of clients is complete: pages of at most 9 entries carry every client slot in use exactly
  once, in table order, with its id, its subscription, write and receive counters and its address.
\<close>

lemma client_list_complete:
  assumes "os_script (s_os s) = []"
  shows "list_delivered s (syncs_client_send_clientlist c sequance s) c SYNCS_TYPE_CLIENT_LIST sequance 52 9 client_fields
    (map (client_facts s) (filter (client_used s) [0..<SYNCS_CLIENT_MAXIMUM]))"
  unfolding list_delivered_def syncs_client_send_clientlist_def using clients.list_complete [OF assms] .

text \<open>
  The list of channels is complete: pages of at most 11 entries carry every channel in use exactly
  once, in table order, with its id, counters, address and port.
\<close>

lemma channel_list_complete:
  assumes "os_script (s_os s) = []"
  shows "list_delivered s (syncs_client_send_channellist c sequance s) c SYNCS_TYPE_CHANNEL_LIST sequance 46 11 channel_fields
    (map (channel_facts s) (filter (channel_used s) [0..<SYNCS_CHANNEL_MAXIMUM]))"
  unfolding list_delivered_def syncs_client_send_channellist_def using channels.list_complete [OF assms] .

end
