(* ===== verification/Server_Channels.thy ===== *)
theory Server_Channels
  imports Server_Lists
begin

unbundle bit_operations_syntax

text \<open>
  Channels: a client announces (\<open>ANONS\<close>) that it offers a channel, other clients request the ticket that says
  where to connect. \<open>room\<close> is the number of bytes that the receive buffer still has from the data of
  the packet on; the ticket of an announcement is copied from there without a look at the size of the packet.
\<close>

definition syncs_add_channel :: "nat \<Rightarrow> syncsid \<Rightarrow> u32 \<Rightarrow> mem \<Rightarrow> nat \<Rightarrow> syncs_server \<Rightarrow> int \<times> syncs_server" where
  "syncs_add_channel c x flags ticket room s =
     (let (channel, s) = (case syncs_find_channel s x of
                            Some i \<Rightarrow> (Some i, s)
                          | None \<Rightarrow> syncs_create_channel s x)
      in case channel of
           None \<Rightarrow> (-1, s)
         | Some i \<Rightarrow>
             (let s = upd_channel i (\<lambda>ch. ch\<lparr>ch_anons_count := ch_anons_count ch + 1\<rparr>) s;
                  s = upd_os (fault_if (room < sizeof_syncs_channel_ticket)) s;
                  s = upd_channel i (\<lambda>ch. ch\<lparr>ch_ticket := ticket_of_bytes (mem_read ticket 0 sizeof_syncs_channel_ticket)\<rparr>) s;
                  s = upd_channel i (\<lambda>ch. ch\<lparr>ch_ticket := (ch_ticket ch)\<lparr>t_ip := sin_addr (c_addr (s_clients s c))\<rparr>\<rparr>) s
              in (0, if ch_producer (s_channels s i) \<noteq> Some c
                     then upd_channel i (\<lambda>ch. ch\<lparr>ch_producer := Some c, ch_producers_count := ch_producers_count ch + 1\<rparr>) s
                     else s)))"

definition syncs_client_channel_request :: "nat \<Rightarrow> syncsid \<Rightarrow> u32 \<Rightarrow> syncs_server \<Rightarrow> int \<times> syncs_server" where
  "syncs_client_channel_request c x flags s =
     (case syncs_find_channel s x of
        None \<Rightarrow> (-1, s)
      | Some i \<Rightarrow>
          (let packet = os_stack (s_os s);
               packet = packet\<lparr>p_header := (syncs_fill_header x SYNCS_CHANNEL_TICKET (p_header packet))\<lparr>h_data_size := 10\<rparr>,
                               p_buffer := mem_put 0 (ticket_bytes (ch_ticket (s_channels s i))) (p_buffer packet)\<rparr>
           in (0, snd (syncs_client_send c packet s))))"

definition syncs_client_channel :: "nat \<Rightarrow> syncs_header \<Rightarrow> mem \<Rightarrow> nat \<Rightarrow> syncs_server \<Rightarrow> int \<times> syncs_server" where
  "syncs_client_channel c header data room s =
     (let t = h_type header AND SYNCS_CHANNEL_MASK
      in if t = SYNCS_CHANNEL_ANONS then (0, snd (syncs_add_channel c (h_id header) (h_type header) data room s))
         else if t = SYNCS_CHANNEL_REQUEST then (0, snd (syncs_client_channel_request c (h_id header) (h_type header) s))
         else (-1, s))"

section \<open>The invariant\<close>

lemma server_inv_upd_channel [inv_intros]:
  assumes "server_inv s" "ch_id (f (s_channels s i)) = ch_id (s_channels s i)"
    "\<And>c. ch_producer (f (s_channels s i)) = Some c \<Longrightarrow> i < SYNCS_CHANNEL_MAXIMUM \<Longrightarrow> c < SYNCS_CLIENT_MAXIMUM"
  shows "server_inv (upd_channel i f s)"
proof -
  have "(\<lambda>j. ch_id (s_channels (upd_channel i f s) j)) = (\<lambda>j. ch_id (s_channels s j))" using assms(2) by auto
  then show ?thesis using assms(1,3) by (auto simp: server_inv_def)
qed

lemma inv_producer:
  "server_inv s \<Longrightarrow> i < SYNCS_CHANNEL_MAXIMUM \<Longrightarrow> ch_producer (s_channels s i) = Some c \<Longrightarrow> c < SYNCS_CLIENT_MAXIMUM"
  by (simp add: server_inv_def)

text \<open>What an announcement assigns to the channel it has found or made.\<close>

definition announce :: "nat \<Rightarrow> u32 \<Rightarrow> mem \<Rightarrow> syncs_channel \<Rightarrow> syncs_channel" where
  "announce c ip ticket ch =
     ch\<lparr>ch_ticket := (ticket_of_bytes (mem_read ticket 0 sizeof_syncs_channel_ticket))\<lparr>t_ip := ip\<rparr>,
        ch_anons_count := ch_anons_count ch + 1, ch_producer := Some c,
        ch_producers_count := (if ch_producer ch \<noteq> Some c then ch_producers_count ch + 1 else ch_producers_count ch)\<rparr>"

lemma add_channel_cases:
  assumes "sizeof_syncs_channel_ticket \<le> room"
  obtains (full) "syncs_find_channel s x = None" "fst (syncs_create_channel s x) = None"
      "syncs_add_channel c x flags ticket room s = (-1, s)"
  | (made) i t where "(syncs_find_channel s x = Some i \<and> t = s) \<or>
        (syncs_find_channel s x = None \<and> syncs_create_channel s x = (Some i, t))"
      "syncs_add_channel c x flags ticket room s = (0, upd_channel i (announce c (sin_addr (c_addr (s_clients t c))) ticket) t)"
proof -
  have step: "(let s = upd_channel i (\<lambda>ch. ch\<lparr>ch_anons_count := ch_anons_count ch + 1\<rparr>) t;
                  s = upd_os (fault_if (room < sizeof_syncs_channel_ticket)) s;
                  s = upd_channel i (\<lambda>ch. ch\<lparr>ch_ticket := ticket_of_bytes (mem_read ticket 0 sizeof_syncs_channel_ticket)\<rparr>) s;
                  s = upd_channel i (\<lambda>ch. ch\<lparr>ch_ticket := (ch_ticket ch)\<lparr>t_ip := sin_addr (c_addr (s_clients s c))\<rparr>\<rparr>) s
              in if ch_producer (s_channels s i) \<noteq> Some c
                 then upd_channel i (\<lambda>ch. ch\<lparr>ch_producer := Some c, ch_producers_count := ch_producers_count ch + 1\<rparr>) s
                 else s)
      = upd_channel i (announce c (sin_addr (c_addr (s_clients t c))) ticket) t" for i t
    using assms
    by (cases "s_channels t i"; cases "ch_producer (s_channels t i) = Some c")
      (simp_all add: Let_def quiet_fault_if upd_channel_def announce_def)
  show ?thesis
  proof (cases "syncs_find_channel s x")
    case None
    obtain r t where cr: "syncs_create_channel s x = (r, t)" by fastforce
    show ?thesis
    proof (cases r)
      case r: None
      then show ?thesis
        using full None cr ch.create_None_same [of s x] by (simp add: syncs_add_channel_def)
    next
      case (Some i)
      then show ?thesis
        using made [of i t] None cr step [of i t] by (simp add: syncs_add_channel_def Let_def)
    qed
  next
    case (Some i)
    then show ?thesis using made [of i s] step [of i s] by (simp add: syncs_add_channel_def Let_def)
  qed
qed

lemma announce_simps [simp]:
  "ch_id (announce c ip ticket ch) = ch_id ch" "ch_producer (announce c ip ticket ch) = Some c"
  "ch_ticket (announce c ip ticket ch) = (ticket_of_bytes (mem_read ticket 0 sizeof_syncs_channel_ticket))\<lparr>t_ip := ip\<rparr>"
  by (simp_all add: announce_def)

lemma add_channel_inv:
  assumes inv: "server_inv s" and c: "c < SYNCS_CLIENT_MAXIMUM" and room: "sizeof_syncs_channel_ticket \<le> room"
  shows "server_inv (snd (syncs_add_channel c x flags ticket room s))"
  using room
proof (cases rule: add_channel_cases [where s = s and x = x and c = c and flags = flags and ticket = ticket])
  case (made i t)
  then have "server_inv t" using inv create_channel_inv [OF inv, of x] by auto
  then have "server_inv (upd_channel i (announce c (sin_addr (c_addr (s_clients t c))) ticket) t)"
    using c by (intro server_inv_upd_channel) simp_all
  then show ?thesis by (simp add: made(2))
qed (use inv in simp)

lemma quiet_channel_request: "quiet s (snd (syncs_client_channel_request c x flags s))"
  by (auto simp: syncs_client_channel_request_def Let_def quiet_client_send split: option.splits)

lemma client_channel_inv:
  "server_inv s \<Longrightarrow> c < SYNCS_CLIENT_MAXIMUM \<Longrightarrow> sizeof_syncs_channel_ticket \<le> room \<Longrightarrow>
     server_inv (snd (syncs_client_channel c header data room s))"
  using quiet_inv [OF quiet_channel_request [of s c "h_id header" "h_type header"]]
  by (simp add: syncs_client_channel_def Let_def add_channel_inv)

lemma add_channel_events:
  assumes "sizeof_syncs_channel_ticket \<le> room"
  shows "s_events (snd (syncs_add_channel c x flags ticket room s)) = s_events s"
    and "s_os (snd (syncs_add_channel c x flags ticket room s)) = s_os s"
    and "s_clients (snd (syncs_add_channel c x flags ticket room s)) = s_clients s"
  using assms
  by (cases rule: add_channel_cases [where s = s and x = x and c = c and flags = flags and ticket = ticket];
      use create_channel_new [of s x] in force)+

section \<open>Tickets\<close>

lemma add_channel_found:
  assumes inv: "server_inv s" and x: "live_id x" and room: "sizeof_syncs_channel_ticket \<le> room"
    and ok: "fst (syncs_add_channel c x flags ticket room s) = 0"
  defines "t \<equiv> snd (syncs_add_channel c x flags ticket room s)"
  shows "\<exists>i. syncs_find_channel t x = Some i \<and> ch_producer (s_channels t i) = Some c \<and>
    ch_ticket (s_channels t i) = (ticket_of_bytes (mem_read ticket 0 sizeof_syncs_channel_ticket))\<lparr>t_ip := sin_addr (c_addr (s_clients s c))\<rparr>"
  using room
proof (cases rule: add_channel_cases [where s = s and x = x and c = c and flags = flags and ticket = ticket])
  case full
  then show ?thesis using ok by simp
next
  case (made i u)
  have u: "server_inv u" "i < SYNCS_CHANNEL_MAXIMUM" "ch_id (s_channels u i) = x" "s_clients u = s_clients s"
    using made(1) inv create_channel_inv [OF inv, of x] ch.find_Some [of s x i] ch.create_Some [of s x i] create_channel_new [of s x i]
    by (auto simp: syncs_channel_init_def)
  have t: "t = upd_channel i (announce c (sin_addr (c_addr (s_clients u c))) ticket) u" by (simp add: t_def made(2))
  have "(\<lambda>j. ch_id (s_channels t j)) = (\<lambda>j. ch_id (s_channels u j))" by (auto simp: t)
  then have "unique_ids SYNCS_CHANNEL_MAXIMUM (\<lambda>j. ch_id (s_channels t j))" using inv_channel_ids [OF u(1)] by simp
  then have "syncs_find_channel t x = Some i" using ch.find_live [OF _ x, of t i] u by (simp add: t)
  then show ?thesis by (simp add: t u(4))
qed

text \<open>
  C31: A ticket leads to the client that announced the channel. After client \<open>c\<close> has announced a channel,
  any client \<open>d\<close> that requests it is sent one packet with the channel's id and a ticket that has the
  port and flags of the announcement and the address \<open>c\<close> is connected from, whatever address the announcement
  named. The type word of that packet is \<open>SYNCS_CHANNEL_TICKET\<close> alone, its message type is EMPTY.
\<close>

theorem channel_ticket_delivered:
  assumes inv: "server_inv s" and x: "live_id x" and room: "sizeof_syncs_channel_ticket \<le> room"
    and net: "os_script (s_os s) = []"
    and ok: "fst (syncs_add_channel c x flags ticket room s) = 0"
  shows "\<exists>h. data_header x SYNCS_CHANNEL_TICKET sizeof_syncs_channel_ticket h \<and> h_type h AND SYNCS_TYPE_MSG_MASK = SYNCS_TYPE_EMPTY \<and>
    (let t = snd (syncs_add_channel c x flags ticket room s)
     in answered t (snd (syncs_client_channel_request d x flags' t)) d
          (header_bytes h @ ticket_bytes ((ticket_of_bytes (mem_read ticket 0 sizeof_syncs_channel_ticket))
             \<lparr>t_ip := sin_addr (c_addr (s_clients s c))\<rparr>)))"
proof -
  define t where "t = snd (syncs_add_channel c x flags ticket room s)"
  obtain i where i: "syncs_find_channel t x = Some i"
    and tk: "ch_ticket (s_channels t i) = (ticket_of_bytes (mem_read ticket 0 sizeof_syncs_channel_ticket))\<lparr>t_ip := sin_addr (c_addr (s_clients s c))\<rparr>"
    using add_channel_found [OF inv x room ok] by (auto simp: t_def)
  define p where "p = (os_stack (s_os t))\<lparr>p_header := (syncs_fill_header x SYNCS_CHANNEL_TICKET (p_header (os_stack (s_os t))))\<lparr>h_data_size := 10\<rparr>,
      p_buffer := mem_put 0 (ticket_bytes (ch_ticket (s_channels t i))) (p_buffer (os_stack (s_os t)))\<rparr>"
  have "os_script (s_os t) = []" using net add_channel_events(2) [OF room] by (simp add: t_def)
  moreover have "packet_bytes p (SYNCS_PACKET_SIZE p) = header_bytes (p_header p) @ ticket_bytes (ch_ticket (s_channels t i))"
    using packet_on_wire [of p 10] by (simp add: p_def mem_read_put)
  moreover have "snd (syncs_client_channel_request d x flags' t) = snd (syncs_client_send d p t)"
    by (simp add: syncs_client_channel_request_def i Let_def p_def)
  ultimately have "answered t (snd (syncs_client_channel_request d x flags' t)) d
      (header_bytes (p_header p) @ ticket_bytes (ch_ticket (s_channels t i)))"
    by (simp add: answered_def client_send_ideal)
  moreover have "data_header x SYNCS_CHANNEL_TICKET sizeof_syncs_channel_ticket (p_header p)"
    by (simp add: data_header_def p_def syncs_fill_header_def syncs_fill_basic_header_def Let_def)
  ultimately show ?thesis
    by (intro exI [of _ "p_header p"]) (simp add: t_def [symmetric] tk data_header_def)
qed

theorem channel_ticket_delivered_witness:
  "\<exists>h. let t = snd (syncs_add_channel 3 (syncs_idstr (cstr ''a'')) 0x100d (mem_of [1, 2, 3, 4, 5, 6, 7, 8, 9, 10]) 10 sample_subscribed)
     in answered t (snd (syncs_client_channel_request 5 (syncs_idstr (cstr ''a'')) 0x200d t)) 5
          (header_bytes h @ ticket_bytes \<lparr>t_ip = 0, t_port = 0x0605, t_flags = 0x0a090807\<rparr>)"
proof -
  let ?a = "syncs_idstr (cstr ''a'')"
  let ?m = "mem_of [1, 2, 3, 4, 5, 6, 7, 8, 9, 10]"
  have ch: "s_channels sample_subscribed = s_channels sample_server" "sin_addr (c_addr (s_clients sample_subscribed 3)) = 0"
    by (simp_all add: sample_subscribed_def add_client_to_event_frame create_event_frame sample_server_fields zero_client_def)
  have "id_i0 (ch_id (s_channels sample_subscribed i)) = -1" if "i < SYNCS_CHANNEL_MAXIMUM" for i
    using that by (simp add: ch sample_server_fields)
  then have none: "fst (syncs_create_channel sample_subscribed ?a) \<noteq> None"
    unfolding ch.create_None live_id_def by (meson zero_less_numeral)
  have ok: "fst (syncs_add_channel 3 ?a 0x100d ?m 10 sample_subscribed) = 0"
    by (rule add_channel_cases [of 10 sample_subscribed ?a 3 "0x100d" ?m]) (use none in auto)
  have bytes: "mem_read ?m 0 10 = [1, 2, 3, 4, 5, 6, 7, 8, 9, 10]" by (simp add: mem_read_mem_of)
  have "(ticket_of_bytes [1, 2, 3, 4, 5, 6, 7, 8, 9, 10])\<lparr>t_ip := 0\<rparr> = \<lparr>t_ip = 0, t_port = 0x0605, t_flags = 0x0a090807\<rparr>"
    by (simp add: ticket_of_bytes_def)
  then show ?thesis
    using channel_ticket_delivered [OF sample_subscribed_facts(1) live_id_a _ _ ok, of 5 "0x200d"]
    by (auto simp: sample_subscribed_facts(3) idle_os_def ch(2) bytes Let_def)
qed

end
