(* ===== verification/Server_Dispatch.thy ===== *)
theory Server_Dispatch
  imports Sockets Server_Api Server_Channels
begin

unbundle bit_operations_syntax

text \<open>
  How bytes from the network become requests: \<open>syncs_client_process_packet\<close> dispatches one packet,
  \<open>syncs_client_handler\<close> cuts the stream of a TCP client into packets, \<open>syncs_udp_handler\<close> takes a datagram,
  \<open>syncs_add_client\<close> and \<open>syncs_add_uclient\<close> admit new clients.

  What \<open>recv\<close>, \<open>recvfrom\<close> and \<open>accept\<close> return is an argument of the handlers.
\<close>

section \<open>One packet\<close>

definition syncs_client_process_packet ::
    "callback \<Rightarrow> nat \<Rightarrow> syncs_packet \<Rightarrow> nat \<Rightarrow> syncs_server \<Rightarrow> int \<times> syncs_server" where
  "syncs_client_process_packet call c packet room s =
     (let header = p_header packet;
          data = p_buffer packet;
          x = h_id header;
          msg = h_type header AND SYNCS_TYPE_MSG_MASK;
          received = (\<lambda>s. (0, upd_client c (\<lambda>cl. cl\<lparr>c_rx_event_count := c_rx_event_count cl + 1\<rparr>) s))
      in if msg = SYNCS_TYPE_SUBSCRIBE then
           received (snd (syncs_client_subscribe c x (h_type header) (h_update_counter header) s))
         else if msg = SYNCS_TYPE_UNSUBSCRIBE then received (syncs_client_unsubscribe c x s)
         else if msg = SYNCS_TYPE_DEFINE then
           received (snd (syncs_add_event x (h_type header) None (ucast (h_data_size header)) s))
         else if msg = SYNCS_TYPE_UNDEFINE then received (syncs_free_event s x)
         else if msg = SYNCS_TYPE_WRITE then
           received (snd (syncs_client_write call c x (h_type header) data (ucast (h_data_size header)) s))
         else if msg = SYNCS_TYPE_READ then received (syncs_client_read c x s)
         else if msg = SYNCS_TYPE_CLIENT_LIST then received (syncs_client_send_clientlist c (id_c x 0) s)
         else if msg = SYNCS_TYPE_EVENT_LIST then received (syncs_client_send_eventlist c (id_c x 0) s)
         else if msg = SYNCS_TYPE_CLIENT_ID then
           (let sync = h_sync header;
                s = (if data0 sync \<noteq> SYNCS_VERSION_MAJOR
                     then syncs_close_client_socket c (syncs_send_server_status c SYNCS_ERROR_NOTSUPPORT s)
                     else syncs_send_server_status c SYNCS_ERROR_NOTFOUND s)
            in received (upd_client c (\<lambda>cl. cl\<lparr>c_id := x,
                 c_version := push_bit 8 (data0 sync AND 0xff) OR (data1 sync AND 0xff)\<rparr>) s))
         else if msg = SYNCS_TYPE_CHANNEL then received (snd (syncs_client_channel c header data room s))
         else if msg = SYNCS_TYPE_CHANNEL_LIST then received (syncs_client_send_channellist c (id_c x 0) s)
         else (-1, s))"

section \<open>The stream of a TCP client\<close>

text \<open>
  The loop of \<open>syncs_client_handler\<close>: \<open>recv\<close> bytes are in the buffer, \<open>head\<close> is the index it has
  reached. It returns the final \<open>head\<close>. The size field is masked in the buffer itself, and read again from there after the
  packet was processed.
\<close>

definition buffer_header :: "nat \<Rightarrow> nat \<Rightarrow> syncs_server \<Rightarrow> syncs_header" where
  "buffer_header c head s = header_of_bytes (mem_read (c_buffer (s_clients s c)) head sizeof_syncs_header)"

definition put_data_size :: "nat \<Rightarrow> nat \<Rightarrow> u16 \<Rightarrow> syncs_server \<Rightarrow> syncs_server" where
  "put_data_size c head n = upd_client c (\<lambda>cl. cl\<lparr>c_buffer := mem_put (head + 57) (le_bytes 2 n) (c_buffer cl)\<rparr>)"

function rx_loop :: "callback \<Rightarrow> nat \<Rightarrow> nat \<Rightarrow> nat \<Rightarrow> syncs_server \<Rightarrow> nat \<times> syncs_server" where
  "rx_loop call c recv head s =
     (if recv < head + sizeof_syncs_header then (head, s)
      else
        (let header = buffer_header c head s
         in if h_magic header \<noteq> SYNCS_PACKET_MAGIC then rx_loop call c recv (head + 1) s
            else if h_magic_data header \<noteq> SYNCS_PACKET_MAGIC_DATA then rx_loop call c recv (head + 1) s
            else
              (let s = put_data_size c head (h_data_size header AND 0x1ff) s;
                   header = buffer_header c head s
               in if recv - head < sizeof_syncs_header + unat (h_data_size header) then (head, s)
                  else
                    (let s = snd (syncs_client_process_packet call c (packet_at (c_buffer (s_clients s c)) head)
                                    (SYNCS_CLIENT_BUFFER_SIZE - (head + sizeof_syncs_header)) s)
                     in rx_loop call c recv (head + sizeof_syncs_header + unat (h_data_size (buffer_header c head s))) s))))"
  by pat_completeness auto
termination
  by (relation "measure (\<lambda>(call, c, recv, head, s). recv - head)") auto

declare rx_loop.simps [simp del]

text \<open>What \<open>recv\<close> gives: an error, with whether \<open>errno\<close> is EAGAIN or EINTR, or bytes, none when the peer has closed.\<close>

datatype recv_result = Recv_error bool | Recv "byte list"

definition syncs_client_handler :: "callback \<Rightarrow> recv_result \<Rightarrow> nat \<Rightarrow> syncs_server \<Rightarrow> syncs_server" where
  "syncs_client_handler call r c s =
     (let recv = c_buffer_recv (s_clients s c);
          s = upd_os (fault_if (recv > SYNCS_CLIENT_BUFFER_SIZE)) s
      in case r of
           Recv_error again \<Rightarrow> if again then s else syncs_close_client_socket c s
         | Recv bytes \<Rightarrow>
             (let bytes = take (SYNCS_CLIENT_BUFFER_SIZE - recv) bytes;
                  s = upd_os (fault_if (recv + length bytes > SYNCS_CLIENT_BUFFER_SIZE)) s;
                  s = upd_client c (\<lambda>cl. cl\<lparr>c_buffer := mem_put recv bytes (c_buffer cl)\<rparr>) s
              in if length bytes < sizeof_syncs_header then
                   (if length bytes = 0 then syncs_close_client_socket c s else s)
                 else
                   (let recv = recv + length bytes;
                        (head, s) = rx_loop call c recv 0 s
                    in if head < recv
                       then upd_client c (\<lambda>cl. cl\<lparr>c_buffer := (if head \<noteq> 0
                                then mem_put 0 (mem_read (c_buffer cl) head (recv - head)) (c_buffer cl) else c_buffer cl),
                              c_buffer_recv := recv - head\<rparr>) s
                       else upd_client c (\<lambda>cl. cl\<lparr>c_buffer_recv := 0\<rparr>) s)))"

section \<open>New clients and datagrams\<close>

definition reset_counters :: "syncs_client \<Rightarrow> syncs_client" where
  "reset_counters cl = cl\<lparr>c_event_subscribe := 0, c_rx_event_count := 0, c_tx_event_count := 0, c_event_write := 0\<rparr>"

definition syncs_add_uclient :: "sockaddr_in \<Rightarrow> syncs_server \<Rightarrow> nat option \<times> syncs_server" where
  "syncs_add_uclient addr s =
     (case syncs_get_free_client s of
        None \<Rightarrow> (None, s)
      | Some c \<Rightarrow>
          (let s = upd_client c (\<lambda>cl. reset_counters (cl\<lparr>c_addr_size := 16, c_addr := addr, c_socketfd := UDP_SOCKET_STUB\<rparr>)) s
           in (Some c, s\<lparr>s_uclient_count := s_uclient_count s + 1, s_client_count := s_client_count s + 1\<rparr>)))"

definition syncs_uclient_process_packet ::
    "callback \<Rightarrow> sockaddr_in \<Rightarrow> syncs_packet \<Rightarrow> nat \<Rightarrow> syncs_server \<Rightarrow> int \<times> syncs_server" where
  "syncs_uclient_process_packet call addr packet room s =
     (let header = p_header packet;
          (client, s) =
            (case syncs_find_uclient_addr s addr of
               Some c \<Rightarrow> (Some c, s)
             | None \<Rightarrow>
                 if h_type header AND SYNCS_TYPE_MSG_MASK = SYNCS_TYPE_CLIENT_ID then
                   (case syncs_find_uclient_id s (h_id header) of
                      None \<Rightarrow> syncs_add_uclient addr s
                    | Some c \<Rightarrow> (Some c, upd_client c (\<lambda>cl. cl\<lparr>c_addr := addr\<rparr>) s))
                 else (None, syncs_send_udp_server_status addr SYNCS_ERROR_UNKNOWNCLIENT s))
      in case client of
           None \<Rightarrow> (-1, s)
         | Some c \<Rightarrow> (0, snd (syncs_client_process_packet call c packet room s)))"

text \<open>\<open>None\<close> is a failed \<open>recvfrom\<close>; every failure is handled alike.\<close>

definition syncs_udp_handler :: "callback \<Rightarrow> (sockaddr_in \<times> byte list) option \<Rightarrow> syncs_server \<Rightarrow> int \<times> syncs_server" where
  "syncs_udp_handler call r s =
     (case r of
        None \<Rightarrow> (0, s)
      | Some (addr, bytes) \<Rightarrow>
          (let bytes = take SYNCS_CLIENT_BUFFER_SIZE bytes;
               s = s\<lparr>s_ubuffer := mem_put 0 bytes (s_ubuffer s)\<rparr>
           in if length bytes < sizeof_syncs_header then (0, s)
              else
                (let header = header_of_bytes (mem_read (s_ubuffer s) 0 sizeof_syncs_header)
                 in if h_magic header \<noteq> SYNCS_PACKET_MAGIC then (0, s)
                    else if h_magic_data header \<noteq> SYNCS_PACKET_MAGIC_DATA then (0, s)
                    else
                      (let s = s\<lparr>s_ubuffer := mem_put 57 (le_bytes 2 (h_data_size header AND 0x1ff)) (s_ubuffer s)\<rparr>
                       in syncs_uclient_process_packet call addr (packet_at (s_ubuffer s) 0)
                            (SYNCS_CLIENT_BUFFER_SIZE - sizeof_syncs_header) s))))"

text \<open>What \<open>accept\<close> gives: an error, with whether \<open>errno\<close> is one of the transient network errors, or a descriptor and the peer.\<close>

datatype accept_result = Accept_error bool | Accept int sockaddr_in

definition syncs_add_client :: "accept_result \<Rightarrow> syncs_server \<Rightarrow> int \<times> syncs_server" where
  "syncs_add_client r s =
     (case syncs_get_free_client s of
        None \<Rightarrow> (0, s)
      | Some c \<Rightarrow>
          (let s = upd_client c (\<lambda>cl. cl\<lparr>c_addr_size := 16\<rparr>) s
           in case r of
                Accept_error transient \<Rightarrow>
                  (if transient then 0 else -1, upd_client c (\<lambda>cl. cl\<lparr>c_socketfd := -1\<rparr>) s)
              | Accept fd addr \<Rightarrow>
                  (let s = upd_client c (\<lambda>cl. reset_counters (cl\<lparr>c_socketfd := fd, c_addr := addr\<rparr>)) s;
                       s = upd_os (os_call fd (Accepted addr)) s;
                       s = upd_os (syncs_set_nonblocking_socket fd (1024 * 1024) (1024 * 1024)) s;
                       s = upd_os (syncs_set_keepalive fd 600 3) s;
                       s = upd_os (\<lambda>w. w\<lparr>os_epoll := os_epoll w @ [fd]\<rparr>) s
                   in (0, s\<lparr>s_client_count := s_client_count s + 1\<rparr>))))"

section \<open>The invariant\<close>

lemma rx_count_inv:
  "server_inv s \<Longrightarrow> c < SYNCS_CLIENT_MAXIMUM \<Longrightarrow> server_inv (upd_client c (\<lambda>cl. cl\<lparr>c_rx_event_count := c_rx_event_count cl + 1\<rparr>) s)"
  using inv_client by (intro server_inv_upd_client) simp_all

lemma client_id_inv:
  "server_inv s \<Longrightarrow> c < SYNCS_CLIENT_MAXIMUM \<Longrightarrow> server_inv (upd_client c (\<lambda>cl. cl\<lparr>c_id := x, c_version := v\<rparr>) s)"
  using inv_client by (intro server_inv_upd_client) simp_all

lemma client_status_inv:
  assumes "server_inv s" "c < SYNCS_CLIENT_MAXIMUM"
  shows "server_inv (syncs_send_server_status c code s)"
    and "server_inv (syncs_close_client_socket c (syncs_send_server_status c code s))"
  using quiet_inv [OF quiet_server_status] close_client_inv assms by auto

lemma client_read_inv: "server_inv s \<Longrightarrow> server_inv (syncs_client_read c x s)"
  using quiet_inv [OF quiet_client_read] by blast

lemma lists_inv:
  "server_inv (syncs_client_send_clientlist c sequance s) = server_inv s"
  "server_inv (syncs_client_send_eventlist c sequance s) = server_inv s"
  "server_inv (syncs_client_send_channellist c sequance s) = server_inv s"
  using quiet_inv [OF quiet_lists(1)] quiet_inv [OF quiet_lists(2)] quiet_inv [OF quiet_lists(3)] by auto

text \<open>What the server's loops rely on in a packet: its size field was masked, and there is room for a ticket.\<close>

lemmas request_inv = client_subscribe_inv client_unsubscribe_inv add_event_inv free_event_inv client_read_inv
  client_status_inv client_id_inv client_channel_inv

context server_callbacks
begin

lemma process_packet_inv:
  assumes inv: "server_inv s" and c: "c < SYNCS_CLIENT_MAXIMUM" and room: "sizeof_syncs_channel_ticket \<le> room"
    and sz: "unat (h_data_size (p_header packet)) \<le> SYNCS_VARIABLE_SIZE_MAXIMUM"
  shows "server_inv (snd (syncs_client_process_packet call c packet room s))"
proof -
  have "unat (ucast (h_data_size (p_header packet)) :: u32) \<le> SYNCS_VARIABLE_SIZE_MAXIMUM"
    using sz by (simp add: unat_ucast_le)
  note w = write_inv [OF inv c this]
  show ?thesis
    unfolding syncs_client_process_packet_def Let_def
    using inv c room w by (simp add: rx_count_inv request_inv lists_inv)
qed

end

lemma free_client_slot: "syncs_get_free_client s = Some c \<Longrightarrow> c < SYNCS_CLIENT_MAXIMUM \<and> c_socketfd (s_clients s c) = -1"
  by (auto simp: syncs_get_free_client_def dest: first_slot_SomeD)

lemma add_uclient_inv:
  assumes inv: "server_inv s"
  shows "server_inv (snd (syncs_add_uclient addr s)) \<and> (\<forall>c. fst (syncs_add_uclient addr s) = Some c \<longrightarrow> c < SYNCS_CLIENT_MAXIMUM)"
proof (cases "syncs_get_free_client s")
  case (Some c)
  have "client_ok (s_clients s c)" using inv_client [OF inv] free_client_slot [OF Some] by simp
  then have "server_inv (upd_client c (\<lambda>cl. reset_counters (cl\<lparr>c_addr_size := 16, c_addr := addr, c_socketfd := UDP_SOCKET_STUB\<rparr>)) s)"
    using inv by (intro server_inv_upd_client) (simp_all add: client_ok_def reset_counters_def)
  then show ?thesis using free_client_slot [OF Some] by (simp add: syncs_add_uclient_def Some Let_def)
qed (use inv in \<open>simp add: syncs_add_uclient_def\<close>)

lemma add_client_inv:
  assumes inv: "server_inv s" and fd: "\<And>fd addr. r = Accept fd addr \<Longrightarrow> 0 \<le> fd"
  shows "server_inv (snd (syncs_add_client r s))"
proof (cases "syncs_get_free_client s")
  case (Some c)
  have "client_ok (s_clients s c)" using inv_client [OF inv] free_client_slot [OF Some] by simp
  then show ?thesis
    using inv fd inv_fault [OF inv] by (cases r) (auto simp: syncs_add_client_def Some Let_def client_ok_def
        reset_counters_def intro!: server_inv_upd_os server_inv_upd_client)
qed (use inv in \<open>simp add: syncs_add_client_def\<close>)

text \<open>The size field after it was masked in the buffer.\<close>

lemma header_put_data_size:
  assumes "mem_read m head sizeof_syncs_header = header_bytes h"
  shows "header_of_bytes (mem_read (mem_put (head + 57) (le_bytes 2 n) m) head sizeof_syncs_header) = h\<lparr>h_data_size := n\<rparr>"
proof -
  let ?m = "mem_put (head + 57) (le_bytes 2 n) m"
  have "mem_read ?m head sizeof_syncs_header = mem_read ?m head 57 @ mem_read ?m (head + 57) 2 @ mem_read ?m (head + 59) 1"
    using mem_read_add [of ?m head 57 3] mem_read_add [of ?m "head + 57" 2 1] by (simp add: add.commute [of head])
  also have "\<dots> = take 57 (header_bytes h) @ le_bytes 2 n @ drop 59 (header_bytes h)"
    by (simp add: assms [symmetric] mem_simps)
  also have "\<dots> = header_bytes (h\<lparr>h_data_size := n\<rparr>)"
    by (simp add: header_bytes_def)
  finally show ?thesis by simp
qed

lemma buffer_header_put:
  "buffer_header c head (put_data_size c head n s) = (buffer_header c head s)\<lparr>h_data_size := n\<rparr>"
  unfolding buffer_header_def put_data_size_def
  by (simp, rule header_put_data_size) simp

lemma put_data_size_inv: "server_inv s \<Longrightarrow> c < SYNCS_CLIENT_MAXIMUM \<Longrightarrow> server_inv (put_data_size c head n s)"
  unfolding put_data_size_def using inv_client by (intro server_inv_upd_client) simp_all

lemma masked_size_le: "unat (n AND 0x1ff :: u16) \<le> SYNCS_VARIABLE_SIZE_MAXIMUM"
  using unat_and_le [of n "0x1ff"] by simp

lemma packet_at_buffer_header: "p_header (packet_at (c_buffer (s_clients s c)) head) = buffer_header c head s"
  by (simp add: packet_at_def buffer_header_def)

context server_callbacks
begin

lemma rx_loop_inv:
  assumes "server_inv s" "c < SYNCS_CLIENT_MAXIMUM" "recv + sizeof_syncs_channel_ticket \<le> SYNCS_CLIENT_BUFFER_SIZE"
  shows "server_inv (snd (rx_loop call c recv head s)) \<and> recv < fst (rx_loop call c recv head s) + packet_maximum"
  using assms
proof (induction "recv - head" arbitrary: head s rule: less_induct)
  case less
  note IH = less.hyps and c = less.prems(2) and recv = less.prems(3)
  define header where "header = buffer_header c head s"
  define t where "t = put_data_size c head (h_data_size header AND 0x1ff) s"
  define n where "n = h_data_size header AND 0x1ff"
  define u where "u = snd (syncs_client_process_packet call c (packet_at (c_buffer (s_clients t c)) head)
    (SYNCS_CLIENT_BUFFER_SIZE - (head + sizeof_syncs_header)) t)"
  have t: "server_inv t" using put_data_size_inv [OF less.prems(1) c] by (simp add: t_def)
  have hd: "h_data_size (buffer_header c head t) = n" by (simp add: t_def n_def header_def buffer_header_put)
  have n: "unat n \<le> SYNCS_VARIABLE_SIZE_MAXIMUM" using masked_size_le by (simp add: n_def)
  consider (short) "recv < head + sizeof_syncs_header"
    | (skip) "\<not> recv < head + sizeof_syncs_header" "h_magic header \<noteq> SYNCS_PACKET_MAGIC \<or> h_magic_data header \<noteq> SYNCS_PACKET_MAGIC_DATA"
    | (partial) "\<not> recv < head + sizeof_syncs_header" "h_magic header = SYNCS_PACKET_MAGIC" "h_magic_data header = SYNCS_PACKET_MAGIC_DATA"
        "recv - head < sizeof_syncs_header + unat n"
    | (packet) "\<not> recv < head + sizeof_syncs_header" "h_magic header = SYNCS_PACKET_MAGIC" "h_magic_data header = SYNCS_PACKET_MAGIC_DATA"
        "\<not> recv - head < sizeof_syncs_header + unat n"
    by blast
  then show ?case
  proof cases
    case short
    then show ?thesis using less.prems(1) by (simp add: rx_loop.simps)
  next
    case skip
    then have "rx_loop call c recv head s = rx_loop call c recv (head + 1) s"
      by (subst rx_loop.simps) (auto simp: header_def Let_def)
    then show ?thesis using IH [of "head + 1" s] less.prems skip by simp
  next
    case partial
    then have "rx_loop call c recv head s = (head, t)"
      by (subst rx_loop.simps) (simp add: header_def [symmetric] t_def [symmetric] hd Let_def)
    then show ?thesis using t partial n by simp
  next
    case packet
    then have rec: "rx_loop call c recv head s
        = rx_loop call c recv (head + sizeof_syncs_header + unat (h_data_size (buffer_header c head u))) u"
      by (subst rx_loop.simps) (simp add: header_def [symmetric] t_def [symmetric] hd Let_def u_def)
    have "server_inv u"
      unfolding u_def by (rule process_packet_inv [OF t c]) (use packet recv n in \<open>simp_all add: packet_at_buffer_header hd\<close>)
    then show ?thesis using IH [of "head + sizeof_syncs_header + unat (h_data_size (buffer_header c head u))" u] c recv packet
      by (simp add: rec)
  qed
qed

lemma client_handler_inv:
  assumes inv: "server_inv s" and c: "c < SYNCS_CLIENT_MAXIMUM"
    and room: "\<And>bytes. r = Recv bytes \<Longrightarrow>
      c_buffer_recv (s_clients s c) + length bytes + sizeof_syncs_channel_ticket \<le> SYNCS_CLIENT_BUFFER_SIZE"
  shows "server_inv (syncs_client_handler call r c s)"
proof (cases r)
  case (Recv_error again)
  have "c_buffer_recv (s_clients s c) < packet_maximum" using inv_client [OF inv c] by (simp add: client_ok_def)
  then show ?thesis
    using inv close_client_inv [OF inv c] by (simp add: syncs_client_handler_def Recv_error Let_def quiet_fault_if)
next
  case (Recv bytes)
  define recv where "recv = c_buffer_recv (s_clients s c)"
  have recv: "recv < packet_maximum" using inv_client [OF inv c] by (simp add: client_ok_def recv_def)
  have len: "recv + length bytes + sizeof_syncs_channel_ticket \<le> SYNCS_CLIENT_BUFFER_SIZE"
    using room [OF Recv] by (simp add: recv_def)
  define t where "t = upd_client c (\<lambda>cl. cl\<lparr>c_buffer := mem_put recv bytes (c_buffer cl)\<rparr>) s"
  have t: "server_inv t" unfolding t_def using inv inv_client [OF inv c] by (intro server_inv_upd_client) simp_all
  obtain head u where u: "rx_loop call c (recv + length bytes) 0 t = (head, u)" by fastforce
  have loop: "server_inv u" "recv + length bytes < head + packet_maximum"
    using rx_loop_inv [OF t c, of "recv + length bytes" 0] len u by simp_all
  have cl: "client_ok (s_clients u c)" using inv_client [OF loop(1) c] .
  have eq: "syncs_client_handler call r c s =
     (if length bytes < sizeof_syncs_header then (if length bytes = 0 then syncs_close_client_socket c t else t)
      else if head < recv + length bytes
       then upd_client c (\<lambda>cl. cl\<lparr>c_buffer := (if head \<noteq> 0
                then mem_put 0 (mem_read (c_buffer cl) head (recv + length bytes - head)) (c_buffer cl) else c_buffer cl),
              c_buffer_recv := recv + length bytes - head\<rparr>) u
       else upd_client c (\<lambda>cl. cl\<lparr>c_buffer_recv := 0\<rparr>) u)"
    using recv len
    by (simp add: syncs_client_handler_def Recv Let_def quiet_fault_if recv_def [symmetric] t_def [symmetric] u)
      (simp add: t_def)
  show ?thesis
    unfolding eq using t loop cl close_client_inv [OF t c]
    by (auto intro!: server_inv_upd_client simp: client_ok_def)
qed

lemma uclient_process_packet_inv:
  assumes inv: "server_inv s" and room: "sizeof_syncs_channel_ticket \<le> room"
    and sz: "unat (h_data_size (p_header packet)) \<le> SYNCS_VARIABLE_SIZE_MAXIMUM"
  shows "server_inv (snd (syncs_uclient_process_packet call addr packet room s))"
proof -
  note process = process_packet_inv [OF _ _ room sz]
  show ?thesis
  proof (cases "syncs_find_uclient_addr s addr")
    case (Some c)
    then have "c < SYNCS_CLIENT_MAXIMUM" by (auto simp: syncs_find_uclient_addr_def dest: first_slot_SomeD)
    then show ?thesis using process [OF inv] by (simp add: syncs_uclient_process_packet_def Some)
  next
    case None
    show ?thesis
    proof (cases "h_type (p_header packet) AND SYNCS_TYPE_MSG_MASK = SYNCS_TYPE_CLIENT_ID")
      case False
      then show ?thesis
        using inv quiet_inv [OF quiet_udp_server_status] by (simp add: syncs_uclient_process_packet_def None)
    next
      case True
      show ?thesis
      proof (cases "syncs_find_uclient_id s (h_id (p_header packet))")
        case (Some c)
        then have c: "c < SYNCS_CLIENT_MAXIMUM" by (auto simp: syncs_find_uclient_id_def dest: first_slot_SomeD)
        have "server_inv (upd_client c (\<lambda>cl. cl\<lparr>c_addr := addr\<rparr>) s)"
          using inv inv_client [OF inv c] by (intro server_inv_upd_client) simp_all
        then show ?thesis using process c True Some by (simp add: syncs_uclient_process_packet_def None)
      next
        case new: None
        obtain r t where rt: "syncs_add_uclient addr s = (r, t)" by fastforce
        show ?thesis
          using True new add_uclient_inv [OF inv, of addr] process [of t]
          by (cases r) (simp_all add: syncs_uclient_process_packet_def None rt)
      qed
    qed
  qed
qed

lemma udp_handler_inv:
  assumes inv: "server_inv s"
  shows "server_inv (snd (syncs_udp_handler call r s))"
proof (cases r)
  case (Some ab)
  obtain addr bytes where ab: "ab = (addr, bytes)" by fastforce
  define m where "m = mem_put 0 (take SYNCS_CLIENT_BUFFER_SIZE bytes) (s_ubuffer s)"
  define header where "header = header_of_bytes (mem_read m 0 sizeof_syncs_header)"
  define m' where "m' = mem_put 57 (le_bytes 2 (h_data_size header AND 0x1ff)) m"
  have "p_header (packet_at m' 0) = header\<lparr>h_data_size := h_data_size header AND 0x1ff\<rparr>"
    using header_put_data_size [of m 0 header "h_data_size header AND 0x1ff"]
    by (simp add: packet_at_def m'_def header_def)
  then have "unat (h_data_size (p_header (packet_at m' 0))) \<le> SYNCS_VARIABLE_SIZE_MAXIMUM"
    using masked_size_le by simp
  then have "server_inv (snd (syncs_uclient_process_packet call addr (packet_at m' 0)
      (SYNCS_CLIENT_BUFFER_SIZE - sizeof_syncs_header) (s\<lparr>s_ubuffer := m'\<rparr>)))"
    using inv by (intro uclient_process_packet_inv) simp_all
  then show ?thesis
    using inv by (simp add: syncs_udp_handler_def Some ab Let_def m_def [symmetric] header_def [symmetric] m'_def)
qed (use inv in \<open>simp add: syncs_udp_handler_def\<close>)

end

end
