(* ===== verification/Server_Loop.thy ===== *)
theory Server_Loop
  imports Server_Dispatch
begin

unbundle bit_operations_syntax

text \<open>
  The server as a state machine: \<open>syncs_server_thread\<close> opens the sockets, \<open>syncs_recv_clients\<close> dispatches what
  epoll reports to the three handlers, and the application calls the API in between. Handlers and API
  calls are atomic steps. The theorem of this theory is that every reachable state satisfies the invariant, in
  particular that no sequence of network input makes the server leave an array.
\<close>

section \<open>The event loop\<close>

text \<open>
  An epoll event is the callback its \<open>data.ptr\<close> leads to, with what the callback's system call will return: the
  listening socket, a TCP client or the UDP socket.
\<close>

datatype epoll_event =
    Ev_accept accept_result
  | Ev_client nat recv_result
  | Ev_udp "(sockaddr_in \<times> byte list) option"

definition epoll_dispatch :: "callback \<Rightarrow> epoll_event \<Rightarrow> syncs_server \<Rightarrow> syncs_server" where
  "epoll_dispatch call ev s =
     (case ev of
        Ev_accept r \<Rightarrow> snd (syncs_add_client r s)
      | Ev_client c r \<Rightarrow> syncs_client_handler call r c s
      | Ev_udp r \<Rightarrow> snd (syncs_udp_handler call r s))"

text \<open>The endless loop over a given sequence of \<open>epoll_wait\<close> results.\<close>

definition syncs_recv_clients :: "callback \<Rightarrow> epoll_event list list \<Rightarrow> syncs_server \<Rightarrow> syncs_server" where
  "syncs_recv_clients call batches s =
     (let s = upd_os (\<lambda>w. w\<lparr>os_epoll := os_epoll w @ [s_socketfd s]\<rparr>) s;
          s = upd_os (\<lambda>w. w\<lparr>os_epoll := os_epoll w @ [s_usocketfd s]\<rparr>) s
      in fold (\<lambda>events s. fold (epoll_dispatch call) events s) batches s)"

text \<open>
  One round of \<open>syncs_server_thread\<close> up to the loop or back to its start; the arguments are what
  the kernel answers to the calls that open the sockets, and the epoll descriptor, negative for failure. The result tells whether the loop is entered.
\<close>

definition os_close :: "int \<Rightarrow> syncs_server \<Rightarrow> syncs_server" where
  "os_close fd = upd_os (close_fd fd)"

definition syncs_server_thread_round ::
    "(byte list \<Rightarrow> u32) \<Rightarrow> sys_results \<Rightarrow> sys_results \<Rightarrow> int \<Rightarrow> syncs_server \<Rightarrow> bool \<times> syncs_server" where
  "syncs_server_thread_round inet_addr tcp udp ep s =
     (let (fd, w) = syncs_tcpserver_open inet_addr tcp (Some (s_addr s)) (s_port s) (s_os s);
          s = s\<lparr>s_socketfd := fd, s_os := w\<rparr>
      in if fd < 0 then (False, s)
         else
           (let s = upd_os (syncs_set_nonblocking_socket (s_socketfd s) (1024 * 1024) (1024 * 1024)) s;
                (ufd, w) = syncs_udpserver_open inet_addr udp (Some (s_addr s)) (s_port s) (s_os s);
                s = s\<lparr>s_usocketfd := ufd, s_os := w\<rparr>
            in if ufd < 0 then (False, os_close (s_usocketfd s) s)
               else
                 (let s = upd_os (syncs_set_nonblocking_socket (s_usocketfd s) (1024 * 1024) (1024 * 1024)) s;
                      s = s\<lparr>s_epollfd := ep\<rparr>
                  in if ep < 0 then (False, os_close (s_usocketfd s) (os_close (s_socketfd s) s))
                     else (True, upd_os (os_call ep Epoll_create) s))))"

section \<open>The application\<close>

datatype api_call =
    Api_write u32 "byte list" mem u32
  | Api_define "byte list" u32 "mem option" u32
  | Api_undefine "byte list"
  | Api_subscribe u32 "byte list" "nat option" nat
  | Api_unsubscribe "byte list"
  | Api_cb_event syncsid
  | Api_set_sync_offset int

definition run_api :: "callback \<Rightarrow> api_call \<Rightarrow> syncs_server \<Rightarrow> syncs_server" where
  "run_api call a s =
     (case a of
        Api_write flags cid data n \<Rightarrow> snd (syncs_server_write flags cid data n s)
      | Api_define cid flags data n \<Rightarrow> snd (syncs_server_define cid flags data n s)
      | Api_undefine cid \<Rightarrow> syncs_server_undefine cid s
      | Api_subscribe flags cid cb args \<Rightarrow> snd (syncs_server_subscribe_event flags cid cb args s)
      | Api_unsubscribe cid \<Rightarrow> syncs_server_unsubscribe_event cid s
      | Api_cb_event x \<Rightarrow> syncs_server_cb_event call x s
      | Api_set_sync_offset ms \<Rightarrow> syncs_server_set_sync_offset ms s)"

section \<open>Steps\<close>

text \<open>
  What the kernel guarantees of an event: \<open>accept\<close> returns a descriptor or an error, only a connected TCP
  client is reported, \<open>recv\<close> returns no more bytes than asked for. The last 10 bytes of the buffer are assumed to
  stay free: the copy of a channel's ticket can read that far past the last byte received.
\<close>

fun event_possible :: "syncs_server \<Rightarrow> epoll_event \<Rightarrow> bool" where
  "event_possible s (Ev_accept (Accept fd addr)) = (0 \<le> fd)"
| "event_possible s (Ev_accept (Accept_error transient)) = True"
| "event_possible s (Ev_client c (Recv bytes)) =
     (c < SYNCS_CLIENT_MAXIMUM \<and> c_socketfd (s_clients s c) > -1 \<and>
      c_buffer_recv (s_clients s c) + length bytes + sizeof_syncs_channel_ticket \<le> SYNCS_CLIENT_BUFFER_SIZE)"
| "event_possible s (Ev_client c (Recv_error again)) = (c < SYNCS_CLIENT_MAXIMUM \<and> c_socketfd (s_clients s c) > -1)"
| "event_possible s (Ev_udp r) = True"

text \<open>What the application owes: a write of at most 511 bytes.\<close>

fun api_allowed :: "api_call \<Rightarrow> bool" where
  "api_allowed (Api_write flags cid data n) = (unat n \<le> SYNCS_VARIABLE_SIZE_MAXIMUM)"
| "api_allowed _ = True"

inductive server_step :: "callback \<Rightarrow> syncs_server \<Rightarrow> syncs_server \<Rightarrow> bool" for call where
  network: "event_possible s ev \<Longrightarrow> server_step call s (epoll_dispatch call ev s)"
| application: "api_allowed a \<Longrightarrow> server_step call s (run_api call a s)"

inductive reachable :: "callback \<Rightarrow> syncs_server \<Rightarrow> bool" for call where
  created: "syncs_server_create True addr port cid w = Some s \<Longrightarrow> \<not> os_fault w \<Longrightarrow> reachable call s"
| step: "reachable call s \<Longrightarrow> server_step call s t \<Longrightarrow> reachable call t"

inductive_cases server_stepE: "server_step call s t"

context server_callbacks
begin

lemma dispatch_inv:
  assumes "server_inv s" "event_possible s ev"
  shows "server_inv (epoll_dispatch call ev s)"
proof (cases ev)
  case (Ev_accept r)
  then show ?thesis using assms by (cases r) (auto simp: epoll_dispatch_def intro!: add_client_inv)
next
  case (Ev_client c r)
  then show ?thesis using assms by (cases r) (auto simp: epoll_dispatch_def intro!: client_handler_inv)
next
  case (Ev_udp r)
  then show ?thesis using assms by (simp add: epoll_dispatch_def udp_handler_inv)
qed

lemma api_inv:
  assumes "server_inv s" "api_allowed a"
  shows "server_inv (run_api call a s)"
  using assms
  by (cases a) (simp_all add: run_api_def server_write_inv server_define_inv server_undefine_inv
      server_subscribe_event_inv server_unsubscribe_event_inv cb_event_inv syncs_server_set_sync_offset_def)

lemma step_inv: "server_step call s t \<Longrightarrow> server_inv s \<Longrightarrow> server_inv t"
  by (erule server_stepE) (auto intro: dispatch_inv api_inv)

lemma reachable_inv: "reachable call s \<Longrightarrow> server_inv s"
  by (induction rule: reachable.induct) (auto intro: server_create_inv step_inv)

end



text \<open>
  What a round of \<open>syncs_server_thread\<close> does with descriptors. When everything opens it holds three more, the two
  sockets and the epoll descriptor; when the TCP socket or epoll fails it holds what it held before. When the TCP socket opens and
  the UDP socket does not, the TCP descriptor is leaked: the round ends holding it and the next round
  opens another.
\<close>

lemma thread_round_closes:
  fixes tcp udp :: sys_results
  defines "tcp_ok \<equiv> 0 \<le> sys_socket tcp \<and> sys_bind tcp \<and> sys_listen tcp" and "udp_ok \<equiv> 0 \<le> sys_socket udp \<and> sys_bind udp"
  assumes round: "syncs_server_thread_round inet_addr tcp udp ep s = (entered, t)"
  shows "(entered \<longleftrightarrow> tcp_ok \<and> udp_ok \<and> 0 \<le> ep) \<and>
    (entered \<longrightarrow> balance (s_os t) = gains [sys_socket tcp, sys_socket udp, ep] (balance (s_os s))) \<and>
    (\<not> tcp_ok \<or> udp_ok \<and> ep < 0 \<longrightarrow> balance (s_os t) = balance (s_os s)) \<and>
    (tcp_ok \<and> \<not> udp_ok \<longrightarrow> (\<forall>fd\<ge>0. balance (s_os t) fd = gains [sys_socket tcp] (balance (s_os s)) fd))"
  using round unfolding tcp_ok_def udp_ok_def
  by (auto simp: syncs_server_thread_round_def os_close_def upd_os_def open_defs fun_eq_iff split: if_splits prod.splits)

end
