(* ===== verification/Server_Packets.thy ===== *)
theory Server_Packets
  imports Server_Dispatch
begin

unbundle bit_operations_syntax

text \<open>
  What one packet does, whichever it is: to the store of variables, and to the receive buffers.
\<close>

section \<open>Packets and the store\<close>

text \<open>
  The contract of a packet on the store, by message type. A definition by a client names a size and no
  data: the variable then holds that many bytes, which ones is left open.
\<close>

definition packet_step :: "u32 \<Rightarrow> syncsid \<Rightarrow> u16 \<Rightarrow> byte list \<Rightarrow> store \<Rightarrow> store \<Rightarrow> bool" where
  "packet_step type x n d m m' \<longleftrightarrow>
     (let msg = type AND SYNCS_TYPE_MSG_MASK;
          force = (type AND SYNCS_TYPE_FORCE \<noteq> 0);
          t = type AND SYNCS_TYPE_VAR_MASK
      in if msg = SYNCS_TYPE_SUBSCRIBE then m' = snd (abs_subscribe force x t m)
         else if msg = SYNCS_TYPE_WRITE then m' = snd (abs_write force x t d m)
         else if msg = SYNCS_TYPE_UNDEFINE then m' = m(x := None)
         else if msg = SYNCS_TYPE_DEFINE then
           (if (if x \<in> dom m then force else card (dom m) \<noteq> SYNCS_EVENT_MAXIMUM)
            then \<exists>b. m' = m(x \<mapsto> (t, b)) \<and> length b = unat (define_size type (ucast n))
            else m' = m)
         else m' = m)"

lemma variables_upd_client [simp]: "variables (upd_client c f s) = variables s"
  by (rule variables_cong) simp

lemma variables_lists:
  "variables (syncs_client_send_clientlist c sequance s) = variables s"
  "variables (syncs_client_send_eventlist c sequance s) = variables s"
  "variables (syncs_client_send_channellist c sequance s) = variables s"
  using variables_quiet [OF quiet_lists(1)] variables_quiet [OF quiet_lists(2)] variables_quiet [OF quiet_lists(3)] by auto

lemma variables_status:
  assumes "server_inv s" "c < SYNCS_CLIENT_MAXIMUM"
  shows "variables (syncs_send_server_status c code s) = variables s"
    and "variables (syncs_close_client_socket c (syncs_send_server_status c code s)) = variables s"
  using variables_quiet [OF quiet_server_status] close_client_variables [OF client_status_inv(1) [OF assms] assms(2)] by auto

lemma variables_channel:
  "sizeof_syncs_channel_ticket \<le> room \<Longrightarrow> variables (snd (syncs_client_channel c header data room s)) = variables s"
  using variables_cong [OF add_channel_events(1)] variables_quiet [OF quiet_channel_request]
  by (simp add: syncs_client_channel_def Let_def)

lemma add_event_store:
  assumes "server_inv s" "live_id x"
  shows "if (if x \<in> dom (variables s) then flags AND SYNCS_TYPE_FORCE \<noteq> 0 else card (dom (variables s)) \<noteq> SYNCS_EVENT_MAXIMUM)
    then \<exists>b. variables (snd (syncs_add_event x flags data n s)) = (variables s)(x \<mapsto> (flags AND SYNCS_TYPE_VAR_MASK, b)) \<and>
           length b = unat (define_size flags n)
    else variables (snd (syncs_add_event x flags data n s)) = variables s"
    (is "if ?go then _ else _")
proof (cases ?go)
  case True
  then show ?thesis unfolding if_P [OF True] using add_event_effect(3) [OF assms True, of data n] by blast
next
  case False
  then have "snd (syncs_add_event x flags data n s) = s"
    using add_event_effect(1,2) [OF assms, of flags data n] by (cases "x \<in> dom (variables s)") simp_all
  then show ?thesis unfolding if_not_P [OF False] by simp
qed

context passive_callbacks
begin

lemma packet_refines:
  assumes inv: "server_inv s" and c: "c < SYNCS_CLIENT_MAXIMUM" and room: "sizeof_syncs_channel_ticket \<le> room"
    and sz: "unat (h_data_size (p_header packet)) \<le> SYNCS_VARIABLE_SIZE_MAXIMUM" and x: "live_id (h_id (p_header packet))"
  shows "packet_step (h_type (p_header packet)) (h_id (p_header packet)) (h_data_size (p_header packet))
    (mem_read (p_buffer packet) 0 (unat (h_data_size (p_header packet)))) (variables s)
    (variables (snd (syncs_client_process_packet call c packet room s)))"
proof -
  let ?h = "p_header packet"
  have n: "unat (ucast (h_data_size ?h) :: u32) = unat (h_data_size ?h)" by (simp add: unat_ucast_le)
  note sub = client_subscribe_effect(1) [OF inv c x, of "h_type ?h" "h_update_counter ?h", THEN arg_cong, of snd]
  note wr = write_refines [OF inv c x, of "ucast (h_data_size ?h)" "h_type ?h" "p_buffer packet", THEN arg_cong, of snd]
  note read = variables_quiet [OF quiet_client_read [OF inv]]
  show ?thesis
    unfolding packet_step_def syncs_client_process_packet_def Let_def
    using sub wr sz n room add_event_store [OF inv x, of "h_type ?h" None "ucast (h_data_size ?h)"]
    by (simp add: variables_free_event [OF inv x] client_unsubscribe_effect(1) [OF inv x x] read variables_lists
        variables_status [OF inv c] variables_channel)
qed

end

text \<open>
  C3: Every packet acts on the variables by its contract and no other way. For a packet with a live id, a
  masked size and callbacks that only observe, the store after \<open>syncs_client_process_packet\<close> is the one the
  contract of its message type gives: only SUBSCRIBE (by creating), WRITE, DEFINE and UNDEFINE change the store,
  each only at the id of the packet; lists, reads, identification, channels and unknown types change no
  variable.
\<close>

theorem packet_refines_store:
  assumes "passive_callbacks call" "server_inv s" "c < SYNCS_CLIENT_MAXIMUM" "sizeof_syncs_channel_ticket \<le> room"
    "unat (h_data_size (p_header packet)) \<le> SYNCS_VARIABLE_SIZE_MAXIMUM" "live_id (h_id (p_header packet))"
  shows "packet_step (h_type (p_header packet)) (h_id (p_header packet)) (h_data_size (p_header packet))
    (mem_read (p_buffer packet) 0 (unat (h_data_size (p_header packet)))) (variables s)
    (variables (snd (syncs_client_process_packet call c packet room s)))"
  using passive_callbacks.packet_refines [OF assms] .

theorem packet_refines_store_witness:
  "variables (snd (syncs_client_process_packet syncsserver_call 3
     \<lparr>p_header = \<lparr>h_magic = 0x53, h_crc = 0, h_type = 0x283, h_id = syncs_idstr (cstr ''a''), h_sync = \<lparr>data0 = 0, data1 = 0\<rparr>,
        h_update_counter = 0, h_data_size = 4, h_magic_data = 0x44\<rparr>, p_buffer = mem_of [1, 2, 3, 4]\<rparr> 100 sample_server))
     = [syncs_idstr (cstr ''a'') \<mapsto> (0x200, [1, 2, 3, 4])]"
  using packet_refines_store [OF syncsserver.passive_callbacks_axioms sample_server_inv, of 3 100
      "\<lparr>p_header = \<lparr>h_magic = 0x53, h_crc = 0, h_type = 0x283, h_id = syncs_idstr (cstr ''a''), h_sync = \<lparr>data0 = 0, data1 = 0\<rparr>,
        h_update_counter = 0, h_data_size = 4, h_magic_data = 0x44\<rparr>, p_buffer = mem_of [1, 2, 3, 4]\<rparr>"]
  by (simp add: live_id_a packet_step_def Let_def abs_write_def abs_open_def sample_server_variables mem_read_mem_of)

end
