(* ===== verification/Frames.thy ===== *)
theory Frames
  imports Wire
begin

unbundle bit_operations_syntax

text \<open>
  Well-formed packets on the wire. A frame is a header with both magic bytes whose size field is the number
  of data bytes that follow, at most 511. Both receive loops, the server's and the client's, are
  described in terms of frames.
\<close>

type_synonym frame = "syncs_header \<times> byte list"

definition frame_ok :: "frame \<Rightarrow> bool" where
  "frame_ok f \<longleftrightarrow> h_magic (fst f) = SYNCS_PACKET_MAGIC \<and> h_magic_data (fst f) = SYNCS_PACKET_MAGIC_DATA \<and>
     unat (h_data_size (fst f)) = length (snd f) \<and> length (snd f) \<le> SYNCS_VARIABLE_SIZE_MAXIMUM"

definition frame_bytes :: "frame \<Rightarrow> byte list" where
  "frame_bytes f = header_bytes (fst f) @ snd f"

definition frame_size :: "frame \<Rightarrow> nat" where
  "frame_size f = sizeof_syncs_header + length (snd f)"

lemma length_frame_bytes [simp]: "length (frame_bytes f) = frame_size f"
  by (simp add: frame_bytes_def frame_size_def)

text \<open>The packet the handler sees when the frame stands at \<open>head\<close>: its header, and the buffer from its data on.\<close>

definition frame_packet :: "frame \<Rightarrow> nat \<Rightarrow> mem \<Rightarrow> syncs_packet" where
  "frame_packet f head m = \<lparr>p_header = fst f, p_buffer = mem_shift (head + sizeof_syncs_header) m\<rparr>"

lemma frame_data:
  "mem_read m head (frame_size f) = frame_bytes f \<Longrightarrow> mem_read (p_buffer (frame_packet f head m)) 0 (length (snd f)) = snd f"
  by (simp add: frame_packet_def mem_simps frame_size_def frame_bytes_def mem_read_add)

lemma mask_small: "unat (n :: u16) \<le> SYNCS_VARIABLE_SIZE_MAXIMUM \<Longrightarrow> n AND 0x1ff = n"
proof -
  assume n: "unat n \<le> SYNCS_VARIABLE_SIZE_MAXIMUM"
  have b: "bit n k \<Longrightarrow> k < 9" for k using small_bit [of n 9] n by simp
  have m: "(0x1ff :: u16) = mask 9" by (simp add: mask_eq_exp_minus_1)
  show "n AND 0x1ff = n" unfolding m by (rule bit_word_eqI) (fastforce simp: bit_simps dest: b)
qed

text \<open>The beginning of a frame that is still on its way.\<close>

definition incomplete :: "byte list \<Rightarrow> bool" where
  "incomplete rest \<longleftrightarrow> length rest < sizeof_syncs_header \<or>
     (\<exists>f k. frame_ok f \<and> sizeof_syncs_header \<le> k \<and> k < frame_size f \<and> rest = take k (frame_bytes f))"


section \<open>Receive loops\<close>

text \<open>
  Running a packet processor over the frames of a stream that starts at \<open>head\<close> of the buffer \<open>buf s\<close>; it is
  given each packet and the room from its data to the end of the buffer.
\<close>

fun run_frames :: "(syncs_packet \<Rightarrow> nat \<Rightarrow> 's \<Rightarrow> 's) \<Rightarrow> ('s \<Rightarrow> mem) \<Rightarrow> nat \<Rightarrow> frame list \<Rightarrow> 's \<Rightarrow> 's" where
  "run_frames process buf head [] s = s"
| "run_frames process buf head (f # fs) s =
     run_frames process buf (head + frame_size f) fs
       (process (frame_packet f head (buf s)) (SYNCS_CLIENT_BUFFER_SIZE - (head + sizeof_syncs_header)) s)"

definition header_at :: "mem \<Rightarrow> nat \<Rightarrow> syncs_header" where
  "header_at m head = header_of_bytes (mem_read m head sizeof_syncs_header)"

text \<open>
  The loop that both the server and the client run over their receive buffer: skip to a header with both
  magic bytes, mask its size in place, stop when the packet is not complete, else process it.
\<close>

locale packet_scan =
  fixes buf :: "'s \<Rightarrow> mem"
    and mask :: "nat \<Rightarrow> 's \<Rightarrow> 's"
    and process :: "syncs_packet \<Rightarrow> nat \<Rightarrow> 's \<Rightarrow> 's"
    and loop :: "nat \<Rightarrow> nat \<Rightarrow> 's \<Rightarrow> nat \<times> 's"
  assumes loop_eq: "loop recv head s =
      (if recv < head + sizeof_syncs_header then (head, s)
       else if h_magic (header_at (buf s) head) \<noteq> SYNCS_PACKET_MAGIC then loop recv (head + 1) s
       else if h_magic_data (header_at (buf s) head) \<noteq> SYNCS_PACKET_MAGIC_DATA then loop recv (head + 1) s
       else
         (let s = mask head s
          in if recv - head < sizeof_syncs_header + unat (h_data_size (header_at (buf s) head)) then (head, s)
             else
               (let s = process (packet_at (buf s) head) (SYNCS_CLIENT_BUFFER_SIZE - (head + sizeof_syncs_header)) s
                in loop recv (head + sizeof_syncs_header + unat (h_data_size (header_at (buf s) head))) s)))"
    and mask_small_size: "mem_read (buf s) head sizeof_syncs_header = header_bytes h \<Longrightarrow>
      unat (h_data_size h) \<le> SYNCS_VARIABLE_SIZE_MAXIMUM \<Longrightarrow> mask head s = s"
begin

lemma loop_header:
  fixes h :: syncs_header
  assumes bytes: "mem_read (buf s) head sizeof_syncs_header = header_bytes h"
    and h: "h_magic h = SYNCS_PACKET_MAGIC" "h_magic_data h = SYNCS_PACKET_MAGIC_DATA"
      "unat (h_data_size h) \<le> SYNCS_VARIABLE_SIZE_MAXIMUM"
    and recv: "head + sizeof_syncs_header \<le> recv"
  defines "u \<equiv> process (packet_at (buf s) head) (SYNCS_CLIENT_BUFFER_SIZE - (head + sizeof_syncs_header)) s"
  shows "loop recv head s =
    (if recv - head < sizeof_syncs_header + unat (h_data_size h) then (head, s)
     else loop recv (head + sizeof_syncs_header + unat (h_data_size (header_at (buf u) head))) u)"
proof -
  have "header_at (buf s) head = h" by (simp add: header_at_def bytes)
  then show ?thesis
    using recv h mask_small_size [OF bytes h(3)] by (subst loop_eq) (simp add: Let_def u_def)
qed

lemma loop_skip:
  assumes "\<And>k. head \<le> k \<Longrightarrow> k < stop \<Longrightarrow> buf s k \<noteq> SYNCS_PACKET_MAGIC"
    and "head \<le> stop" "stop + sizeof_syncs_header \<le> recv"
  shows "loop recv head s = loop recv stop s"
  using assms
proof (induction "stop - head" arbitrary: head)
  case (Suc n)
  have "h_magic (header_at (buf s) head) = buf s head"
    by (simp add: header_at_def header_of_bytes_def)
  then have "loop recv head s = loop recv (head + 1) s"
    using Suc by (subst loop_eq) simp
  also have "\<dots> = loop recv stop s" using Suc by (intro Suc.hyps(1)) auto
  finally show ?case .
qed simp

end

text \<open>
  With a packet processor that leaves the buffer alone and keeps an invariant as long as \<open>slack\<close> bytes are left behind
  the packet's header, the loop processes a stream of frames exactly.
\<close>

locale packet_loop = packet_scan buf mask process loop
  for buf :: "'s \<Rightarrow> mem" and mask :: "nat \<Rightarrow> 's \<Rightarrow> 's" and process :: "syncs_packet \<Rightarrow> nat \<Rightarrow> 's \<Rightarrow> 's"
    and loop :: "nat \<Rightarrow> nat \<Rightarrow> 's \<Rightarrow> nat \<times> 's" +
  fixes inv :: "'s \<Rightarrow> bool" and slack :: nat
  assumes process_keeps: "inv s \<Longrightarrow> slack \<le> room \<Longrightarrow> unat (h_data_size (p_header packet)) \<le> SYNCS_VARIABLE_SIZE_MAXIMUM \<Longrightarrow>
      inv (process packet room s) \<and> buf (process packet room s) = buf s"
begin

lemma loop_frames:
  assumes "inv s" "recv + slack \<le> SYNCS_CLIENT_BUFFER_SIZE" "list_all frame_ok fs"
    and "head + length (concat (map frame_bytes fs)) \<le> recv"
    and "mem_read (buf s) head (length (concat (map frame_bytes fs))) = concat (map frame_bytes fs)"
  shows "loop recv head s = loop recv (head + length (concat (map frame_bytes fs))) (run_frames process buf head fs s) \<and>
      inv (run_frames process buf head fs s) \<and> buf (run_frames process buf head fs s) = buf s"
  using assms
proof (induction fs arbitrary: head s)
  case (Cons f fs)
  let ?m = "buf s"
  let ?room = "SYNCS_CLIENT_BUFFER_SIZE - (head + sizeof_syncs_header)"
  define u where "u = process (frame_packet f head ?m) ?room s"
  note inv = Cons.prems(1) and recv = Cons.prems(2)
  have f: "frame_ok f" "list_all frame_ok fs" using Cons.prems(3) by auto
  have split: "mem_read ?m head (frame_size f) = frame_bytes f"
    "mem_read ?m (head + frame_size f) (length (concat (map frame_bytes fs))) = concat (map frame_bytes fs)"
    using Cons.prems(5) by (simp_all add: mem_read_add)
  have hd: "mem_read ?m head sizeof_syncs_header = header_bytes (fst f)"
    using split(1) by (simp add: frame_size_def frame_bytes_def mem_read_add)
  have pk: "packet_at ?m head = frame_packet f head ?m"
    using hd by (simp add: packet_at_def frame_packet_def)
  have sz: "unat (h_data_size (fst f)) = length (snd f)" "length (snd f) \<le> SYNCS_VARIABLE_SIZE_MAXIMUM"
    using f(1) by (simp_all add: frame_ok_def)
  have room: "slack \<le> ?room" using Cons.prems(4) recv by (simp add: frame_size_def)
  have u: "inv u" "buf u = ?m"
    using process_keeps [OF inv room, of "frame_packet f head ?m"] sz by (simp_all add: u_def frame_packet_def)
  have bh: "h_data_size (header_at (buf u) head) = h_data_size (fst f)" by (simp add: header_at_def u(2) hd)
  have one: "loop recv head s = loop recv (head + frame_size f) u"
    using loop_header [OF hd, of recv, unfolded pk, folded u_def] f(1) Cons.prems(4) sz
    by (auto simp: frame_ok_def bh frame_size_def add.assoc)
  have len: "head + frame_size f + length (concat (map frame_bytes fs)) \<le> recv" using Cons.prems(4) by simp
  note IH = Cons.IH [OF u(1) recv f(2) len, unfolded u(2), OF split(2)]
  show ?case using one IH by (simp add: u_def add.assoc)
qed simp

lemma loop_incomplete:
  assumes "incomplete rest" "mem_read (buf s) head (length rest) = rest"
  shows "loop (head + length rest) head s = (head, s)"
proof (cases "length rest < sizeof_syncs_header")
  case True
  then show ?thesis by (subst loop_eq) simp
next
  case False
  then obtain f k where f: "frame_ok f" "sizeof_syncs_header \<le> k" "k < frame_size f" "rest = take k (frame_bytes f)"
    using assms(1) by (auto simp: incomplete_def)
  have len: "length rest = k" using f(3,4) by simp
  have "mem_read (buf s) head sizeof_syncs_header = take sizeof_syncs_header rest"
    using arg_cong [OF assms(2), of "take sizeof_syncs_header"] f(2) len by (simp add: take_mem_read min_def)
  also have "\<dots> = header_bytes (fst f)" using f(2) by (simp add: f(4) frame_bytes_def)
  finally have "mem_read (buf s) head sizeof_syncs_header = header_bytes (fst f)" .
  from loop_header [OF this, of "head + length rest"] show ?thesis
    using f len by (simp add: frame_ok_def frame_size_def)
qed

text \<open>A stream of frames and an incomplete rest: the frames are processed, the rest is where the loop stops.\<close>

lemma loop_stream:
  assumes "inv s" "recv + slack \<le> SYNCS_CLIENT_BUFFER_SIZE" "list_all frame_ok fs" "incomplete rest"
    and m: "mem_read (buf s) 0 recv = concat (map frame_bytes fs) @ rest"
  defines "n \<equiv> length (concat (map frame_bytes fs))"
  shows "loop recv 0 s = (n, run_frames process buf 0 fs s)" "recv = n + length rest"
    "buf (run_frames process buf 0 fs s) = buf s" "mem_read (buf s) n (length rest) = rest"
    "inv (run_frames process buf 0 fs s)"
proof -
  show total: "recv = n + length rest" using arg_cong [OF m, of length] by (simp add: n_def)
  have parts: "mem_read (buf s) 0 n = concat (map frame_bytes fs)" "mem_read (buf s) n (length rest) = rest"
    using m unfolding total mem_read_add by (simp_all add: n_def)
  then show "mem_read (buf s) n (length rest) = rest" by simp
  note l = loop_frames [OF assms(1-3), of 0, folded n_def]
  then show "buf (run_frames process buf 0 fs s) = buf s" "inv (run_frames process buf 0 fs s)"
    using total parts(1) by simp_all
  then show "loop recv 0 s = (n, run_frames process buf 0 fs s)"
    using l loop_incomplete [OF assms(4), of "run_frames process buf 0 fs s" n] total parts by simp
qed

end

text \<open>What is left in the buffer after the loop: the unprocessed bytes moved to the front.\<close>

definition keep_rest :: "nat \<Rightarrow> nat \<Rightarrow> mem \<Rightarrow> mem" where
  "keep_rest head n m = (if head \<noteq> 0 then mem_put 0 (mem_read m head n) m else m)"

lemma keep_rest_read: "mem_read (keep_rest head n m) 0 n = mem_read m head n"
  by (simp add: keep_rest_def mem_simps)

end
