(* ===== verification/Server_Stream.thy ===== *)
theory Server_Stream
  imports Server_Packets Frames
begin

unbundle bit_operations_syntax

text \<open>
  How \<open>syncs_client_handler\<close> cuts a TCP stream into packets. A well-formed packet on the wire is a frame: a
  header with both magic bytes whose size field is the number of data bytes, at most 511. The theorems: frames
  are processed one by one in order and an incomplete rest is kept for the next read; what does not
  start with the magic byte is skipped; a read of fewer than 60 bytes is lost; the ticket of an announcement at the
  very end of the buffer is read past it.
\<close>

section \<open>Processing a packet leaves the receive buffers alone\<close>

lemma add_client_buffer: "c_buffer (s_clients (snd (syncs_add_client_to_event c i s)) d) = c_buffer (s_clients s d)"
  by (simp add: syncs_add_client_to_event_def Let_def split: option.splits)

lemma subscribe_buffer:
  assumes inv: "server_inv s" and c: "c < SYNCS_CLIENT_MAXIMUM"
  shows "c_buffer (s_clients (snd (syncs_client_subscribe c x flags u s)) d) = c_buffer (s_clients s d)"
proof -
  let ?new = "\<lambda>e. e\<lparr>e_data_type := flags AND SYNCS_TYPE_VAR_MASK\<rparr>"
  obtain a t where o: "open_event flags x ?new s = (a, t)" by fastforce
  have t: "s_clients t = s_clients s" using open_event_frame(1) [of flags x ?new s] by (simp add: o)
  show ?thesis
  proof (cases a)
    case (Inr i)
    have "server_inv t" using open_event_inv [OF inv, of ?new flags x] by (simp add: o)
    moreover have i: "i < SYNCS_EVENT_MAXIMUM" using open_event_slot [of flags x ?new s i] by (simp add: o Inr)
    ultimately have "event_ok (s_events (snd (syncs_add_client_to_event c i t)) i)"
      using add_client_to_event_ok [of t c i] c inv_event by blast
    from quiet_client(4) [OF quiet_resend_event [OF this, of c]] show ?thesis
      by (simp add: syncs_client_subscribe_def o Inr Let_def add_client_buffer t)
  qed (simp add: syncs_client_subscribe_def o t)
qed

lemma unsubscribe_buffer: "c_buffer (s_clients (syncs_client_unsubscribe c x s) d) = c_buffer (s_clients s d)"
proof (cases "syncs_find_event s x")
  case (Some i)
  show ?thesis
    using remove_client_from_event_eq(4) [of d c i s] remove_client_from_event_eq(5) [of c i s]
    by (cases "d = c") (auto simp: syncs_client_unsubscribe_def Some)
qed (simp add: syncs_client_unsubscribe_def)

lemma add_event_clients: "s_clients (snd (syncs_add_event x flags data n s)) = s_clients s"
  using create_event_frame(1) [of s x]
  by (cases "syncs_create_event s x") (auto simp: add_event_eq split: option.splits)

lemma free_event_clients: "s_clients (syncs_free_event s x) = s_clients s"
  by (simp add: syncs_free_event_def split: option.splits)

lemma close_buffer:
  assumes "server_inv s" "c < SYNCS_CLIENT_MAXIMUM"
  shows "c_buffer (s_clients (syncs_close_client_socket c s) d) = c_buffer (s_clients s d)"
  using close_client_eq(2) [OF assms, of d] close_client_eq(6) [OF assms] by (cases "d = c") auto

lemma status_buffer:
  assumes "server_inv s" "c < SYNCS_CLIENT_MAXIMUM"
  shows "c_buffer (s_clients (syncs_send_server_status c code s) d) = c_buffer (s_clients s d)"
    and "c_buffer (s_clients (syncs_close_client_socket c (syncs_send_server_status c code s)) d) = c_buffer (s_clients s d)"
  using close_buffer [OF client_status_inv(1) [OF assms] assms(2)] quiet_client(4) [OF quiet_server_status] by auto

lemma channel_buffer:
  "sizeof_syncs_channel_ticket \<le> room \<Longrightarrow> c_buffer (s_clients (snd (syncs_client_channel c header data room s)) d) = c_buffer (s_clients s d)"
  using quiet_client(4) [OF quiet_channel_request] by (simp add: syncs_client_channel_def Let_def add_channel_events(3))

lemma list_buffer:
  "c_buffer (s_clients (syncs_client_send_clientlist c sequance s) d) = c_buffer (s_clients s d)"
  "c_buffer (s_clients (syncs_client_send_eventlist c sequance s) d) = c_buffer (s_clients s d)"
  "c_buffer (s_clients (syncs_client_send_channellist c sequance s) d) = c_buffer (s_clients s d)"
  using quiet_client(4) [OF quiet_lists(1)] quiet_client(4) [OF quiet_lists(2)] quiet_client(4) [OF quiet_lists(3)] by auto

lemma upd_client_buffer:
  "c_buffer (f (s_clients s c)) = c_buffer (s_clients s c) \<Longrightarrow> c_buffer (s_clients (upd_client c f s) d) = c_buffer (s_clients s d)"
  by simp

context passive_callbacks
begin

lemma write_buffer:
  assumes inv: "server_inv s" and c: "c < SYNCS_CLIENT_MAXIMUM" and n: "unat n \<le> SYNCS_VARIABLE_SIZE_MAXIMUM"
  shows "c_buffer (s_clients (snd (syncs_client_write call c x flags data n s)) d) = c_buffer (s_clients s d)"
proof -
  let ?new = "\<lambda>e. e\<lparr>e_data_type := flags AND SYNCS_TYPE_VAR_MASK\<rparr>"
  have op: "server_inv (snd (open_event flags x ?new s))" "s_clients (snd (open_event flags x ?new s)) = s_clients s"
    using open_event_inv [OF inv] open_event_frame(1) by auto
  from n show ?thesis
  proof (cases rule: client_write_cases [where flags = flags and x = x and s = s and call = call and c = c and data = data])
    case (accepted i t)
    let ?u = "store_write c i data n t"
    have t: "server_inv t" "s_clients t = s_clients s" using op accepted(1) by simp_all
    have i: "i < SYNCS_EVENT_MAXIMUM" using open_event_slot [of flags x ?new s i] accepted(1) by simp
    have "server_inv (run_cb call x i ?u)" using run_cb_inv [OF store_write_inv [OF t(1) i c n]] .
    then have "quiet ?u (snd (syncs_client_write call c x flags data n s))"
      using quiet_trans [OF run_cb_quiet quiet_send_event [OF inv_event [OF _ i]]] by (simp add: accepted(3))
    then show ?thesis by (simp add: quiet_client(4) store_write_def t(2))
  qed (use op in auto)
qed

lemma process_packet_buffer:
  assumes inv: "server_inv s" and c: "c < SYNCS_CLIENT_MAXIMUM" and room: "sizeof_syncs_channel_ticket \<le> room"
    and sz: "unat (h_data_size (p_header packet)) \<le> SYNCS_VARIABLE_SIZE_MAXIMUM"
  shows "c_buffer (s_clients (snd (syncs_client_process_packet call c packet room s)) d) = c_buffer (s_clients s d)"
proof -
  have "unat (ucast (h_data_size (p_header packet)) :: u32) \<le> SYNCS_VARIABLE_SIZE_MAXIMUM"
    using sz by (simp add: unat_ucast_le)
  note w = write_buffer [OF inv c this]
  show ?thesis
    unfolding syncs_client_process_packet_def Let_def
    using room quiet_client(4) [OF quiet_client_read [OF inv]]
    by (auto simp: upd_client_buffer w subscribe_buffer [OF inv c] unsubscribe_buffer add_event_clients free_event_clients
        status_buffer [OF inv c] channel_buffer list_buffer simp del: upd_client_simps(1))
qed

end

section \<open>The receive loop of a client\<close>

lemma put_data_size_id:
  assumes "mem_read (c_buffer (s_clients s c)) head sizeof_syncs_header = header_bytes h"
  shows "put_data_size c head (h_data_size h) s = s"
proof -
  let ?m = "c_buffer (s_clients s c)"
  have "mem_read ?m (head + 57) 2 = take 2 (drop 57 (header_bytes h))"
    by (simp add: assms [symmetric] mem_simps)
  also have "\<dots> = le_bytes 2 (h_data_size h)" by (simp add: header_bytes_def)
  finally have two: "le_bytes 2 (h_data_size h) = mem_read ?m (head + 57) 2" by simp
  have "mem_put (head + 57) (le_bytes 2 (h_data_size h)) ?m = ?m"
    unfolding two by (rule ext) (auto simp: mem_put_def)
  then show ?thesis by (simp add: put_data_size_def upd_client_def)
qed

interpretation rx_scan: packet_scan "\<lambda>s. c_buffer (s_clients s c)"
  "\<lambda>head s. put_data_size c head (h_data_size (buffer_header c head s) AND 0x1ff) s"
  "\<lambda>packet room s. snd (syncs_client_process_packet call c packet room s)" "rx_loop call c" for call c
proof
  show "rx_loop call c recv head s =
      (if recv < head + sizeof_syncs_header then (head, s)
       else if h_magic (header_at (c_buffer (s_clients s c)) head) \<noteq> SYNCS_PACKET_MAGIC then rx_loop call c recv (head + 1) s
       else if h_magic_data (header_at (c_buffer (s_clients s c)) head) \<noteq> SYNCS_PACKET_MAGIC_DATA then rx_loop call c recv (head + 1) s
       else
         (let s = put_data_size c head (h_data_size (buffer_header c head s) AND 0x1ff) s
          in if recv - head < sizeof_syncs_header + unat (h_data_size (header_at (c_buffer (s_clients s c)) head)) then (head, s)
             else
               (let s = snd (syncs_client_process_packet call c (packet_at (c_buffer (s_clients s c)) head)
                          (SYNCS_CLIENT_BUFFER_SIZE - (head + sizeof_syncs_header)) s)
                in rx_loop call c recv (head + sizeof_syncs_header +
                     unat (h_data_size (header_at (c_buffer (s_clients s c)) head))) s)))" for recv head s
    by (subst rx_loop.simps) (simp add: Let_def header_at_def buffer_header_def)
  show "put_data_size c head (h_data_size (buffer_header c head s) AND 0x1ff) s = s"
    if "mem_read (c_buffer (s_clients s c)) head sizeof_syncs_header = header_bytes h"
      "unat (h_data_size h) \<le> SYNCS_VARIABLE_SIZE_MAXIMUM" for s head h
    using put_data_size_id [OF that(1)] mask_small [OF that(2)] that(1) by (simp add: buffer_header_def)
qed

sublocale passive_callbacks \<subseteq> rx: packet_loop "\<lambda>s. c_buffer (s_clients s c)"
  "\<lambda>head s. put_data_size c head (h_data_size (buffer_header c head s) AND 0x1ff) s"
  "\<lambda>packet room s. snd (syncs_client_process_packet call c packet room s)" "rx_loop call c"
  "\<lambda>s. server_inv s \<and> c < SYNCS_CLIENT_MAXIMUM" sizeof_syncs_channel_ticket for c
proof
  show "(server_inv (snd (syncs_client_process_packet call c packet room s)) \<and> c < SYNCS_CLIENT_MAXIMUM) \<and>
    c_buffer (s_clients (snd (syncs_client_process_packet call c packet room s)) c) = c_buffer (s_clients s c)"
    if "server_inv s \<and> c < SYNCS_CLIENT_MAXIMUM" "sizeof_syncs_channel_ticket \<le> room"
      "unat (h_data_size (p_header packet)) \<le> SYNCS_VARIABLE_SIZE_MAXIMUM" for s room packet
    using process_packet_inv process_packet_buffer that by blast
qed

text \<open>Processing the frames of a stream that starts at \<open>head\<close> of the buffer of client \<open>c\<close>, one by one.\<close>

definition process_frames :: "callback \<Rightarrow> nat \<Rightarrow> nat \<Rightarrow> frame list \<Rightarrow> syncs_server \<Rightarrow> syncs_server" where
  "process_frames call c =
     run_frames (\<lambda>packet room s. snd (syncs_client_process_packet call c packet room s)) (\<lambda>s. c_buffer (s_clients s c))"

section \<open>Reading from a client\<close>

context passive_callbacks
begin

lemma handler_frames:
  assumes inv: "server_inv s" and c: "c < SYNCS_CLIENT_MAXIMUM"
    and room: "c_buffer_recv (s_clients s c) + length bytes + sizeof_syncs_channel_ticket \<le> SYNCS_CLIENT_BUFFER_SIZE"
    and len: "sizeof_syncs_header \<le> length bytes"
    and stream: "mem_read (c_buffer (s_clients s c)) 0 (c_buffer_recv (s_clients s c)) @ bytes = concat (map frame_bytes fs) @ rest"
    and fs: "list_all frame_ok fs" and rest: "incomplete rest"
  defines "t \<equiv> upd_client c (\<lambda>cl. cl\<lparr>c_buffer := mem_put (c_buffer_recv cl) bytes (c_buffer cl)\<rparr>) s"
  shows "\<exists>b. syncs_client_handler call (Recv bytes) c s =
      upd_client c (\<lambda>cl. cl\<lparr>c_buffer := b, c_buffer_recv := length rest\<rparr>) (process_frames call c 0 fs t) \<and>
    mem_read b 0 (length rest) = rest"
proof -
  define recv where "recv = c_buffer_recv (s_clients s c)"
  let ?fs = "concat (map frame_bytes fs)"
  let ?m = "c_buffer (s_clients t c)"
  let ?u = "process_frames call c 0 fs t"
  have t: "server_inv t" unfolding t_def using inv inv_client [OF inv c] by (intro server_inv_upd_client) simp_all
  have m: "mem_read ?m 0 (recv + length bytes) = ?fs @ rest"
    using stream by (simp add: t_def recv_def mem_read_put_append)
  note st = rx.loop_stream [of t c "recv + length bytes", OF _ _ fs rest m, folded process_frames_def]
  have r: "rx_loop call c (recv + length bytes) 0 t = (length ?fs, ?u)" and total: "recv + length bytes = length ?fs + length rest"
    and loop: "c_buffer (s_clients ?u c) = ?m" and parts: "mem_read ?m (length ?fs) (length rest) = rest"
    using st(1-4) t c room by (simp_all add: recv_def)
  have t': "upd_client c (\<lambda>cl. cl\<lparr>c_buffer := mem_put recv bytes (c_buffer cl)\<rparr>) s = t"
    by (simp add: t_def upd_client_def recv_def)
  have h: "syncs_client_handler call (Recv bytes) c s =
     (if length ?fs < recv + length bytes
      then upd_client c (\<lambda>cl. cl\<lparr>c_buffer := (if length ?fs \<noteq> 0
                then mem_put 0 (mem_read (c_buffer cl) (length ?fs) (recv + length bytes - length ?fs)) (c_buffer cl) else c_buffer cl),
              c_buffer_recv := recv + length bytes - length ?fs\<rparr>) ?u
      else upd_client c (\<lambda>cl. cl\<lparr>c_buffer_recv := 0\<rparr>) ?u)"
    using room len r by (simp add: syncs_client_handler_def Let_def quiet_fault_if recv_def [symmetric] t')
  show ?thesis
  proof (cases "rest = []")
    case True
    then show ?thesis
      by (intro exI [of _ "c_buffer (s_clients ?u c)"]) (simp add: h total upd_client_def)
  next
    case False
    define k where "k = length ?fs"
    note facts = parts h total loop [symmetric]
    show ?thesis
      using False facts unfolding k_def [symmetric]
      by (intro exI [of _ "if k \<noteq> 0 then mem_put 0 (mem_read ?m k (length rest)) ?m else ?m"])
        (cases "k = 0"; simp add: upd_client_def mem_simps)
  qed
qed

end

text \<open>
  C7: A TCP stream is cut into packets exactly. When the bytes left over from earlier reads and the bytes of
  a read of at least 60 bytes together are any number of well-formed packets followed by the beginning of another, the
  handler processes exactly these packets, each once, in order, with its header and data intact, and
  keeps exactly the beginning of the last for the next read, wherever the read has cut the stream.
\<close>

theorem stream_cut_into_packets:
  assumes "passive_callbacks call" "server_inv s" "c < SYNCS_CLIENT_MAXIMUM"
    "c_buffer_recv (s_clients s c) + length bytes + sizeof_syncs_channel_ticket \<le> SYNCS_CLIENT_BUFFER_SIZE"
    "sizeof_syncs_header \<le> length bytes"
    "mem_read (c_buffer (s_clients s c)) 0 (c_buffer_recv (s_clients s c)) @ bytes = concat (map frame_bytes fs) @ rest"
    "list_all frame_ok fs" "incomplete rest"
  shows "\<exists>b. syncs_client_handler call (Recv bytes) c s =
      upd_client c (\<lambda>cl. cl\<lparr>c_buffer := b, c_buffer_recv := length rest\<rparr>)
        (process_frames call c 0 fs (upd_client c (\<lambda>cl. cl\<lparr>c_buffer := mem_put (c_buffer_recv cl) bytes (c_buffer cl)\<rparr>) s)) \<and>
    mem_read b 0 (length rest) = rest"
  using passive_callbacks.handler_frames [OF assms] .

definition read_request :: syncs_header where
  "read_request = \<lparr>h_magic = 0x53, h_crc = 0, h_type = 0x004, h_id = syncs_idstr (cstr ''a''),
     h_sync = \<lparr>data0 = 0, data1 = 0\<rparr>, h_update_counter = 0, h_data_size = 0, h_magic_data = 0x44\<rparr>"

theorem stream_cut_into_packets_witness:
  "c_buffer_recv (s_clients (syncs_client_handler syncsserver_call (Recv (header_bytes read_request @ [0x53, 0x00, 0x00])) 5 sample_server) 5) = 3"
proof -
  have f: "frame_ok (read_request, [])" "frame_bytes (read_request, []) = header_bytes read_request"
    by (simp_all add: frame_ok_def frame_bytes_def read_request_def)
  have recv: "c_buffer_recv (s_clients sample_server 5) = 0" by (simp add: sample_server_fields zero_client_def)
  have "\<exists>b. syncs_client_handler syncsserver_call (Recv (header_bytes read_request @ [0x53, 0x00, 0x00])) 5 sample_server =
      upd_client 5 (\<lambda>cl. cl\<lparr>c_buffer := b, c_buffer_recv := length [0x53, 0x00, 0x00 :: byte]\<rparr>)
        (process_frames syncsserver_call 5 0 [(read_request, [])]
          (upd_client 5 (\<lambda>cl. cl\<lparr>c_buffer := mem_put (c_buffer_recv cl) (header_bytes read_request @ [0x53, 0x00, 0x00]) (c_buffer cl)\<rparr>) sample_server)) \<and>
      mem_read b 0 (length [0x53, 0x00, 0x00 :: byte]) = [0x53, 0x00, 0x00]"
    by (rule stream_cut_into_packets [OF syncsserver.passive_callbacks_axioms sample_server_inv])
      (simp_all add: recv f incomplete_def)
  then show ?thesis by auto
qed

section \<open>Garbage, short reads, and the end of the buffer\<close>



lemma add_channel_overread:
  assumes "room < sizeof_syncs_channel_ticket" "syncs_find_channel s x \<noteq> None \<or> fst (syncs_create_channel s x) \<noteq> None"
  shows "os_fault (s_os (snd (syncs_add_channel c x flags ticket room s)))"
  using assms by (cases "syncs_create_channel s x") (auto simp: syncs_add_channel_def Let_def split: option.splits)

text \<open>
  An announcement at the very end of the receive buffer is read past the buffer. When one read fills the
  32768 bytes of the buffer and its last 60 bytes are the header of a channel announcement without data, the
  handler copies a 10-byte ticket from behind the buffer, for every client, every id and every state with a place for the
  channel. This is the one way network input leaves an array; \<open>event_possible\<close> excludes it.
\<close>

lemma announcement_overreads:
  assumes c: "c_buffer_recv (s_clients s c) = 0"
    and h: "h_magic h = SYNCS_PACKET_MAGIC" "h_magic_data h = SYNCS_PACKET_MAGIC_DATA" "h_data_size h = 0"
      "h_type h AND SYNCS_TYPE_MSG_MASK = SYNCS_TYPE_CHANNEL" "h_type h AND SYNCS_CHANNEL_MASK = SYNCS_CHANNEL_ANONS"
    and place: "syncs_find_channel s (h_id h) \<noteq> None \<or> fst (syncs_create_channel s (h_id h)) \<noteq> None"
  shows "os_fault (s_os (syncs_client_handler call (Recv (replicate 32708 0 @ header_bytes h)) c s))"
proof -
  let ?bs = "replicate 32708 0 @ header_bytes h"
  define t where "t = upd_client c (\<lambda>cl. cl\<lparr>c_buffer := mem_put 0 ?bs (c_buffer cl)\<rparr>) s"
  define u where "u = snd (syncs_client_process_packet call c (packet_at (c_buffer (s_clients t c)) 32708) 0 t)"
  have zero: "c_buffer (s_clients t c) k \<noteq> SYNCS_PACKET_MAGIC" if "k < 32708" for k
    using that by (simp add: t_def mem_put_def nth_append)
  have hd: "mem_read (c_buffer (s_clients t c)) 32708 sizeof_syncs_header = header_bytes h"
    using drop_mem_read [of 32708 "c_buffer (s_clients t c)" 0 32768]
    by (simp add: t_def mem_read_put)
  have "rx_loop call c 32768 0 t = rx_loop call c 32768 32708 t"
    by (rule rx_scan.loop_skip) (use zero in auto)
  also have "\<dots> = rx_loop call c 32768 (32708 + 60 + unat (h_data_size (header_at (c_buffer (s_clients u c)) 32708))) u"
    using rx_scan.loop_header [OF hd h(1,2), of 32768 call] h(3) by (simp add: u_def)
  also have "\<dots> = (32768 + unat (h_data_size (header_at (c_buffer (s_clients u c)) 32708)), u)"
    by (subst rx_loop.simps) simp
  finally have loop: "rx_loop call c 32768 0 t = (32768 + unat (h_data_size (header_at (c_buffer (s_clients u c)) 32708)), u)" .
  have "syncs_find_channel t = syncs_find_channel s" "fst (syncs_create_channel t x) = fst (syncs_create_channel s x)" for x
    by (auto simp: t_def syncs_find_channel_def syncs_create_channel_def fun_eq_iff split: option.splits)
  then have "os_fault (s_os (snd (syncs_add_channel c (h_id h) flags ticket 0 t)))" for flags ticket
    using place by (intro add_channel_overread) auto
  then have "os_fault (s_os u)"
    using h(4,5) hd by (simp add: u_def syncs_client_process_packet_def Let_def syncs_client_channel_def packet_at_def)
  moreover have "syncs_client_handler call (Recv ?bs) c s = upd_client c (\<lambda>cl. cl\<lparr>c_buffer_recv := 0\<rparr>) u"
    using loop by (simp add: syncs_client_handler_def c Let_def quiet_fault_if t_def [symmetric])
  ultimately show ?thesis by simp
qed

definition announcement :: syncs_header where
  "announcement = read_request\<lparr>h_type := 0x100d\<rparr>"

end
