(* ===== verification/Server_Typed.thy ===== *)
theory Server_Typed
  imports Server_Stream
begin

unbundle bit_operations_syntax

text \<open>
  What a whole read from a client does to the variables: the contracts of its packets, one after the other. Along such a sequence a
  variable keeps its type.
\<close>

section \<open>A sequence of packets\<close>

fun packet_steps :: "frame list \<Rightarrow> store \<Rightarrow> store \<Rightarrow> bool" where
  "packet_steps [] m m' \<longleftrightarrow> m' = m"
| "packet_steps (f # fs) m m' \<longleftrightarrow>
     (\<exists>m1. packet_step (h_type (fst f)) (h_id (fst f)) (h_data_size (fst f)) (snd f) m m1 \<and> packet_steps fs m1 m')"

context passive_callbacks
begin

lemma process_frames_refines:
  assumes "server_inv s" "c < SYNCS_CLIENT_MAXIMUM" "list_all frame_ok fs" "\<And>f. f \<in> set fs \<Longrightarrow> live_id (h_id (fst f))"
    and "head + length (concat (map frame_bytes fs)) + sizeof_syncs_channel_ticket \<le> SYNCS_CLIENT_BUFFER_SIZE"
    and "mem_read (c_buffer (s_clients s c)) head (length (concat (map frame_bytes fs))) = concat (map frame_bytes fs)"
  shows "packet_steps fs (variables s) (variables (process_frames call c head fs s))"
  using assms
proof (induction fs arbitrary: head s)
  case (Cons f fs)
  let ?m = "c_buffer (s_clients s c)" and ?room = "SYNCS_CLIENT_BUFFER_SIZE - (head + sizeof_syncs_header)"
  define u where "u = snd (syncs_client_process_packet call c (frame_packet f head ?m) ?room s)"
  have split: "mem_read ?m head (frame_size f) = frame_bytes f"
    "mem_read ?m (head + frame_size f) (length (concat (map frame_bytes fs))) = concat (map frame_bytes fs)"
    using Cons.prems(6) by (simp_all add: mem_read_add)
  have f: "unat (h_data_size (p_header (frame_packet f head ?m))) \<le> SYNCS_VARIABLE_SIZE_MAXIMUM" "live_id (h_id (p_header (frame_packet f head ?m)))"
    "unat (h_data_size (fst f)) = length (snd f)"
    using Cons.prems(3,4) by (simp_all add: frame_ok_def frame_packet_def)
  have room: "sizeof_syncs_channel_ticket \<le> ?room" using Cons.prems(5) by (simp add: frame_size_def)
  have "packet_step (h_type (fst f)) (h_id (fst f)) (h_data_size (fst f)) (snd f) (variables s) (variables u)"
    using packet_refines [OF Cons.prems(1,2) room f(1,2)] frame_data [OF split(1)] f(3) by (simp add: u_def frame_packet_def)
  moreover have "server_inv u" "c_buffer (s_clients u c) = ?m"
    unfolding u_def using process_packet_inv [OF Cons.prems(1,2) room f(1)] process_packet_buffer [OF Cons.prems(1,2) room f(1)] by simp_all
  then have "packet_steps fs (variables u) (variables (process_frames call c (head + frame_size f) fs u))"
    using Cons.IH [of u "head + frame_size f"] Cons.prems split(2) by (simp add: add.assoc)
  ultimately show ?case by (auto simp: process_frames_def u_def)
qed (simp add: process_frames_def)

lemma handler_refines:
  assumes inv: "server_inv s" and c: "c < SYNCS_CLIENT_MAXIMUM"
    and room: "c_buffer_recv (s_clients s c) + length bytes + sizeof_syncs_channel_ticket \<le> SYNCS_CLIENT_BUFFER_SIZE"
    and len: "sizeof_syncs_header \<le> length bytes"
    and stream: "mem_read (c_buffer (s_clients s c)) 0 (c_buffer_recv (s_clients s c)) @ bytes = concat (map frame_bytes fs) @ rest"
    and fs: "list_all frame_ok fs" "\<And>f. f \<in> set fs \<Longrightarrow> live_id (h_id (fst f))" and rest: "incomplete rest"
  shows "packet_steps fs (variables s) (variables (syncs_client_handler call (Recv bytes) c s))"
proof -
  let ?t = "upd_client c (\<lambda>cl. cl\<lparr>c_buffer := mem_put (c_buffer_recv cl) bytes (c_buffer cl)\<rparr>) s"
  have t: "server_inv ?t" using inv inv_client [OF inv c] by (intro server_inv_upd_client) simp_all
  have m: "mem_read (c_buffer (s_clients ?t c)) 0 (c_buffer_recv (s_clients s c) + length bytes) = concat (map frame_bytes fs) @ rest"
    using stream by (simp add: mem_read_put_append)
  have total: "c_buffer_recv (s_clients s c) + length bytes = length (concat (map frame_bytes fs)) + length rest"
    using arg_cong [OF stream, of length] by simp
  have "mem_read (c_buffer (s_clients ?t c)) 0 (length (concat (map frame_bytes fs))) = concat (map frame_bytes fs)"
    using arg_cong [OF m, of "take (length (concat (map frame_bytes fs)))"] total by (simp add: take_mem_read)
  then have "packet_steps fs (variables ?t) (variables (process_frames call c 0 fs ?t))"
    using process_frames_refines [OF t c fs, of 0] room total by simp
  then show ?thesis using handler_frames [OF inv c room len stream fs(1) rest] by auto
qed

end

section \<open>Types\<close>

text \<open>A packet that may give a variable another type: a removal, or a definition with FORCE.\<close>

definition retypes :: "syncsid \<Rightarrow> frame \<Rightarrow> bool" where
  "retypes x f \<longleftrightarrow> h_id (fst f) = x \<and>
     (h_type (fst f) AND SYNCS_TYPE_MSG_MASK = SYNCS_TYPE_UNDEFINE \<or>
      h_type (fst f) AND SYNCS_TYPE_MSG_MASK = SYNCS_TYPE_DEFINE \<and> h_type (fst f) AND SYNCS_TYPE_FORCE \<noteq> 0)"

lemma abs_open_type: "abs_open force y u m = Inr m' \<Longrightarrow> m x = Some (t, v) \<Longrightarrow> m' x = Some (t, v)"
  by (auto simp: abs_open_def dom_def split: if_splits)

lemma abs_write_type: "m x = Some (t, v) \<Longrightarrow> \<exists>v'. snd (abs_write force y u d m) x = Some (t, v')"
  by (auto simp: abs_write_def dest: abs_open_type split: sum.split)

lemma abs_subscribe_type: "m x = Some (t, v) \<Longrightarrow> snd (abs_subscribe force y u m) x = Some (t, v)"
  by (auto simp: abs_subscribe_def dest: abs_open_type split: sum.split)

lemma packet_step_type:
  assumes step: "packet_step (h_type (fst f)) (h_id (fst f)) (h_data_size (fst f)) d m m'" and r: "\<not> retypes x f" and m: "m x = Some (t, v)"
  shows "\<exists>v'. m' x = Some (t, v')"
proof -
  define msg where "msg = h_type (fst f) AND SYNCS_TYPE_MSG_MASK"
  define force where "force \<longleftrightarrow> h_type (fst f) AND SYNCS_TYPE_FORCE \<noteq> 0"
  have r': "h_id (fst f) = x \<Longrightarrow> msg \<noteq> SYNCS_TYPE_UNDEFINE" "h_id (fst f) = x \<Longrightarrow> msg = SYNCS_TYPE_DEFINE \<Longrightarrow> \<not> force"
    using r by (auto simp: retypes_def msg_def force_def)
  have x: "x \<in> dom m" using m by blast
  show ?thesis
    using step m r' x abs_write_type [of m x t v] abs_subscribe_type [of m x t v]
    unfolding packet_step_def Let_def msg_def [symmetric] force_def [symmetric]
    by (cases "msg = SYNCS_TYPE_SUBSCRIBE"; cases "msg = SYNCS_TYPE_WRITE"; cases "msg = SYNCS_TYPE_UNDEFINE"; cases "msg = SYNCS_TYPE_DEFINE")
      (auto split: if_splits)
qed

lemma packet_steps_type:
  "packet_steps fs m m' \<Longrightarrow> (\<And>f. f \<in> set fs \<Longrightarrow> \<not> retypes x f) \<Longrightarrow> m x = Some (t, v) \<Longrightarrow> \<exists>v'. m' x = Some (t, v')"
proof (induction fs arbitrary: m v)
  case (Cons f fs)
  then obtain m1 where "packet_step (h_type (fst f)) (h_id (fst f)) (h_data_size (fst f)) (snd f) m m1" "packet_steps fs m1 m'" by auto
  then show ?case using packet_step_type [of f "snd f" m m1 x t v] Cons.IH [of m1] Cons.prems(2,3) by auto
qed simp

section \<open>Properties\<close>

text \<open>
  C4: A read from a TCP client acts on the variables by the contracts of its packets. When the bytes left over from earlier reads and those of
  a read of at least 60 bytes are any number of well-formed packets with live ids and the beginning of another, the store after the handler is
  one that the contracts lead to, packet by packet in the order of the stream.
\<close>

theorem stream_refines_store:
  assumes "passive_callbacks call" "server_inv s" "c < SYNCS_CLIENT_MAXIMUM"
    "c_buffer_recv (s_clients s c) + length bytes + sizeof_syncs_channel_ticket \<le> SYNCS_CLIENT_BUFFER_SIZE"
    "sizeof_syncs_header \<le> length bytes"
    "mem_read (c_buffer (s_clients s c)) 0 (c_buffer_recv (s_clients s c)) @ bytes = concat (map frame_bytes fs) @ rest"
    "list_all frame_ok fs" "\<And>f. f \<in> set fs \<Longrightarrow> live_id (h_id (fst f))" "incomplete rest"
  shows "packet_steps fs (variables s) (variables (syncs_client_handler call (Recv bytes) c s))"
  using assms by (rule passive_callbacks.handler_refines)

text \<open>
  C5: Variables keep their types. A read from a TCP client, of any number of packets of any kind, with definitions, subscriptions and writes of other types among
  them, leaves every variable with the type it had, unless one of the packets removes it or defines it anew with FORCE.
\<close>

theorem types_kept:
  assumes "passive_callbacks call" "server_inv s" "c < SYNCS_CLIENT_MAXIMUM"
    "c_buffer_recv (s_clients s c) + length bytes + sizeof_syncs_channel_ticket \<le> SYNCS_CLIENT_BUFFER_SIZE"
    "sizeof_syncs_header \<le> length bytes"
    "mem_read (c_buffer (s_clients s c)) 0 (c_buffer_recv (s_clients s c)) @ bytes = concat (map frame_bytes fs) @ rest"
    "list_all frame_ok fs" "\<And>f. f \<in> set fs \<Longrightarrow> live_id (h_id (fst f))" "incomplete rest"
    and "variables s x = Some (t, v)" "\<And>f. f \<in> set fs \<Longrightarrow> \<not> retypes x f"
  shows "\<exists>v'. variables (syncs_client_handler call (Recv bytes) c s) x = Some (t, v')"
  using packet_steps_type [OF passive_callbacks.handler_refines [OF assms(1-9)] assms(11,10)] .


text \<open>A write of a string to the variable \<open>a\<close>, for the examples.\<close>

definition sample_write :: frame where
  "sample_write = (read_request\<lparr>h_type := 0x603, h_data_size := 1\<rparr>, [7])"

lemma sample_write_facts:
  "frame_ok sample_write" "h_id (fst sample_write) = syncs_idstr (cstr ''a'')" "\<not> retypes x sample_write" "frame_size sample_write = 61"
  by (simp_all add: sample_write_def frame_ok_def read_request_def retypes_def frame_size_def)

lemma sample_subscribed_recv: "c_buffer_recv (s_clients sample_subscribed 5) = 0"
  by (simp add: sample_subscribed_def add_client_to_event_frame create_event_frame sample_server_fields zero_client_def syncs_add_client_to_event_def Let_def split: option.split)

theorem stream_refines_store_witness:
  "packet_steps [sample_write] (variables sample_subscribed)
     (variables (syncs_client_handler syncsserver_call (Recv (frame_bytes sample_write)) 5 sample_subscribed))"
  by (rule stream_refines_store [OF syncsserver.passive_callbacks_axioms sample_subscribed_facts(1), where rest = "[]"])
    (simp_all add: sample_write_facts sample_subscribed_recv live_id_a incomplete_def)

theorem types_kept_witness:
  "\<exists>v'. variables (syncs_client_handler syncsserver_call (Recv (frame_bytes sample_write)) 5 sample_subscribed) (syncs_idstr (cstr ''a''))
     = Some (SYNCS_TYPE_VAR_INT32, v')"
  by (rule types_kept [OF syncsserver.passive_callbacks_axioms sample_subscribed_facts(1), where rest = "[]" and fs = "[sample_write]"])
    (auto simp add: sample_write_facts sample_subscribed_recv sample_subscribed_facts(5) live_id_a incomplete_def)

end
