(* ===== verification/Client_State.thy ===== *)
theory Client_State
  imports Net Slots
begin

unbundle bit_operations_syntax

text \<open>
  A client of the library (\<^verbatim>\<open>src/libsyncs/syncs-client.c\<close>, \<^verbatim>\<open>src/libsyncs/syncs-client-types.h\<close>): its state, its tables
  of subscriptions and announced channels, and what it sends.

  The functions that wait for an answer (\<open>syncs_read\<close>, the list requests, \<open>syncs_channel_request\<close>) are called in
  the application's thread while the receiving thread works. Such a function takes the argument \<open>during\<close>, what
  the receiving thread does to the state while it waits; the wait times out when its flag is still set after
  that. Mutexes and condition variables are left out here (theory \<open>Wait\<close> has them), as are the keys, which the code
  never uses. Error numbers are those of Linux.
\<close>

abbreviation (input) EBADFD :: int where "EBADFD \<equiv> 77"
abbreviation (input) ENOMEM :: int where "ENOMEM \<equiv> 12"
abbreviation (input) ETIMEDOUT :: int where "ETIMEDOUT \<equiv> 110"

section \<open>State\<close>

record syncs_client_event =
  ce_id :: syncsid
  ce_cb :: "nat option"
  ce_args :: nat
  ce_update_counter :: u64
  ce_flags :: u32
  ce_data :: "mem option"
  ce_data_size :: u32
  ce_data_user_size :: u32

record syncs_connect_channel =
  cc_id :: syncsid
  cc_ticket :: syncs_channel_ticket

text \<open>
  The fields \<open><x>list_sequence\<close>, \<open><x>list_wait_packet\<close>, \<open><x>list_recv\<close>, \<open><x>list_wait\<close> and \<open><x>s_info\<close>, once for each of the
  lists of events, clients and channels.
\<close>

record list_state =
  l_info :: "mem option"
  l_sequence :: byte
  l_wait_packet :: byte
  l_recv :: int
  l_wait :: bool

record syncs_connect =
  cn_id :: syncsid
  cn_server_id :: syncsid
  cn_addr :: "byte list"
  cn_port :: int
  cn_socketfd :: int
  cn_usocketfd :: int
  cn_buffer :: mem
  cn_read_data :: mem
  cn_onexit :: bool
  cn_ready :: bool
  cn_connect_wait :: bool
  cn_read_size :: nat
  cn_read_id :: syncsid
  cn_read_wait :: bool
  cn_saddr :: sockaddr_in
  cn_event_wait :: bool
  cn_ticket_data :: syncs_channel_ticket
  cn_ticket_id :: syncsid
  cn_ticket_wait :: bool
  cn_events :: "nat \<Rightarrow> syncs_client_event"
  cn_events_queue :: "nat option"
  cn_channels :: "nat \<Rightarrow> syncs_connect_channel"
  cn_eventlist :: list_state
  cn_clientlist :: list_state
  cn_channellist :: list_state
  cn_connect_cb :: "nat option"
  cn_connect_arg :: nat
  cn_connect_cb_status :: int
  cn_os :: os

definition upd_ce :: "nat \<Rightarrow> (syncs_client_event \<Rightarrow> syncs_client_event) \<Rightarrow> syncs_connect \<Rightarrow> syncs_connect" where
  "upd_ce i f s = s\<lparr>cn_events := (cn_events s)(i := f (cn_events s i))\<rparr>"

definition upd_cc :: "nat \<Rightarrow> (syncs_connect_channel \<Rightarrow> syncs_connect_channel) \<Rightarrow> syncs_connect \<Rightarrow> syncs_connect" where
  "upd_cc i f s = s\<lparr>cn_channels := (cn_channels s)(i := f (cn_channels s i))\<rparr>"

definition cn_fault :: "bool \<Rightarrow> syncs_connect \<Rightarrow> syncs_connect" where
  "cn_fault b s = s\<lparr>cn_os := fault_if b (cn_os s)\<rparr>"

section \<open>Sending\<close>

definition syncs_connect_send :: "byte list \<Rightarrow> syncs_connect \<Rightarrow> int \<times> syncs_connect" where
  "syncs_connect_send buffer c =
     (if cn_socketfd c > 0 then
        (let (ret, w) = syncs_blocking_send (cn_socketfd c) buffer (cn_os c) in (ret, c\<lparr>cn_os := w\<rparr>))
      else if cn_usocketfd c > 0 then
        (let (_, w) = syncs_udp_send (cn_usocketfd c) buffer (cn_saddr c) (cn_os c) in (0, c\<lparr>cn_os := w\<rparr>))
      else (-1, c))"

text \<open>Sending a local packet of which only the header is filled in, by \<open>fill\<close>.\<close>

definition send_header :: "(syncs_header \<Rightarrow> syncs_header) \<Rightarrow> syncs_connect \<Rightarrow> syncs_connect" where
  "send_header fill s =
     snd (syncs_connect_send (header_bytes (fill (p_header (os_stack (cn_os s))))) s)"

section \<open>Tables\<close>

definition syncs_find_event_conn :: "syncs_connect \<Rightarrow> syncsid \<Rightarrow> nat option" where
  "syncs_find_event_conn s x = first_slot SYNCS_EVENT_MAXIMUM (\<lambda>i. syncs_idcmp (ce_id (cn_events s i)) x)"

definition syncs_find_event_str :: "syncs_connect \<Rightarrow> byte list \<Rightarrow> nat option" where
  "syncs_find_event_str s cid = first_slot SYNCS_EVENT_MAXIMUM (\<lambda>i. syncs_idcmp_str (ce_id (cn_events s i)) cid)"

definition syncs_get_free_event :: "syncs_connect \<Rightarrow> nat option" where
  "syncs_get_free_event s = first_slot SYNCS_EVENT_MAXIMUM (\<lambda>i. id_i0 (ce_id (cn_events s i)) = -1)"

definition syncs_get_event_str :: "syncs_connect \<Rightarrow> byte list \<Rightarrow> nat option" where
  "syncs_get_event_str s cid =
     (case syncs_find_event_str s cid of None \<Rightarrow> syncs_get_free_event s | Some i \<Rightarrow> Some i)"

definition syncs_find_free_channel :: "syncs_connect \<Rightarrow> nat option" where
  "syncs_find_free_channel s = first_slot SYNCS_CHANNEL_MAXIMUM (\<lambda>i. id_i0 (cc_id (cn_channels s i)) = -1)"

section \<open>Writing\<close>

text \<open>\<open>data\<close> is \<open>None\<close> for a null pointer. The size is masked after the copy into the 4095 bytes of the packet.\<close>

definition syncs_write :: "u32 \<Rightarrow> byte list \<Rightarrow> mem option \<Rightarrow> u32 \<Rightarrow> syncs_connect \<Rightarrow> int \<times> syncs_connect" where
  "syncs_write flags cid data data_size s =
     (let packet = os_stack (cn_os s);
          header = syncs_fill_header_str cid
            (SYNCS_TYPE_WRITE OR (flags AND (SYNCS_TYPE_VAR_MASK OR SYNCS_TYPE_FLAGS_MASK)))
            ((p_header packet)\<lparr>h_id := syncs_idstr cid\<rparr>);
          data_size = (if data_size = 0 then syncs_get_size_by_type flags else data_size)
      in case data of
           Some d \<Rightarrow>
             if data_size \<noteq> 0 then
               (let s = cn_fault (unat data_size > SYNCS_EVENT_DATA_SIZE_MAXIMUM) s;
                    packet = packet\<lparr>p_header := header\<lparr>h_data_size := ucast (data_size AND 0x1ff)\<rparr>,
                                    p_buffer := mem_copy 0 d (unat data_size) (p_buffer packet)\<rparr>
                in syncs_connect_send (packet_bytes packet (sizeof_syncs_header + unat (data_size AND 0x1ff))) s)
             else syncs_connect_send (header_bytes (header\<lparr>h_data_size := 0\<rparr>)) s
         | None \<Rightarrow> syncs_connect_send (header_bytes (header\<lparr>h_data_size := 0\<rparr>)) s)"

definition syncs_write_int32 :: "u32 \<Rightarrow> byte list \<Rightarrow> u32 \<Rightarrow> syncs_connect \<Rightarrow> int \<times> syncs_connect" where
  "syncs_write_int32 flags cid data = syncs_write (flags OR SYNCS_TYPE_VAR_INT32) cid (Some (mem_of (le_bytes 4 data))) 0"

definition syncs_write_int64 :: "u32 \<Rightarrow> byte list \<Rightarrow> u64 \<Rightarrow> syncs_connect \<Rightarrow> int \<times> syncs_connect" where
  "syncs_write_int64 flags cid data = syncs_write (flags OR SYNCS_TYPE_VAR_INT64) cid (Some (mem_of (le_bytes 8 data))) 0"

definition syncs_write_float :: "u32 \<Rightarrow> byte list \<Rightarrow> u32 \<Rightarrow> syncs_connect \<Rightarrow> int \<times> syncs_connect" where
  "syncs_write_float flags cid data = syncs_write (flags OR SYNCS_TYPE_VAR_FLOAT) cid (Some (mem_of (le_bytes 4 data))) 0"

definition syncs_write_double :: "u32 \<Rightarrow> byte list \<Rightarrow> u64 \<Rightarrow> syncs_connect \<Rightarrow> int \<times> syncs_connect" where
  "syncs_write_double flags cid data = syncs_write (flags OR SYNCS_TYPE_VAR_DOUBLE) cid (Some (mem_of (le_bytes 8 data))) 0"

definition syncs_write_str :: "u32 \<Rightarrow> byte list \<Rightarrow> byte list \<Rightarrow> syncs_connect \<Rightarrow> int \<times> syncs_connect" where
  "syncs_write_str flags cid data =
     syncs_write (flags OR SYNCS_TYPE_VAR_STRING) cid (Some (mem_of (c_str data @ [0]))) (of_nat (length (c_str data) + 1))"

definition syncs_write_event :: "u32 \<Rightarrow> byte list \<Rightarrow> syncs_connect \<Rightarrow> int \<times> syncs_connect" where
  "syncs_write_event flags cid = syncs_write (flags OR SYNCS_TYPE_VAR_EMPTY) cid None 0"

section \<open>Reading\<close>

text \<open>
  The result of a read: the return value, the bytes stored at \<open>data\<close>, the new \<open>*data_size\<close> and the state.
\<close>

definition syncs_read ::
    "(syncs_connect \<Rightarrow> syncs_connect) \<Rightarrow> u32 \<Rightarrow> byte list \<Rightarrow> u32 \<Rightarrow> syncs_connect \<Rightarrow> int \<times> byte list \<times> u32 \<times> syncs_connect" where
  "syncs_read during flags cid data_size s =
     (if cn_socketfd s < 0 then (- EBADFD, [], data_size, s)
      else
        (let s = s\<lparr>cn_read_wait := True\<rparr>;
             header = syncs_fill_header_request_str cid (SYNCS_TYPE_READ OR (flags AND SYNCS_TYPE_VAR_MASK))
                        (p_header (os_stack (cn_os s)));
             s = s\<lparr>cn_read_id := syncs_idcpy (cn_read_id s) (h_id header)\<rparr>;
             s = snd (syncs_connect_send (header_bytes header) s);
             s = during s
         in if cn_read_wait s then (- ETIMEDOUT, [], data_size, s)
            else
              (let data_size = (if unat data_size > cn_read_size s then of_nat (cn_read_size s) else data_size)
               in (0, mem_read (cn_read_data s) 0 (unat data_size), data_size, s))))"

definition syncs_read_int32 ::
    "(syncs_connect \<Rightarrow> syncs_connect) \<Rightarrow> u32 \<Rightarrow> byte list \<Rightarrow> syncs_connect \<Rightarrow> int \<times> byte list \<times> u32 \<times> syncs_connect" where
  "syncs_read_int32 during flags cid = syncs_read during (flags OR SYNCS_TYPE_VAR_INT32) cid (syncs_get_size_by_type SYNCS_TYPE_VAR_INT32)"

definition syncs_read_int64 ::
    "(syncs_connect \<Rightarrow> syncs_connect) \<Rightarrow> u32 \<Rightarrow> byte list \<Rightarrow> syncs_connect \<Rightarrow> int \<times> byte list \<times> u32 \<times> syncs_connect" where
  "syncs_read_int64 during flags cid = syncs_read during (flags OR SYNCS_TYPE_VAR_INT64) cid (syncs_get_size_by_type SYNCS_TYPE_VAR_INT64)"

definition syncs_read_float ::
    "(syncs_connect \<Rightarrow> syncs_connect) \<Rightarrow> u32 \<Rightarrow> byte list \<Rightarrow> syncs_connect \<Rightarrow> int \<times> byte list \<times> u32 \<times> syncs_connect" where
  "syncs_read_float during flags cid = syncs_read during (flags OR SYNCS_TYPE_VAR_FLOAT) cid (syncs_get_size_by_type SYNCS_TYPE_VAR_FLOAT)"

definition syncs_read_double ::
    "(syncs_connect \<Rightarrow> syncs_connect) \<Rightarrow> u32 \<Rightarrow> byte list \<Rightarrow> syncs_connect \<Rightarrow> int \<times> byte list \<times> u32 \<times> syncs_connect" where
  "syncs_read_double during flags cid = syncs_read during (flags OR SYNCS_TYPE_VAR_DOUBLE) cid (syncs_get_size_by_type SYNCS_TYPE_VAR_DOUBLE)"

definition syncs_read_str ::
    "(syncs_connect \<Rightarrow> syncs_connect) \<Rightarrow> u32 \<Rightarrow> byte list \<Rightarrow> u32 \<Rightarrow> syncs_connect \<Rightarrow> int \<times> byte list \<times> u32 \<times> syncs_connect" where
  "syncs_read_str during flags cid sz = syncs_read during (flags OR SYNCS_TYPE_VAR_STRING) cid sz"

section \<open>Requests without an answer\<close>

definition syncs_client_send_channel_anons :: "syncsid \<Rightarrow> syncs_channel_ticket \<Rightarrow> syncs_connect \<Rightarrow> syncs_connect" where
  "syncs_client_send_channel_anons x ticket s =
     (let packet = os_stack (cn_os s);
          packet = packet\<lparr>p_header := (syncs_fill_header x (SYNCS_TYPE_CHANNEL OR SYNCS_CHANNEL_ANONS) (p_header packet))\<lparr>h_data_size := 10\<rparr>,
                          p_buffer := mem_put 0 (ticket_bytes ticket) (p_buffer packet)\<rparr>
      in snd (syncs_connect_send (packet_bytes packet (sizeof_syncs_header + sizeof_syncs_channel_ticket)) s))"

definition syncs_define :: "byte list \<Rightarrow> u32 \<Rightarrow> syncs_connect \<Rightarrow> syncs_connect" where
  "syncs_define cid flags =
     send_header (syncs_fill_header_request_str cid (SYNCS_TYPE_DEFINE OR (flags AND (SYNCS_TYPE_VAR_MASK OR SYNCS_TYPE_FLAGS_MASK))))"

definition syncs_undefine :: "byte list \<Rightarrow> syncs_connect \<Rightarrow> syncs_connect" where
  "syncs_undefine cid = send_header (syncs_fill_header_request_str cid SYNCS_TYPE_DEFINE)"

definition syncs_client_send_subscribe :: "syncsid \<Rightarrow> u32 \<Rightarrow> u64 \<Rightarrow> syncs_connect \<Rightarrow> syncs_connect" where
  "syncs_client_send_subscribe x flags update_counter =
     send_header (\<lambda>p. (syncs_fill_header_request_id x
       (SYNCS_TYPE_SUBSCRIBE OR (flags AND (SYNCS_TYPE_VAR_MASK OR SYNCS_TYPE_FLAGS_MASK))) p)\<lparr>h_update_counter := update_counter\<rparr>)"

definition syncs_client_send_unsubscribe :: "syncsid \<Rightarrow> u32 \<Rightarrow> syncs_connect \<Rightarrow> syncs_connect" where
  "syncs_client_send_unsubscribe x flags =
     send_header (syncs_fill_header_request_id x
       (SYNCS_TYPE_UNSUBSCRIBE OR (flags AND (SYNCS_TYPE_VAR_MASK OR SYNCS_TYPE_FLAGS_MASK))))"

definition syncs_client_send_id :: "syncsid \<Rightarrow> syncs_connect \<Rightarrow> syncs_connect" where
  "syncs_client_send_id x =
     send_header (\<lambda>p. (syncs_fill_header_request_id x SYNCS_TYPE_CLIENT_ID p)
       \<lparr>h_sync := \<lparr>data0 = SYNCS_VERSION_MAJOR, data1 = SYNCS_VERSION_MINOR\<rparr>\<rparr>)"

definition syncs_send_id :: "syncs_connect \<Rightarrow> syncs_connect" where
  "syncs_send_id s =
     (let s = syncs_client_send_id (cn_id s) s;
          s = fold (\<lambda>i s. let e = cn_events s i in
                 if id_i0 (ce_id e) \<noteq> -1 then syncs_client_send_subscribe (ce_id e) (ce_flags e) (ce_update_counter e) s else s)
              [0..<SYNCS_EVENT_MAXIMUM] s
      in fold (\<lambda>i s. let ch = cn_channels s i in
             if id_i0 (cc_id ch) \<noteq> -1 then syncs_client_send_channel_anons (cc_id ch) (cc_ticket ch) s else s)
           [0..<SYNCS_CHANNEL_MAXIMUM] s)"

section \<open>Subscriptions\<close>

text \<open>The common end of the three subscribing functions.\<close>

definition register_event :: "nat \<Rightarrow> u32 \<Rightarrow> byte list \<Rightarrow> syncs_connect \<Rightarrow> int \<times> syncs_connect" where
  "register_event i flags cid s =
     (let s = upd_ce i (\<lambda>e. e\<lparr>ce_flags := flags, ce_id := syncs_idstr cid\<rparr>) s
      in (0, if cn_socketfd s \<ge> 0
             then syncs_client_send_subscribe (ce_id (cn_events s i)) flags (ce_update_counter (cn_events s i)) s else s))"

definition syncs_subscribe_event ::
    "u32 \<Rightarrow> byte list \<Rightarrow> nat option \<Rightarrow> nat \<Rightarrow> syncs_connect \<Rightarrow> int \<times> syncs_connect" where
  "syncs_subscribe_event flags cid cb args s =
     (case syncs_get_event_str s cid of
        None \<Rightarrow> (- ENOMEM, s)
      | Some i \<Rightarrow> register_event i flags cid (upd_ce i (\<lambda>e. e\<lparr>ce_cb := cb, ce_args := args\<rparr>) s))"

definition syncs_subscribe_event_sync_user ::
    "u32 \<Rightarrow> byte list \<Rightarrow> mem option \<Rightarrow> u32 \<Rightarrow> syncs_connect \<Rightarrow> int \<times> syncs_connect" where
  "syncs_subscribe_event_sync_user flags cid user_data user_data_size s =
     (case syncs_get_event_str s cid of
        None \<Rightarrow> (- ENOMEM, s)
      | Some i \<Rightarrow>
          register_event i flags cid (upd_ce i (\<lambda>e. e\<lparr>ce_data := user_data, ce_data_user_size := user_data_size\<rparr>) s))"

text \<open>\<open>event_data\<close> is what \<open>malloc\<close> returns; the code looks at \<open>event\<close> again instead of at it.\<close>

definition syncs_subscribe_event_sync :: "mem option \<Rightarrow> u32 \<Rightarrow> byte list \<Rightarrow> syncs_connect \<Rightarrow> int \<times> syncs_connect" where
  "syncs_subscribe_event_sync event_data flags cid s =
     (case syncs_get_event_str s cid of
        None \<Rightarrow> (- ENOMEM, s)
      | Some i \<Rightarrow>
          register_event i flags cid
            (upd_ce i (\<lambda>e. e\<lparr>ce_data := event_data, ce_data_user_size := of_nat SYNCS_EVENT_DATA_SIZE_MAXIMUM\<rparr>) s))"

definition syncs_unsubscribe_event :: "byte list \<Rightarrow> syncs_connect \<Rightarrow> syncs_connect" where
  "syncs_unsubscribe_event cid s =
     (case syncs_find_event_conn s (syncs_idstr cid) of
        None \<Rightarrow> s
      | Some i \<Rightarrow>
          upd_ce i (\<lambda>e. e\<lparr>ce_id := (ce_id e)\<lparr>id_i0 := -1\<rparr>\<rparr>)
            (syncs_client_send_unsubscribe (ce_id (cn_events s i)) (ce_flags (cn_events s i)) s))"

end
