(* ===== verification/Client_Recv.thy ===== *)
theory Client_Recv
  imports Client_State
begin

unbundle bit_operations_syntax

text \<open>
  What a client does with what it receives: events to callbacks and buffers, answers to the waiting functions, the
  pages of lists, the status of the server; the two receive loops; the functions that wait for an answer;
  creating a client.

  \<open>call\<close> runs the application's callback, \<open>inet_addr\<close> is the C library's. A plain \<open>char\<close> is signed, as on the
  hosts the library is built for.
\<close>

type_synonym client_callback = "nat \<Rightarrow> nat \<Rightarrow> syncsid \<Rightarrow> byte list \<Rightarrow> syncs_connect \<Rightarrow> syncs_connect"

section \<open>One packet\<close>

definition syncs_process_event :: "client_callback \<Rightarrow> syncs_packet \<Rightarrow> syncs_connect \<Rightarrow> syncs_connect" where
  "syncs_process_event call packet s =
     (let x = h_id (p_header packet);
          data_size = h_data_size (p_header packet);
          data = mem_read (p_buffer packet) 0 (unat data_size)
      in case syncs_find_event_conn s x of
           None \<Rightarrow> s
         | Some i \<Rightarrow>
             (let s = (case ce_cb (cn_events s i) of
                         None \<Rightarrow> s
                       | Some cb \<Rightarrow> call cb (ce_args (cn_events s i)) (ce_id (cn_events s i)) data s);
                  s = (case ce_data (cn_events s i) of
                         None \<Rightarrow> s
                       | Some m \<Rightarrow>
                           (let s = cn_fault (unat data_size > unat (ce_data_user_size (cn_events s i))) s;
                                s = upd_ce i (\<lambda>e. e\<lparr>ce_data := Some (mem_put 0 data m), ce_data_size := ucast data_size\<rparr>) s
                            in s\<lparr>cn_events_queue := Some i, cn_event_wait := False\<rparr>))
              in upd_ce i (\<lambda>e. e\<lparr>ce_update_counter := h_update_counter (p_header packet)\<rparr>) s))"

definition syncs_channel_process_packet :: "syncs_packet \<Rightarrow> syncs_connect \<Rightarrow> syncs_connect" where
  "syncs_channel_process_packet packet s =
     (if h_type (p_header packet) AND SYNCS_TYPE_CHANNEL_MASK = SYNCS_CHANNEL_TICKET then
        (if cn_ticket_wait s \<and> syncs_idcmp (h_id (p_header packet)) (cn_ticket_id s)
         then s\<lparr>cn_ticket_data := ticket_of_bytes (mem_read (p_buffer packet) 0 sizeof_syncs_channel_ticket), cn_ticket_wait := False\<rparr>
         else s)
      else s)"

definition syncs_process_error :: "syncs_packet \<Rightarrow> syncs_connect \<Rightarrow> syncs_connect" where
  "syncs_process_error packet s =
     (let code = h_update_counter (p_header packet)
      in if code = SYNCS_ERROR_NOTSUPPORT then s\<lparr>cn_onexit := True\<rparr>
         else if code = SYNCS_ERROR_CRYPT then s\<lparr>cn_onexit := True\<rparr>
         else if code = SYNCS_ERROR_UNKNOWNCLIENT then syncs_send_id s
         else s)"

text \<open>
  A page of a list with entries of \<open>esz\<close> bytes for an array of \<open>cap\<close> entries: the new state of the list and
  whether the copy leaves the array.
\<close>

definition process_list_page :: "nat \<Rightarrow> nat \<Rightarrow> syncs_packet \<Rightarrow> list_state \<Rightarrow> list_state \<times> bool" where
  "process_list_page esz cap packet l =
     (let header = p_header packet;
          n = unat (h_data_size header)
      in case l_info l of
           None \<Rightarrow> (l, False)
         | Some m \<Rightarrow>
             if id_c (h_id header) 3 \<noteq> l_sequence l then (l, False)
             else if id_c (h_id header) 0 \<noteq> l_wait_packet l then (l, False)
             else
               (l\<lparr>l_info := Some (mem_put (nat (l_recv l) * esz) (mem_read (p_buffer packet) 0 n) m),
                  l_recv := l_recv l + sint (id_c (h_id header) 2),
                  l_wait_packet := l_wait_packet l + 1,
                  l_wait := (if id_c (h_id header) 4 = 1 then False else l_wait l)\<rparr>,
                l_recv l < 0 \<or> nat (l_recv l) * esz + n > cap * esz))"

definition syncs_process_packet :: "client_callback \<Rightarrow> syncs_packet \<Rightarrow> syncs_connect \<Rightarrow> syncs_connect" where
  "syncs_process_packet call packet s =
     (let header = p_header packet;
          msg = h_type header AND SYNCS_TYPE_MSG_MASK
      in if msg = SYNCS_TYPE_EVENT then syncs_process_event call packet s
         else if msg = SYNCS_TYPE_CHANNEL then syncs_channel_process_packet packet s
         else if msg = SYNCS_TYPE_SERVER_STATUS then
           syncs_process_error packet (s\<lparr>cn_server_id := syncs_idcpy (cn_server_id s) (h_id header)\<rparr>)
         else if msg = SYNCS_TYPE_READ then
           (if cn_read_wait s \<and> syncs_idcmp (h_id header) (cn_read_id s)
            then (cn_fault (unat (h_data_size header) > SYNCS_VARIABLE_SIZE_MAXIMUM) s)
              \<lparr>cn_read_size := unat (h_data_size header),
               cn_read_data := mem_copy 0 (p_buffer packet) (unat (h_data_size header)) (cn_read_data s),
               cn_read_wait := False\<rparr>
            else s)
         else if msg = SYNCS_TYPE_EVENT_LIST then
           (let (l, bad) = process_list_page 90 SYNCS_EVENT_MAXIMUM packet (cn_eventlist s)
            in (cn_fault bad s)\<lparr>cn_eventlist := l\<rparr>)
         else if msg = SYNCS_TYPE_CLIENT_LIST then
           (let (l, bad) = process_list_page 52 SYNCS_CLIENT_MAXIMUM packet (cn_clientlist s)
            in (cn_fault bad s)\<lparr>cn_clientlist := l\<rparr>)
         else if msg = SYNCS_TYPE_CHANNEL_LIST then
           (let (l, bad) = process_list_page 46 SYNCS_CHANNEL_MAXIMUM packet (cn_channellist s)
            in (cn_fault bad s)\<lparr>cn_channellist := l\<rparr>)
         else s)"

text \<open>
  \<open>syncs_wait_sync\<close>, called before an event that carries a time is processed, over the readings of the realtime clock:
  the intervals passed to \<open>nanosleep\<close>, and the reading at which the function returns. It returns when the time has
  come, or lies more than a second ahead; \<open>None\<close> is a wait that goes on after the last reading.
\<close>

fun syncs_wait_sync :: "syncdata \<Rightarrow> (int \<times> int) list \<Rightarrow> (int \<times> int) list \<times> (int \<times> int) option" where
  "syncs_wait_sync sync [] = ([], None)"
| "syncs_wait_sync sync (system_time # clock) =
     (let tv_sec = uint (data0 sync) - fst system_time;
          tv_nsec = uint (data1 sync) - snd system_time
      in if tv_sec < 0 \<or> (tv_sec = 0 \<and> tv_nsec < 0) \<or> tv_sec > 1 then ([], Some system_time)
         else
           (let (tv_sec, tv_nsec) = (if tv_nsec < 0 then (tv_sec - 1, tv_nsec + 1000000000) else (tv_sec, tv_nsec));
                (sleeps, at) = syncs_wait_sync sync clock
            in (if tv_sec > 0 \<or> tv_nsec > 1000000 then (tv_sec, tv_nsec) # sleeps else sleeps, at)))"

section \<open>The receive loops\<close>

definition cn_header :: "nat \<Rightarrow> syncs_connect \<Rightarrow> syncs_header" where
  "cn_header head s = header_of_bytes (mem_read (cn_buffer s) head sizeof_syncs_header)"

definition cn_mask_size :: "nat \<Rightarrow> syncs_connect \<Rightarrow> syncs_connect" where
  "cn_mask_size head s =
     s\<lparr>cn_buffer := mem_put (head + 57) (le_bytes 2 (h_data_size (cn_header head s) AND 0x1ff)) (cn_buffer s)\<rparr>"

function cn_rx_loop :: "client_callback \<Rightarrow> nat \<Rightarrow> nat \<Rightarrow> syncs_connect \<Rightarrow> nat \<times> syncs_connect" where
  "cn_rx_loop call recv head s =
     (if recv < head + sizeof_syncs_header then (head, s)
      else if h_magic (cn_header head s) \<noteq> SYNCS_PACKET_MAGIC then cn_rx_loop call recv (head + 1) s
      else if h_magic_data (cn_header head s) \<noteq> SYNCS_PACKET_MAGIC_DATA then cn_rx_loop call recv (head + 1) s
      else
        (let s = cn_mask_size head s
         in if recv - head < sizeof_syncs_header + unat (h_data_size (cn_header head s)) then (head, s)
            else
              (let s = syncs_process_packet call (packet_at (cn_buffer s) head) s
               in cn_rx_loop call recv (head + sizeof_syncs_header + unat (h_data_size (cn_header head s))) s)))"
  by pat_completeness auto
termination
  by (relation "measure (\<lambda>(call, recv, head, s). recv - head)") auto

declare cn_rx_loop.simps [simp del]

text \<open>
  What \<open>recv\<close> or \<open>recvfrom\<close> gives the client: an error, with whether it is EAGAIN or EINTR, or bytes. A round
  of \<open>syncs_recv\<close> takes and returns the number of bytes kept in the buffer, and tells whether the loop goes on.
\<close>

datatype client_recv = Client_recv_error bool | Client_recv "byte list"

definition syncs_recv_round :: "client_callback \<Rightarrow> client_recv \<Rightarrow> nat \<Rightarrow> syncs_connect \<Rightarrow> bool \<times> nat \<times> syncs_connect" where
  "syncs_recv_round call r recv s =
     (case r of
        Client_recv_error again \<Rightarrow> (again, recv, s)
      | Client_recv bytes \<Rightarrow>
          (let bytes = take (SYNCS_CLIENT_BUFFER_SIZE - recv) bytes;
               s = cn_fault (recv + length bytes > SYNCS_CLIENT_BUFFER_SIZE) s;
               s = s\<lparr>cn_buffer := mem_put recv bytes (cn_buffer s)\<rparr>
           in if length bytes < sizeof_syncs_header then (length bytes \<noteq> 0, recv, s)
              else
                (let recv = recv + length bytes;
                     (head, s) = cn_rx_loop call recv 0 s
                 in if head < recv
                    then (True, recv - head,
                          if head \<noteq> 0 then s\<lparr>cn_buffer := mem_put 0 (mem_read (cn_buffer s) head (recv - head)) (cn_buffer s)\<rparr> else s)
                    else (True, 0, s))))"

text \<open>
  What both receive loops do first. The TCP loop also starts \<open>syncs_connect_cb_thread\<close>, which runs the callback of the
  application and then clears \<open>connect_cb_status\<close>, unless it is still running.
\<close>

definition syncs_recv_start :: "syncs_connect \<Rightarrow> syncs_connect" where
  "syncs_recv_start s =
     (let s = syncs_send_id s;
          s = (if cn_connect_cb s \<noteq> None \<and> cn_connect_cb_status s = 0 then s\<lparr>cn_connect_cb_status := 1\<rparr> else s)
      in s\<lparr>cn_connect_wait := False, cn_ready := True\<rparr>)"

definition syncs_connect_cb_thread :: "(nat \<Rightarrow> nat \<Rightarrow> syncs_connect \<Rightarrow> syncs_connect) \<Rightarrow> syncs_connect \<Rightarrow> syncs_connect" where
  "syncs_connect_cb_thread call s =
     (case cn_connect_cb s of
        None \<Rightarrow> cn_fault True s
      | Some cb \<Rightarrow> (call cb (cn_connect_arg s) s)\<lparr>cn_connect_cb_status := 0\<rparr>)"

definition syncs_udprecv_start :: "syncs_connect \<Rightarrow> syncs_connect" where
  "syncs_udprecv_start s = (syncs_send_id s)\<lparr>cn_connect_wait := False, cn_ready := True\<rparr>"

fun syncs_recv_rounds :: "client_callback \<Rightarrow> client_recv list \<Rightarrow> nat \<Rightarrow> syncs_connect \<Rightarrow> syncs_connect" where
  "syncs_recv_rounds call [] recv s = s"
| "syncs_recv_rounds call (r # rs) recv s =
     (if cn_onexit s then s\<lparr>cn_ready := False\<rparr>
      else (let (go, recv, s) = syncs_recv_round call r recv s
            in if go then syncs_recv_rounds call rs recv s else s\<lparr>cn_ready := False\<rparr>))"

text \<open>\<open>syncs_recv\<close> over a given sequence of \<open>recv\<close> results.\<close>

definition syncs_recv :: "client_callback \<Rightarrow> client_recv list \<Rightarrow> syncs_connect \<Rightarrow> syncs_connect" where
  "syncs_recv call rs s = syncs_recv_rounds call rs 0 (syncs_recv_start s)"

definition syncs_udprecv_round :: "client_callback \<Rightarrow> client_recv \<Rightarrow> syncs_connect \<Rightarrow> bool \<times> syncs_connect" where
  "syncs_udprecv_round call r s =
     (case r of
        Client_recv_error again \<Rightarrow> (again, s)
      | Client_recv bytes \<Rightarrow>
          (let bytes = take SYNCS_CLIENT_BUFFER_SIZE bytes;
               s = s\<lparr>cn_buffer := mem_put 0 bytes (cn_buffer s)\<rparr>
           in if length bytes < sizeof_syncs_header then (length bytes \<noteq> 0, s)
              else if h_magic (cn_header 0 s) \<noteq> SYNCS_PACKET_MAGIC then (True, s)
              else if h_magic_data (cn_header 0 s) \<noteq> SYNCS_PACKET_MAGIC_DATA then (True, s)
              else (let s = cn_mask_size 0 s in (True, syncs_process_packet call (packet_at (cn_buffer s) 0) s))))"

text \<open>\<open>syncs_udprecv\<close>, like \<open>syncs_recv\<close> over a given sequence of results.\<close>

fun syncs_udprecv_rounds :: "client_callback \<Rightarrow> client_recv list \<Rightarrow> syncs_connect \<Rightarrow> syncs_connect" where
  "syncs_udprecv_rounds call [] s = s"
| "syncs_udprecv_rounds call (r # rs) s =
     (if cn_onexit s then s\<lparr>cn_ready := False\<rparr>
      else (let (go, s) = syncs_udprecv_round call r s
            in if go then syncs_udprecv_rounds call rs s else s\<lparr>cn_ready := False\<rparr>))"

definition syncs_udprecv :: "client_callback \<Rightarrow> client_recv list \<Rightarrow> syncs_connect \<Rightarrow> syncs_connect" where
  "syncs_udprecv call rs s = syncs_udprecv_rounds call rs (syncs_udprecv_start s)"

section \<open>Functions that wait\<close>

text \<open>
  The name and the data of the event that ended the wait, \<open>None\<close> for NULL: the id, the flags, the bytes
  copied and the new \<open>*data_size\<close>.
\<close>

definition take_event :: "nat \<Rightarrow> u32 \<Rightarrow> syncs_connect \<Rightarrow> (syncsid \<times> u32 \<times> byte list \<times> u32) option \<times> syncs_connect" where
  "take_event i data_size s =
     (let event = cn_events s i;
          data_size = (if data_size > ce_data_size event then ce_data_size event else data_size);
          data = (case ce_data event of Some m \<Rightarrow> mem_read m 0 (unat data_size) | None \<Rightarrow> [])
      in (Some (ce_id event, ce_flags event, data, data_size),
          (cn_fault (ce_data event = None \<and> data_size \<noteq> 0) s)\<lparr>cn_events_queue := None, cn_event_wait := True\<rparr>))"

definition syncs_wait_event ::
    "(syncs_connect \<Rightarrow> syncs_connect) \<Rightarrow> u32 \<Rightarrow> syncs_connect \<Rightarrow> (syncsid \<times> u32 \<times> byte list \<times> u32) option \<times> syncs_connect" where
  "syncs_wait_event during data_size s =
     (case cn_events_queue s of
        Some i \<Rightarrow> take_event i data_size s
      | None \<Rightarrow>
          (let s = during s
           in if cn_event_wait s then (None, s)
              else (case cn_events_queue s of None \<Rightarrow> (None, s) | Some i \<Rightarrow> take_event i data_size s)))"

text \<open>
  The three list requests. \<open>get\<close> and \<open>upd\<close> select the list, \<open>alloc\<close> is what \<open>calloc\<close> returns. The result is the
  array with the number of entries, or \<open>None\<close> for NULL.
\<close>

definition request_list ::
    "(syncs_connect \<Rightarrow> list_state) \<Rightarrow> ((list_state \<Rightarrow> list_state) \<Rightarrow> syncs_connect \<Rightarrow> syncs_connect) \<Rightarrow> u32 \<Rightarrow>
     mem option \<Rightarrow> (syncs_connect \<Rightarrow> syncs_connect) \<Rightarrow> syncs_connect \<Rightarrow> (mem \<times> int) option \<times> syncs_connect" where
  "request_list get upd type alloc during s =
     (let s = (if l_info (get s) = None then upd (\<lambda>l. l\<lparr>l_info := alloc\<rparr>) s else s)
      in if l_info (get s) = None then (None, s)
         else if cn_socketfd s < 0 then (None, s)
         else
           (let s = upd (\<lambda>l. l\<lparr>l_sequence := l_sequence l + 1\<rparr>) s;
                packet = p_header (os_stack (cn_os s));
                packet = syncs_fill_basic_header_request type (packet\<lparr>h_id := id_set_c 0 (l_sequence (get s)) (h_id packet)\<rparr>);
                s = upd (\<lambda>l. l\<lparr>l_recv := 0, l_wait_packet := 0, l_wait := True\<rparr>) s;
                s = snd (syncs_connect_send (header_bytes packet) s);
                s = during s
            in if l_wait (get s) then (None, s)
               else (map_option (\<lambda>m. (m, l_recv (get s))) (l_info (get s)), s)))"

definition syncs_request_clientslist ::
    "mem option \<Rightarrow> (syncs_connect \<Rightarrow> syncs_connect) \<Rightarrow> syncs_connect \<Rightarrow> (mem \<times> int) option \<times> syncs_connect" where
  "syncs_request_clientslist = request_list cn_clientlist cn_clientlist_update SYNCS_TYPE_CLIENT_LIST"

definition syncs_request_eventslist ::
    "mem option \<Rightarrow> (syncs_connect \<Rightarrow> syncs_connect) \<Rightarrow> syncs_connect \<Rightarrow> (mem \<times> int) option \<times> syncs_connect" where
  "syncs_request_eventslist = request_list cn_eventlist cn_eventlist_update SYNCS_TYPE_EVENT_LIST"

text \<open>\<open>htonl (INADDR_LOOPBACK)\<close> as it lies in the packed structure.\<close>

abbreviation (input) LOOPBACK :: u32 where "LOOPBACK \<equiv> 0x0100007f"

definition resolve_loopback :: "(byte list \<Rightarrow> u32) \<Rightarrow> byte list \<Rightarrow> nat \<Rightarrow> mem \<Rightarrow> mem" where
  "resolve_loopback inet_addr addr i m =
     (if le_word (mem_read m (i * 46 + 40) 4) = LOOPBACK \<and> c_head addr \<noteq> 0
      then mem_put (i * 46 + 40) (le_bytes 4 (inet_addr addr)) m else m)"

definition syncs_request_channelslist ::
    "(byte list \<Rightarrow> u32) \<Rightarrow> mem option \<Rightarrow> (syncs_connect \<Rightarrow> syncs_connect) \<Rightarrow> syncs_connect \<Rightarrow> (mem \<times> int) option \<times> syncs_connect" where
  "syncs_request_channelslist inet_addr alloc during s =
     (case request_list cn_channellist cn_channellist_update SYNCS_TYPE_CHANNEL_LIST alloc during s of
        (None, s) \<Rightarrow> (None, s)
      | (Some (m, n), s) \<Rightarrow>
          (let m = fold (resolve_loopback inet_addr (cn_addr s)) [0..<nat n] m
           in (Some (m, n), cn_channellist_update (\<lambda>l. l\<lparr>l_info := Some m\<rparr>) s)))"

definition syncs_free_clientslist :: "syncs_connect \<Rightarrow> syncs_connect" where
  "syncs_free_clientslist = cn_clientlist_update (\<lambda>l. l\<lparr>l_info := None\<rparr>)"

definition syncs_free_eventslist :: "syncs_connect \<Rightarrow> syncs_connect" where
  "syncs_free_eventslist = cn_eventlist_update (\<lambda>l. l\<lparr>l_info := None\<rparr>)"

definition syncs_free_channelslist :: "syncs_connect \<Rightarrow> syncs_connect" where
  "syncs_free_channelslist = cn_channellist_update (\<lambda>l. l\<lparr>l_info := None\<rparr>)"

section \<open>Channels\<close>

text \<open>A full table makes \<open>syncs_find_free_channel\<close> return NULL, which the next line dereferences.\<close>

definition syncs_channel_anons :: "byte list \<Rightarrow> u32 \<Rightarrow> int \<Rightarrow> syncs_connect \<Rightarrow> int \<times> syncs_connect" where
  "syncs_channel_anons cid flags port s =
     (case syncs_find_free_channel s of
        None \<Rightarrow> (0, cn_fault True s)
      | Some i \<Rightarrow>
          (let s = upd_cc i (\<lambda>ch. ch\<lparr>cc_ticket := \<lparr>t_ip = 0, t_port = of_int port, t_flags = flags\<rparr>, cc_id := syncs_idstr cid\<rparr>) s
           in (0, if cn_socketfd s \<ge> 0
                  then syncs_client_send_channel_anons (cc_id (cn_channels s i)) (cc_ticket (cn_channels s i)) s else s)))"

text \<open>The result: the return value, the ticket stored at \<open>ticket\<close> if any, the state.\<close>

definition syncs_channel_request ::
    "(byte list \<Rightarrow> u32) \<Rightarrow> (syncs_connect \<Rightarrow> syncs_connect) \<Rightarrow> byte list \<Rightarrow> syncs_connect \<Rightarrow>
     int \<times> syncs_channel_ticket option \<times> syncs_connect" where
  "syncs_channel_request inet_addr during cid s =
     (if cn_socketfd s < 0 then (- EBADFD, None, s)
      else
        (let header = syncs_fill_header_request_str cid (SYNCS_TYPE_CHANNEL OR SYNCS_CHANNEL_REQUEST) (p_header (os_stack (cn_os s)));
             s = s\<lparr>cn_ticket_id := h_id header\<rparr>;
             s = snd (syncs_connect_send (header_bytes header) s);
             s = (if cn_ticket_wait s then during s else s)
         in if cn_ticket_wait s then (- ETIMEDOUT, None, s)
            else
              (let ticket = cn_ticket_data s
               in (0, Some (if t_ip ticket = LOOPBACK then ticket\<lparr>t_ip := inet_addr (cn_addr s)\<rparr> else ticket), s))))"

section \<open>Creating and asking a client\<close>

definition zero_list :: list_state where
  "zero_list = \<lparr>l_info = None, l_sequence = 0, l_wait_packet = 0, l_recv = 0, l_wait = False\<rparr>"

definition calloc_connect :: "os \<Rightarrow> syncs_connect" where
  "calloc_connect w =
     (let x = \<lparr>id_i0 = 0, id_i1 = 0, id_i2 = 0, id_i3 = 0\<rparr>; ticket = \<lparr>t_ip = 0, t_port = 0, t_flags = 0\<rparr>
      in \<lparr>cn_id = x, cn_server_id = x, cn_addr = replicate 20 0, cn_port = 0, cn_socketfd = 0, cn_usocketfd = 0,
          cn_buffer = (\<lambda>_. 0), cn_read_data = (\<lambda>_. 0), cn_onexit = False, cn_ready = False, cn_connect_wait = False,
          cn_read_size = 0, cn_read_id = x, cn_read_wait = False, cn_saddr = \<lparr>sin_addr = 0, sin_port = 0\<rparr>, cn_event_wait = False,
          cn_ticket_data = ticket, cn_ticket_id = x, cn_ticket_wait = False,
          cn_events = (\<lambda>_. \<lparr>ce_id = x, ce_cb = None, ce_args = 0, ce_update_counter = 0, ce_flags = 0, ce_data = None,
                            ce_data_size = 0, ce_data_user_size = 0\<rparr>),
          cn_events_queue = None, cn_channels = (\<lambda>_. \<lparr>cc_id = x, cc_ticket = ticket\<rparr>),
          cn_eventlist = zero_list, cn_clientlist = zero_list, cn_channellist = zero_list, cn_connect_cb = None,
          cn_connect_arg = 0, cn_connect_cb_status = 0, cn_os = w\<rparr>)"

definition syncs_connect_structure_init :: "syncs_connect \<Rightarrow> syncs_connect" where
  "syncs_connect_structure_init s =
     (let s = s\<lparr>cn_socketfd := -1, cn_usocketfd := -1, cn_connect_cb := None, cn_connect_arg := 0, cn_onexit := False, cn_port := 0,
                cn_addr := (cn_addr s)[0 := 0], cn_connect_wait := True, cn_event_wait := True\<rparr>;
          s = fold (\<lambda>i. upd_ce i (\<lambda>e. e\<lparr>ce_id := (ce_id e)\<lparr>id_i0 := -1\<rparr>, ce_data := None\<rparr>)) [0..<SYNCS_EVENT_MAXIMUM] s
      in fold (\<lambda>i. upd_cc i (\<lambda>ch. ch\<lparr>cc_id := (cc_id ch)\<lparr>id_i0 := -1\<rparr>\<rparr>)) [0..<SYNCS_CHANNEL_MAXIMUM] s)"

text \<open>
  \<open>syncs_udpconnect\<close> and \<open>syncs_connect\<close> up to the start of their threads; the first argument tells whether \<open>calloc\<close>
  succeeds.
\<close>

definition syncs_udpconnect :: "bool \<Rightarrow> byte list option \<Rightarrow> int \<Rightarrow> byte list option \<Rightarrow> os \<Rightarrow> syncs_connect option" where
  "syncs_udpconnect allocated addr port cid w =
     (if \<not> allocated then None
      else
        (let s = syncs_connect_structure_init (calloc_connect w);
             s = (case addr of Some a \<Rightarrow> s\<lparr>cn_addr := take 20 (c_str a @ replicate 20 0), cn_port := port\<rparr> | None \<Rightarrow> s)
         in Some (case cid of Some n \<Rightarrow> s\<lparr>cn_id := syncs_idstr n\<rparr> | None \<Rightarrow> s)))"

definition syncs_connect_create ::
    "bool \<Rightarrow> byte list option \<Rightarrow> int \<Rightarrow> byte list option \<Rightarrow> nat option \<Rightarrow> nat \<Rightarrow> os \<Rightarrow> syncs_connect option" where
  "syncs_connect_create allocated addr port cid cb arg w =
     (if \<not> allocated then None
      else
        (let s = syncs_connect_structure_init (calloc_connect w);
             s = (case addr of Some a \<Rightarrow> s\<lparr>cn_addr := take 20 (c_str a @ replicate 20 0), cn_port := port\<rparr> | None \<Rightarrow> s);
             s = (case cid of Some n \<Rightarrow> s\<lparr>cn_id := syncs_idstr n\<rparr> | None \<Rightarrow> s)
         in Some (s\<lparr>cn_connect_cb := cb, cn_connect_arg := arg\<rparr>)))"

definition syncs_connect_simple :: "bool \<Rightarrow> byte list option \<Rightarrow> int \<Rightarrow> byte list option \<Rightarrow> os \<Rightarrow> syncs_connect option" where
  "syncs_connect_simple allocated addr port cid w = syncs_connect_create allocated addr port cid None 0 w"

definition syncs_event_data_release :: "syncs_connect \<Rightarrow> syncs_connect" where
  "syncs_event_data_release s =
     fold (\<lambda>i s. if ce_data (cn_events s i) \<noteq> None then upd_ce i (\<lambda>e. e\<lparr>ce_data := None\<rparr>) s else s) [0..<SYNCS_EVENT_MAXIMUM] s"

definition syncs_isconnect :: "syncs_connect option \<Rightarrow> int" where
  "syncs_isconnect s = (case s of None \<Rightarrow> 0 | Some c \<Rightarrow> if cn_ready c then 1 else 0)"

text \<open>The return value and the bytes stored at \<open>id\<close>.\<close>

definition syncs_connect_status :: "syncs_connect option \<Rightarrow> int \<times> byte list" where
  "syncs_connect_status s =
     (case s of None \<Rightarrow> (-1, []) | Some c \<Rightarrow> if cn_ready c then (0, syncs_stridcpy (cn_server_id c)) else (-1, []))"

end
