(* ===== verification/Client_Events.thy ===== *)
theory Client_Events
  imports Client_Recv
begin

unbundle bit_operations_syntax

text \<open>
  Events at the client: what a received event does to the subscription it belongs to, what the waiting
  application gets, and how the table of subscriptions is kept.

  The locale \<open>client_callbacks\<close> is what the library needs of an application's callbacks: they may send and
  compute, but leave the structures of the connection alone. It is interpreted for the callback of
  \<^verbatim>\<open>src/syncsctrl/syncsctrl.c\<close>.
\<close>

section \<open>Frame facts\<close>

lemma upd_ce_simps [simp]:
  "cn_events (upd_ce i f s) = (cn_events s)(i := f (cn_events s i))"
  "cn_os (upd_ce i f s) = cn_os s" "cn_buffer (upd_ce i f s) = cn_buffer s" "cn_channels (upd_ce i f s) = cn_channels s"
  "cn_socketfd (upd_ce i f s) = cn_socketfd s" "cn_usocketfd (upd_ce i f s) = cn_usocketfd s"
  "cn_events_queue (upd_ce i f s) = cn_events_queue s" "cn_event_wait (upd_ce i f s) = cn_event_wait s"
  "cn_ticket_data (upd_ce i f s) = cn_ticket_data s" "cn_ticket_wait (upd_ce i f s) = cn_ticket_wait s"
  by (simp_all add: upd_ce_def)

lemma cn_fault_simps [simp]:
  "cn_os (cn_fault b s) = fault_if b (cn_os s)" "cn_events (cn_fault b s) = cn_events s"
  "cn_buffer (cn_fault b s) = cn_buffer s" "cn_channels (cn_fault b s) = cn_channels s"
  "cn_socketfd (cn_fault b s) = cn_socketfd s" "cn_usocketfd (cn_fault b s) = cn_usocketfd s"
  "cn_events_queue (cn_fault b s) = cn_events_queue s" "cn_event_wait (cn_fault b s) = cn_event_wait s"
  "cn_ticket_data (cn_fault b s) = cn_ticket_data s" "cn_ticket_wait (cn_fault b s) = cn_ticket_wait s"
  "cn_saddr (cn_fault b s) = cn_saddr s"
  by (simp_all add: cn_fault_def)

lemma cn_fault_False [simp]: "cn_fault False s = s"
  by (simp add: cn_fault_def fault_if_def)

text \<open>Two states that differ in nothing but the operating system, and agree on whether a fault has happened.\<close>

definition only_io :: "syncs_connect \<Rightarrow> syncs_connect \<Rightarrow> bool" where
  "only_io s t \<longleftrightarrow> t = s\<lparr>cn_os := cn_os t\<rparr> \<and> os_fault (cn_os t) = os_fault (cn_os s) \<and> os_stack (cn_os t) = os_stack (cn_os s)"

lemma only_io_refl [simp]: "only_io s s"
  by (simp add: only_io_def)

lemma only_io_trans: "only_io s t \<Longrightarrow> only_io t u \<Longrightarrow> only_io s u"
proof -
  assume st: "only_io s t" and tu: "only_io t u"
  have "u = t\<lparr>cn_os := cn_os u\<rparr>" using tu by (simp add: only_io_def)
  also have "\<dots> = s\<lparr>cn_os := cn_os t\<rparr>\<lparr>cn_os := cn_os u\<rparr>" using st by (simp add: only_io_def)
  finally show ?thesis using st tu by (simp add: only_io_def)
qed

lemma only_ioD:
  assumes "only_io s t"
  shows "cn_events t = cn_events s" "cn_buffer t = cn_buffer s" "cn_channels t = cn_channels s"
    "cn_socketfd t = cn_socketfd s" "cn_usocketfd t = cn_usocketfd s" "cn_events_queue t = cn_events_queue s"
    "cn_event_wait t = cn_event_wait s" "cn_ticket_data t = cn_ticket_data s" "cn_ticket_wait t = cn_ticket_wait s"
    "os_fault (cn_os t) = os_fault (cn_os s)" "os_stack (cn_os t) = os_stack (cn_os s)" "cn_id t = cn_id s"
    "cn_read_wait t = cn_read_wait s" "cn_read_id t = cn_read_id s"
    "cn_eventlist t = cn_eventlist s" "cn_clientlist t = cn_clientlist s" "cn_channellist t = cn_channellist s"
proof -
  from assms obtain w where t: "t = s\<lparr>cn_os := w\<rparr>" by (auto simp: only_io_def)
  show "cn_events t = cn_events s" "cn_buffer t = cn_buffer s" "cn_channels t = cn_channels s"
    "cn_socketfd t = cn_socketfd s" "cn_usocketfd t = cn_usocketfd s" "cn_events_queue t = cn_events_queue s"
    "cn_event_wait t = cn_event_wait s" "cn_ticket_data t = cn_ticket_data s" "cn_ticket_wait t = cn_ticket_wait s"
    "cn_id t = cn_id s" "cn_read_wait t = cn_read_wait s" "cn_read_id t = cn_read_id s"
    "cn_eventlist t = cn_eventlist s" "cn_clientlist t = cn_clientlist s" "cn_channellist t = cn_channellist s"
    by (simp_all add: t)
qed (use assms in \<open>simp_all add: only_io_def\<close>)

lemma connect_send_io: "only_io s (snd (syncs_connect_send b s))"
  by (auto simp: syncs_connect_send_def syncs_blocking_send_def syncs_udp_send_def only_io_def Let_def split: prod.splits)

lemma send_header_io: "only_io s (send_header fill s)"
  by (simp add: send_header_def connect_send_io)

lemma only_io_fold:
  assumes "\<And>x s. only_io s (f x s)"
  shows "only_io s (fold f xs s)"
proof (induction xs arbitrary: s)
  case (Cons x xs)
  then show ?case using only_io_trans [OF assms [of s x]] by simp
qed simp

lemma requests_io:
  "only_io s (syncs_client_send_subscribe x flags u s)" "only_io s (syncs_client_send_unsubscribe x flags s)"
  "only_io s (syncs_client_send_id x s)" "only_io s (syncs_client_send_channel_anons x ticket s)"
  "only_io s (syncs_define cid flags s)" "only_io s (syncs_undefine cid s)"
  by (simp_all add: syncs_client_send_subscribe_def syncs_client_send_unsubscribe_def syncs_client_send_id_def
      syncs_client_send_channel_anons_def syncs_define_def syncs_undefine_def send_header_io connect_send_io Let_def)

lemma send_id_io: "only_io s (syncs_send_id s)"
  unfolding syncs_send_id_def Let_def
  by (rule only_io_trans [OF only_io_trans [OF requests_io(3) only_io_fold] only_io_fold]) (simp_all add: requests_io)

section \<open>Callbacks\<close>

locale client_callbacks =
  fixes call :: client_callback
  assumes call_io: "only_io s (call cb args x data s)"

text \<open>
  The callback \<open>notify_cb\<close> of \<^verbatim>\<open>src/syncsctrl/syncsctrl.c\<close> prints the value and wakes the main thread; it does not
  touch the connection.
\<close>

definition notify_cb :: "nat \<Rightarrow> syncsid \<Rightarrow> byte list \<Rightarrow> syncs_connect \<Rightarrow> syncs_connect" where
  "notify_cb args x data s = s"

definition syncsctrl_call :: client_callback where
  "syncsctrl_call cb args x data s = (if cb = 1 then notify_cb args x data s else s)"

interpretation syncsctrl: client_callbacks syncsctrl_call
  by unfold_locales (simp add: syncsctrl_call_def notify_cb_def)

section \<open>A new client\<close>

lemma upd_ce_loop:
  "fold (\<lambda>i. upd_ce i f) [0..<n] s = s\<lparr>cn_events := \<lambda>i. if i < n then f (cn_events s i) else cn_events s i\<rparr>"
  by (induction n) (auto simp: upd_ce_def fun_eq_iff less_Suc_eq intro!: syncs_connect.fold_congs)

lemma upd_cc_loop:
  "fold (\<lambda>i. upd_cc i f) [0..<n] s = s\<lparr>cn_channels := \<lambda>i. if i < n then f (cn_channels s i) else cn_channels s i\<rparr>"
  by (induction n) (auto simp: upd_cc_def fun_eq_iff less_Suc_eq intro!: syncs_connect.fold_congs)

lemmas connect_init_eq = syncs_connect_structure_init_def [unfolded upd_ce_loop upd_cc_loop Let_def]

lemma connect_create_eq:
  assumes "syncs_connect_create True addr port cid cb arg w = Some s"
  obtains a p x where "s = (syncs_connect_structure_init (calloc_connect w))
    \<lparr>cn_addr := a, cn_port := p, cn_id := x, cn_connect_cb := cb, cn_connect_arg := arg\<rparr>"
proof -
  define s0 where "s0 = syncs_connect_structure_init (calloc_connect w)"
  have "s = s0\<lparr>cn_addr := cn_addr s, cn_port := cn_port s, cn_id := cn_id s, cn_connect_cb := cb, cn_connect_arg := arg\<rparr>"
    using assms unfolding syncs_connect_create_def s0_def [symmetric] by (cases addr; cases cid) (auto simp: Let_def)
  then show thesis using that by (simp add: s0_def)
qed

lemma connect_create_fields:
  assumes "syncs_connect_create True addr port cid cb arg w = Some s"
  shows "i < SYNCS_EVENT_MAXIMUM \<Longrightarrow> \<not> live_id (ce_id (cn_events s i))" "ce_data (cn_events s i) = None"
    "i < SYNCS_CHANNEL_MAXIMUM \<Longrightarrow> \<not> live_id (cc_id (cn_channels s i))"
    "cn_os s = w" "cn_events_queue s = None" "cn_event_wait s" "\<not> cn_ticket_wait s"
    "cn_ticket_data s = \<lparr>t_ip = 0, t_port = 0, t_flags = 0\<rparr>" "cn_socketfd s = -1" "\<not> cn_onexit s"
proof -
  obtain a p x where s: "s = (syncs_connect_structure_init (calloc_connect w))
      \<lparr>cn_addr := a, cn_port := p, cn_id := x, cn_connect_cb := cb, cn_connect_arg := arg\<rparr>"
    by (rule connect_create_eq [OF assms])
  show "i < SYNCS_EVENT_MAXIMUM \<Longrightarrow> \<not> live_id (ce_id (cn_events s i))" "ce_data (cn_events s i) = None"
    "i < SYNCS_CHANNEL_MAXIMUM \<Longrightarrow> \<not> live_id (cc_id (cn_channels s i))"
    "cn_os s = w" "cn_events_queue s = None" "cn_event_wait s" "\<not> cn_ticket_wait s"
    "cn_ticket_data s = \<lparr>t_ip = 0, t_port = 0, t_flags = 0\<rparr>" "cn_socketfd s = -1" "\<not> cn_onexit s"
    by (simp_all add: s connect_init_eq calloc_connect_def live_id_def Let_def)
qed

text \<open>A client connected on descriptor 5, for examples.\<close>

definition sample_connect :: syncs_connect where
  "sample_connect = (the (syncs_connect_create True (Some (cstr ''127.0.0.1'')) 4444 (Some (cstr ''c'')) None 0 idle_os))\<lparr>cn_socketfd := 5\<rparr>"

lemma sample_connect_fields:
  "i < SYNCS_EVENT_MAXIMUM \<Longrightarrow> \<not> live_id (ce_id (cn_events sample_connect i))" "ce_data (cn_events sample_connect i) = None"
  "i < SYNCS_CHANNEL_MAXIMUM \<Longrightarrow> \<not> live_id (cc_id (cn_channels sample_connect i))"
  "cn_os sample_connect = idle_os" "cn_events_queue sample_connect = None" "cn_socketfd sample_connect = 5" "\<not> cn_onexit sample_connect"
proof -
  define c where "c = the (syncs_connect_create True (Some (cstr ''127.0.0.1'')) 4444 (Some (cstr ''c'')) None 0 idle_os)"
  then have "syncs_connect_create True (Some (cstr ''127.0.0.1'')) 4444 (Some (cstr ''c'')) None 0 idle_os = Some c"
    by (simp add: syncs_connect_create_def Let_def)
  note f = connect_create_fields [OF this]
  show "i < SYNCS_EVENT_MAXIMUM \<Longrightarrow> \<not> live_id (ce_id (cn_events sample_connect i))" "ce_data (cn_events sample_connect i) = None"
    "i < SYNCS_CHANNEL_MAXIMUM \<Longrightarrow> \<not> live_id (cc_id (cn_channels sample_connect i))"
    "cn_os sample_connect = idle_os" "cn_events_queue sample_connect = None" "cn_socketfd sample_connect = 5" "\<not> cn_onexit sample_connect"
    using f by (simp_all add: sample_connect_def c_def [symmetric])
qed

section \<open>One event\<close>

context client_callbacks
begin

lemma process_event_other:
  "syncs_find_event_conn s (h_id (p_header packet)) = None \<Longrightarrow> syncs_process_event call packet s = s"
  by (simp add: syncs_process_event_def Let_def)

lemma process_event_found:
  assumes "syncs_find_event_conn s (h_id (p_header packet)) = Some i"
  defines "n \<equiv> h_data_size (p_header packet)"
  shows "\<exists>t. only_io s t \<and> syncs_process_event call packet s =
    upd_ce i (\<lambda>e. e\<lparr>ce_update_counter := h_update_counter (p_header packet)\<rparr>)
      (case ce_data (cn_events s i) of None \<Rightarrow> t
       | Some m \<Rightarrow> (upd_ce i (\<lambda>e. e\<lparr>ce_data := Some (mem_put 0 (mem_read (p_buffer packet) 0 (unat n)) m), ce_data_size := ucast n\<rparr>)
           (cn_fault (unat n > unat (ce_data_user_size (cn_events s i))) t))\<lparr>cn_events_queue := Some i, cn_event_wait := False\<rparr>)"
proof -
  define t where "t = (case ce_cb (cn_events s i) of None \<Rightarrow> s
    | Some cb \<Rightarrow> call cb (ce_args (cn_events s i)) (ce_id (cn_events s i)) (mem_read (p_buffer packet) 0 (unat n)) s)"
  have t: "only_io s t" by (simp add: t_def call_io split: option.splits)
  show ?thesis
    by (rule exI [of _ t], rule conjI [OF t])
      (simp add: syncs_process_event_def assms(1) Let_def t_def [symmetric] n_def [symmetric] only_ioD(1) [OF t]
        split: option.split)
qed

end

lemma process_packet_event:
  "h_type (p_header packet) AND SYNCS_TYPE_MSG_MASK = SYNCS_TYPE_EVENT \<Longrightarrow>
     syncs_process_packet call packet s = syncs_process_event call packet s"
  by (simp add: syncs_process_packet_def Let_def)

lemma find_event_conn_Some: "syncs_find_event_conn s x = Some i \<Longrightarrow> i < SYNCS_EVENT_MAXIMUM \<and> ce_id (cn_events s i) = x"
  by (auto simp: syncs_find_event_conn_def dest: first_slot_SomeD)


text \<open>
  C24: A received event reaches the waiting application. When an event arrives for a subscription with a data
  buffer while the application waits, and its data fit the size registered with the buffer, \<open>syncs_wait_event\<close> returns the id of the
  subscription, its flags and the data, cut to the size the application asked for; the event is taken once; the
  subscription remembers the update counter. Data larger than the registered buffer are copied all the same: the
  copy leaves the buffer exactly when the size of the packet exceeds the registered size.
\<close>

theorem event_reaches_waiter:
  fixes packet :: syncs_packet and sz :: u32
  assumes "client_callbacks call"
    and type: "h_type (p_header packet) AND SYNCS_TYPE_MSG_MASK = SYNCS_TYPE_EVENT"
    and find: "syncs_find_event_conn s (h_id (p_header packet)) = Some i"
    and data: "ce_data (cn_events s i) = Some m" and queue: "cn_events_queue s = None"
  defines "n \<equiv> unat (h_data_size (p_header packet))"
  shows "\<exists>out k s'. syncs_wait_event (syncs_process_packet call packet) sz s = (Some (h_id (p_header packet), ce_flags (cn_events s i), out, k), s') \<and>
    (n \<le> unat (ce_data_user_size (cn_events s i)) \<longrightarrow> out = take (unat sz) (mem_read (p_buffer packet) 0 n) \<and> unat k = min (unat sz) n) \<and>
    (os_fault (cn_os s') \<longleftrightarrow> os_fault (cn_os s) \<or> unat (ce_data_user_size (cn_events s i)) < n) \<and>
    ce_update_counter (cn_events s' i) = h_update_counter (p_header packet) \<and>
    fst (syncs_wait_event (\<lambda>s. s) sz s') = None"
proof -
  let ?h = "p_header packet"
  obtain t where t: "only_io s t" and pe: "syncs_process_packet call packet s =
    upd_ce i (\<lambda>e. e\<lparr>ce_update_counter := h_update_counter ?h\<rparr>)
      ((upd_ce i (\<lambda>e. e\<lparr>ce_data := Some (mem_put 0 (mem_read (p_buffer packet) 0 n) m), ce_data_size := ucast (h_data_size ?h)\<rparr>)
           (cn_fault (n > unat (ce_data_user_size (cn_events s i))) t))\<lparr>cn_events_queue := Some i, cn_event_wait := False\<rparr>)"
    using client_callbacks.process_event_found [OF assms(1) find] process_packet_event [OF type] data unfolding n_def by auto
  have u: "unat (ucast (h_data_size ?h) :: u32) = n" by (simp add: n_def unat_ucast_le)
  define k :: u32 where "k = (if sz > ucast (h_data_size ?h) then ucast (h_data_size ?h) else sz)"
  have k: "unat k = min (unat sz) n" using u by (auto simp: k_def word_less_nat_alt)
  then have "mem_read (mem_put 0 (mem_read (p_buffer packet) 0 n) m) 0 (unat k) = take (unat sz) (mem_read (p_buffer packet) 0 n)"
    by (auto simp: mem_simps mem_put_def intro!: mem_read_cong)
  then show ?thesis
    using k find_event_conn_Some [OF find] only_ioD [OF t] queue u
    by (simp add: syncs_wait_event_def pe take_event_def Let_def k_def [symmetric])
      (auto simp: k_def split: if_splits)
qed


theorem event_reaches_waiter_witness:
  "\<exists>s'. syncs_wait_event (syncs_process_packet syncsctrl_call
      \<lparr>p_header = \<lparr>h_magic = 0x53, h_crc = 0, h_type = 0x202, h_id = syncs_idstr (cstr ''a''), h_sync = \<lparr>data0 = 0, data1 = 0\<rparr>,
         h_update_counter = 7, h_data_size = 4, h_magic_data = 0x44\<rparr>, p_buffer = mem_of [1, 2, 3, 4]\<rparr>) 3
      (upd_ce 0 (\<lambda>e. e\<lparr>ce_id := syncs_idstr (cstr ''a''), ce_data := Some (\<lambda>_. 0), ce_data_user_size := 8, ce_flags := 0x200\<rparr>) sample_connect)
    = (Some (syncs_idstr (cstr ''a''), 0x200, [1, 2, 3], 3), s')"
proof -
  let ?p = "\<lparr>p_header = \<lparr>h_magic = 0x53, h_crc = 0, h_type = 0x202, h_id = syncs_idstr (cstr ''a''), h_sync = \<lparr>data0 = 0, data1 = 0\<rparr>,
         h_update_counter = 7, h_data_size = 4, h_magic_data = 0x44\<rparr>, p_buffer = mem_of [1, 2, 3, 4]\<rparr>"
  let ?s = "upd_ce 0 (\<lambda>e. e\<lparr>ce_id := syncs_idstr (cstr ''a''), ce_data := Some (\<lambda>_. 0), ce_data_user_size := 8, ce_flags := 0x200\<rparr>) sample_connect"
  have find: "syncs_find_event_conn ?s (syncs_idstr (cstr ''a'')) = Some 0"
    by (simp add: syncs_find_event_conn_def first_slot_Some)
  obtain out k s' where r: "syncs_wait_event (syncs_process_packet syncsctrl_call ?p) 3 ?s = (Some (syncs_idstr (cstr ''a''), 0x200, out, k), s')"
    and o: "out = take 3 (mem_read (mem_of [1, 2, 3, 4]) 0 4)" "unat k = 3"
    using event_reaches_waiter [OF syncsctrl.client_callbacks_axioms, of ?p ?s 0 "\<lambda>_. 0" 3]
    by (auto simp: find sample_connect_fields)
  have "k = 3" using o(2) by (simp add: word_unat_eq_iff)
  then show ?thesis using r o by (simp add: mem_read_mem_of)
qed

end
