(* ===== verification/Text.thy ===== *)
theory Text
  imports Wire
begin

text \<open>
  What the code uses of the C library on text: \<open>snprintf\<close> and its conversions, \<open>strstr\<close>, \<open>isdigit\<close>, \<open>isprint\<close>, \<open>inet_ntop\<close>, on texts as lists of bytes and on
  arrays as memories. The conversions of floating-point numbers are parameters where they are used.
\<close>

section \<open>Functions\<close>

text \<open>The conversion \<open>%d\<close>, the dotted form \<open>inet_ntop\<close> writes, and \<open>strstr\<close> on the contents of two strings.\<close>

fun dec_digits :: "nat \<Rightarrow> byte list" where
  "dec_digits n = (if n < 10 then [of_nat (48 + n)] else dec_digits (n div 10) @ [of_nat (48 + n mod 10)])"

declare dec_digits.simps [simp del]

definition print_d :: "int \<Rightarrow> byte list" where
  "print_d n = (if n < 0 then 45 # dec_digits (nat (- n)) else dec_digits (nat n))"

definition inet_ntop :: "u32 \<Rightarrow> byte list" where
  "inet_ntop ip =
     (let b = map (\<lambda>x. dec_digits (unat x)) (le_bytes 4 ip)
      in b ! 0 @ [46] @ b ! 1 @ [46] @ b ! 2 @ [46] @ b ! 3)"

definition strstr :: "byte list \<Rightarrow> byte list \<Rightarrow> nat option" where
  "strstr text word = first_slot (Suc (length text)) (\<lambda>i. take (length word) (drop i text) = word)"

text \<open>\<open>snprintf\<close>: the length of the whole text, and the array with what fits of it and a zero.\<close>

definition snprintf :: "nat \<Rightarrow> byte list \<Rightarrow> mem \<Rightarrow> nat \<times> mem" where
  "snprintf sz text buffer = (length text, mem_put 0 (take (sz - 1) text @ [0]) buffer)"

text \<open>An array of \<open>n\<close> bytes read as a string, and whether that stays in the array.\<close>

definition buffer_text :: "nat \<Rightarrow> mem \<Rightarrow> byte list" where
  "buffer_text n m = c_str (mem_read m 0 n)"

definition terminated :: "nat \<Rightarrow> mem \<Rightarrow> bool" where
  "terminated n m = (0 \<in> set (mem_read m 0 n))"

definition isdigit :: "byte \<Rightarrow> bool" where
  "isdigit c \<longleftrightarrow> 48 \<le> c \<and> c \<le> 57"

definition read_port :: "byte list \<Rightarrow> int" where
  "read_port digits = foldl (\<lambda>port c. port * 10 + uint (c - 48)) 0 digits"

text \<open>
  The conversions with a width, \<open>%<n>s\<close> and \<open>%<n>d\<close>, which pad on the left. \<open>isprint\<close> in the C locale; glibc looks its argument up in a table for -128 to
  255, anything else is outside the table.
\<close>

definition pad :: "nat \<Rightarrow> byte list \<Rightarrow> byte list" where
  "pad n text = replicate (n - length text) 32 @ text"

definition isprint :: "int \<Rightarrow> bool" where
  "isprint c \<longleftrightarrow> 32 \<le> c \<and> c \<le> 126"

definition in_ctype :: "int \<Rightarrow> bool" where
  "in_ctype c \<longleftrightarrow> -128 \<le> c \<and> c \<le> 255"

section \<open>Lemmas\<close>

lemma strstr_append: "strstr (pre @ word @ post) word \<noteq> None"
  by (auto simp: strstr_def first_slot_None intro!: exI [of _ "length pre"])

lemma strstr_first:
  assumes "\<And>i. i < length pre \<Longrightarrow> take (length word) (drop i (pre @ word)) \<noteq> word"
  shows "strstr (pre @ word @ post) word = Some (length pre)"
  unfolding strstr_def first_slot_Some
proof (intro conjI allI impI)
  fix j assume j: "j < length pre"
  then have "take (length word) (drop j (pre @ word @ post)) = take (length word) (drop j (pre @ word))" by simp
  then show "take (length word) (drop j (pre @ word @ post)) \<noteq> word" using assms [OF j] by metis
qed auto

lemma dec_digits_isdigit: "c \<in> set (dec_digits n) \<Longrightarrow> isdigit c"
proof (induction n rule: dec_digits.induct)
  case (1 n)
  have d: "isdigit (of_nat (48 + k))" if "k < 10" for k
    using that by (simp add: isdigit_def word_le_nat_alt unat_of_nat_small unat_word_ariths unat_of_nat)
  show ?case
    using 1 d [of "n mod 10"] d [of n] by (subst (asm) (2) dec_digits.simps) (auto split: if_splits)
qed

lemma read_port_snoc: "read_port (ds @ [c]) = read_port ds * 10 + uint (c - 48)"
  by (simp add: read_port_def)

lemma read_port_dec_digits [simp]: "read_port (dec_digits n) = int n"
proof (induction n rule: dec_digits.induct)
  case (1 n)
  have d: "uint (of_nat (48 + k) - 48 :: byte) = int k" if "k < 10" for k
    using that by (simp add: uint_nat unat_of_nat_small)
  show ?case
  proof (cases "n < 10")
    case True
    then show ?thesis using d [of n] by (subst dec_digits.simps) (simp add: read_port_def)
  next
    case False
    have "int (n div 10) * 10 + int (n mod 10) = int n" by presburger
    then show ?thesis
      using 1 d [of "n mod 10"] False by (subst dec_digits.simps) (simp add: read_port_snoc del: of_nat_add)
  qed
qed

lemma length_dec_digits: "n < 10 ^ k \<Longrightarrow> 0 < k \<Longrightarrow> length (dec_digits n) \<le> k"
proof (induction k arbitrary: n)
  case (Suc k)
  show ?case
  proof (cases "n < 10")
    case False
    then have "n div 10 < 10 ^ k" "0 < k" using Suc.prems by (auto intro!: gr0I)
    then show ?thesis using Suc.IH [of "n div 10"] False by (subst dec_digits.simps) simp
  qed (subst dec_digits.simps, simp)
qed simp

lemma mem_read_put_prefix:
  "length text \<le> n \<Longrightarrow> mem_read (mem_put 0 text m) 0 n = text @ mem_read m (length text) (n - length text)"
  by (rule nth_equalityI) (auto simp: mem_put_def nth_append)

lemma buffer_text_put:
  assumes "0 \<notin> set text" "length text \<le> n"
  shows "buffer_text n (mem_put 0 text m) = text @ c_str (mem_read m (length text) (n - length text))"
  using assms by (auto simp: buffer_text_def mem_read_put_prefix c_str_def takeWhile_append)

lemma mem_read_put_take: "k \<le> length p \<Longrightarrow> mem_read (mem_put 0 p m) 0 k = take k p"
  by (rule nth_equalityI) (auto simp: mem_put_def)

lemma mem_read_part:
  assumes "mem_read m 0 n = pre @ x @ post"
  shows "mem_read m (length pre) (length x) = x"
proof -
  have "length pre + length x \<le> n" using arg_cong [OF assms, of length] by simp
  moreover have "take (length x) (drop (length pre) (mem_read m 0 n)) = x" by (simp add: assms)
  ultimately show ?thesis by (simp add: drop_mem_read take_mem_read min_def split: if_splits)
qed

lemma digits_no_zero [simp]: "0 \<notin> set (dec_digits n)" "58 \<notin> set (dec_digits n)"
  using dec_digits_isdigit [of 0 n] dec_digits_isdigit [of 58 n] by (auto simp: isdigit_def)

end
