(* ===== verification/Discovery.thy ===== *)
theory Discovery
  imports Text Server_State Client_Recv Sockets
begin

unbundle bit_operations_syntax

text \<open>
  Finding a server by SSDP: \<open>syncs_server_ssdp_*\<close> of \<^verbatim>\<open>src/libsyncs/syncs-server.c\<close>, \<open>syncs_ssdp_msearch\<close> and
  \<open>syncs_find_server\<close> of \<^verbatim>\<open>src/libsyncs/syncs-client.c\<close>, the texts of \<^verbatim>\<open>src/libsyncs/syncs-common.h\<close>.

  Both sides receive into an uninitialised local array of 1500 bytes and search it with \<open>strstr\<close>, which goes on after the
  datagram into what the array held before; the array is a memory that is threaded through the loops. A search that finds no
  zero in the array is a fault.
\<close>

section \<open>Text\<close>

abbreviation (input) SSDP_PACKET_SIZE :: nat where "SSDP_PACKET_SIZE \<equiv> 1500"
abbreviation (input) INET_ADDRSTRLEN :: nat where "INET_ADDRSTRLEN \<equiv> 16"

text \<open>The two characters that end a line.\<close>

definition crlf :: "byte list" where
  "crlf = [13, 10]"

definition ssdp_headers_msearch :: "byte list" where
  "ssdp_headers_msearch = cstr ''M-SEARCH * HTTP/1.1'' @ crlf"

definition ssdp_headers_response :: "byte list" where
  "ssdp_headers_response = cstr ''HTTP/1.1 200 OK'' @ crlf"

definition ssdp_network_ip :: "byte list" where
  "ssdp_network_ip = cstr ''239.255.255.250''"

definition ssdp_network_port :: int where
  "ssdp_network_port = 1900"

definition syncs_ssdp_field_name :: "byte list" where
  "syncs_ssdp_field_name = cstr ''syncscribe-server''"

section \<open>The server\<close>

definition ssdp_response_text :: "syncs_server \<Rightarrow> byte list" where
  "ssdp_response_text s =
     ssdp_headers_response @ cstr ''CACHE-CONTROL:max-age=120'' @ crlf @ cstr ''DATE:'' @ crlf @ cstr ''EXT:'' @ crlf @
     cstr ''LOCATION:'' @ c_str (s_addr s) @ cstr '':'' @ print_d (s_port s) @ crlf @
     cstr ''SERVER:unknow'' @ crlf @ cstr ''ST:'' @ syncs_ssdp_field_name @ crlf @
     cstr ''USN:'' @ c_str (id_bytes (s_id s)) @ crlf @ crlf"

definition syncs_server_ssdp_response :: "syncs_server \<Rightarrow> nat \<Rightarrow> mem \<Rightarrow> nat \<times> mem" where
  "syncs_server_ssdp_response s sz buffer = snprintf sz (ssdp_response_text s) buffer"

text \<open>Answering: the response is printed into the array and sent to the group; printing needs terminated strings.\<close>

definition ssdp_answer :: "(byte list \<Rightarrow> u32) \<Rightarrow> mem \<Rightarrow> syncs_server \<Rightarrow> mem \<times> syncs_server" where
  "ssdp_answer inet_addr buffer s =
     (let gaddr = syncs_set_multicast_group inet_addr ssdp_network_ip ssdp_network_port;
          s = upd_os (fault_if (0 \<notin> set (s_addr s) \<or> 0 \<notin> set (id_bytes (s_id s)))) s;
          (packet_size, buffer) = syncs_server_ssdp_response s SSDP_PACKET_SIZE buffer;
          s = upd_os (fault_if (packet_size > SSDP_PACKET_SIZE)) s
      in (buffer, upd_os (\<lambda>w. snd (syncs_udp_send (s_ssdp_socketfd s) (mem_read buffer 0 packet_size) gaddr w)) s))"

text \<open>What \<open>recvfrom\<close> gives: a datagram, or an error with whether \<open>errno\<close> is EAGAIN, which ends the loop.\<close>

datatype ssdp_recv = Ssdp_recv "byte list" | Ssdp_error bool

fun ssdp_receive_loop :: "(byte list \<Rightarrow> u32) \<Rightarrow> ssdp_recv list \<Rightarrow> mem \<Rightarrow> syncs_server \<Rightarrow> syncs_server" where
  "ssdp_receive_loop inet_addr [] buffer s = s"
| "ssdp_receive_loop inet_addr (Ssdp_error again # rs) buffer s =
     (if again \<and> s_ssdp_beacon s \<noteq> 0 then snd (ssdp_answer inet_addr buffer s) else s)"
| "ssdp_receive_loop inet_addr (Ssdp_recv packet # rs) buffer s =
     (let packet = take SSDP_PACKET_SIZE packet;
          buffer = mem_put 0 packet buffer;
          ssdp_msearch_size = length ssdp_headers_msearch
      in if length packet < ssdp_msearch_size then ssdp_receive_loop inet_addr rs buffer s
         else if mem_read buffer 0 ssdp_msearch_size \<noteq> ssdp_headers_msearch then ssdp_receive_loop inet_addr rs buffer s
         else
           (let s = upd_os (fault_if (\<not> terminated SSDP_PACKET_SIZE buffer)) s
            in if strstr (buffer_text SSDP_PACKET_SIZE buffer) syncs_ssdp_field_name = None
               then ssdp_receive_loop inet_addr rs buffer s
               else (let (buffer, s) = ssdp_answer inet_addr buffer s in ssdp_receive_loop inet_addr rs buffer s)))"

definition syncs_server_ssdp_receive :: "(byte list \<Rightarrow> u32) \<Rightarrow> ssdp_recv list \<Rightarrow> mem \<Rightarrow> syncs_server \<Rightarrow> syncs_server" where
  "syncs_server_ssdp_receive inet_addr rs buffer s =
     ssdp_receive_loop inet_addr rs buffer
       (if s_ssdp_beacon s \<noteq> 0 then upd_os (syncs_set_rxtimeout (s_ssdp_socketfd s) 0 500000) s else s)"

text \<open>
  One round of \<open>syncs_server_ssdp_thread\<close>: \<open>joined\<close> is the result of joining the group; when that fails it adds routes, with the answers
  \<open>answer\<close> of the kernel for the interfaces \<open>ifaddrs\<close>, and sleeps.
\<close>

definition syncs_server_ssdp_thread_round ::
    "(byte list \<Rightarrow> u32) \<Rightarrow> (byte list \<Rightarrow> int \<times> bool \<times> int) \<Rightarrow> ifaddr list option \<Rightarrow> sys_results \<Rightarrow> int \<Rightarrow> ssdp_recv list \<Rightarrow> mem \<Rightarrow>
     syncs_server \<Rightarrow> syncs_server" where
  "syncs_server_ssdp_thread_round inet_addr answer ifaddrs r joined rs buffer s =
     (let (fd, w) = syncs_udpmulticast_open inet_addr r None ssdp_network_port (s_os s);
          s = s\<lparr>s_ssdp_socketfd := fd, s_os := w\<rparr>;
          (ret, w) = syncs_add_multicast_group inet_addr joined (s_ssdp_socketfd s) ssdp_network_ip None (s_os s);
          s = s\<lparr>s_os := w\<rparr>
      in if ret \<noteq> 0 then (case syncs_add_multicast_route answer ifaddrs None (s_os s) of (_, _, w) \<Rightarrow> s\<lparr>s_os := w\<rparr>)
         else if s_ssdp_socketfd s < 0 then s
         else (let s = syncs_server_ssdp_receive inet_addr rs buffer s in upd_os (close_fd (s_ssdp_socketfd s)) s))"

definition syncs_server_ssdp_create :: "int \<Rightarrow> syncs_server \<Rightarrow> syncs_server" where
  "syncs_server_ssdp_create beacon s = s\<lparr>s_ssdp_beacon := beacon\<rparr>"

section \<open>The client\<close>

definition syncs_ssdp_msearch_text :: "byte list" where
  "syncs_ssdp_msearch_text =
     ssdp_headers_msearch @ cstr ''HOST:'' @ ssdp_network_ip @ cstr '':'' @ print_d ssdp_network_port @ crlf @
     cstr ''MAN:'' @ [34] @ cstr ''ssdp:discover'' @ [34] @ crlf @ cstr ''MX:1'' @ crlf @
     cstr ''ST:'' @ syncs_ssdp_field_name @ crlf @ cstr ''USER-AGENT:unknow'' @ crlf @ crlf"

definition syncs_ssdp_msearch :: "nat \<Rightarrow> mem \<Rightarrow> nat \<times> mem" where
  "syncs_ssdp_msearch sz buffer = snprintf sz syncs_ssdp_msearch_text buffer"

text \<open>The loop that copies the address, at most \<open>n\<close> characters up to a colon: the characters, and where it stops.\<close>

fun copy_location :: "nat \<Rightarrow> mem \<Rightarrow> nat \<Rightarrow> byte list \<times> nat" where
  "copy_location 0 buffer p = ([], p)"
| "copy_location (Suc n) buffer p =
     (if buffer p = 58 then ([], p)
      else (let (addr, q) = copy_location n buffer (p + 1) in (buffer p # addr, q)))"

text \<open>
  The loop over the datagrams that arrive before \<open>recvfrom\<close> times out, with the address of their sender. The result is \<open>None\<close> for
  -1, or what is stored at \<open>addr\<close> and the new \<open>*port\<close>. Digits up to the end of the array, or a port that is
  not an \<open>int\<close>, are a fault.
\<close>

fun find_server_loop :: "(byte list \<times> u32) list \<Rightarrow> mem \<Rightarrow> os \<Rightarrow> (byte list \<times> int) option \<times> os" where
  "find_server_loop [] buffer w = (None, w)"
| "find_server_loop ((packet, ip) # rs) buffer w =
     (let packet = take SSDP_PACKET_SIZE packet;
          buffer = mem_put 0 packet buffer;
          ssdp_response_size = length ssdp_headers_response
      in if length packet < ssdp_response_size then find_server_loop rs buffer w
         else if mem_read buffer 0 ssdp_response_size \<noteq> ssdp_headers_response then find_server_loop rs buffer w
         else
           (let w = fault_if (\<not> terminated SSDP_PACKET_SIZE buffer) w;
                text = buffer_text SSDP_PACKET_SIZE buffer
            in if strstr text syncs_ssdp_field_name = None then find_server_loop rs buffer w
               else (case strstr text (cstr ''LOCATION:'') of
                       None \<Rightarrow> find_server_loop rs buffer w
                     | Some i \<Rightarrow>
                         (let location = i + length (takeWhile (\<lambda>c. c \<noteq> 58) (drop i text)) + 1;
                              (addr, location) = copy_location (INET_ADDRSTRLEN + 1) buffer location;
                              location = location + 1;
                              digits = takeWhile isdigit (mem_read buffer location (SSDP_PACKET_SIZE - location));
                              port = read_port digits;
                              w = fault_if (location + length digits \<ge> SSDP_PACKET_SIZE \<or> port \<ge> 2 ^ 31) w
                          in (Some (addr @ inet_ntop ip @ [0], port), w)))))"

text \<open>\<open>syncs_find_server\<close> does not look at the descriptor it opens; on a negative one, sending and receiving fail.\<close>

definition syncs_find_server ::
    "(byte list \<Rightarrow> u32) \<Rightarrow> sys_results \<Rightarrow> int \<Rightarrow> (byte list \<times> u32) list \<Rightarrow> mem \<Rightarrow> os \<Rightarrow> (byte list \<times> int) option \<times> os" where
  "syncs_find_server inet_addr r joined rs buffer w =
     (let (fd, w) = syncs_udpmulticast_open inet_addr r None ssdp_network_port w;
          w = snd (syncs_add_multicast_group inet_addr joined fd ssdp_network_ip None w);
          gaddr = syncs_set_multicast_group inet_addr ssdp_network_ip ssdp_network_port;
          w = syncs_set_rxtimeout fd 0 500000 w;
          (packet_size, buffer) = syncs_ssdp_msearch SSDP_PACKET_SIZE buffer;
          w = (if fd < 0 then w else snd (syncs_udp_send fd (mem_read buffer 0 packet_size) gaddr w));
          (result, w) = find_server_loop (if fd < 0 then [] else rs) buffer w
      in (result, syncs_udpserver_close fd w))"

section \<open>The address in a response\<close>

lemma copy_location_colon:
  assumes "mem_read buffer p (length a) = a" "buffer (p + length a) = 58" "58 \<notin> set a" "length a \<le> n"
  shows "copy_location (Suc n) buffer p = (a, p + length a)"
  using assms
proof (induction a arbitrary: p n)
  case (Cons x a)
  obtain m where n: "n = Suc m" using Cons.prems(4) by (cases n) auto
  have "buffer p = x" "mem_read buffer (p + 1) (length a) = a"
    using Cons.prems(1) by (simp_all add: mem_read_def upt_conv_Cons map_Suc_upt [symmetric] comp_def del: upt_Suc)
  then show ?case using Cons.IH [of "p + 1" m] Cons.prems by (simp add: n)
qed simp

section \<open>The two texts\<close>

text \<open>The response up to the address, between the address and the name, and after the name.\<close>

definition response_head :: "byte list" where
  "response_head = ssdp_headers_response @ cstr ''CACHE-CONTROL:max-age=120'' @ crlf @ cstr ''DATE:'' @ crlf @ cstr ''EXT:'' @ crlf"

definition response_middle :: "syncs_server \<Rightarrow> byte list" where
  "response_middle s = c_str (s_addr s) @ cstr '':'' @ print_d (s_port s) @ crlf @ cstr ''SERVER:unknow'' @ crlf @ cstr ''ST:''"

definition response_tail :: "syncs_server \<Rightarrow> byte list" where
  "response_tail s = crlf @ cstr ''USN:'' @ c_str (id_bytes (s_id s)) @ crlf @ crlf"

lemma response_parts:
  "ssdp_response_text s = response_head @ cstr ''LOCATION:'' @ response_middle s @ syncs_ssdp_field_name @ response_tail s"
  by (simp add: ssdp_response_text_def response_head_def response_middle_def response_tail_def)

lemmas ssdp_texts = ssdp_headers_msearch_def ssdp_headers_response_def ssdp_network_ip_def ssdp_network_port_def
  syncs_ssdp_field_name_def crlf_def cstr_def of_char_def

lemma response_head_simps: "length response_head = 57" "take 17 response_head = ssdp_headers_response"
  "i < 57 \<Longrightarrow> take 9 (drop i (response_head @ cstr ''LOCATION:'')) \<noteq> cstr ''LOCATION:''"
proof -
  have "\<forall>i\<in>set [0..<57]. take 9 (drop i (response_head @ cstr ''LOCATION:'')) \<noteq> cstr ''LOCATION:''"
    by (simp add: response_head_def ssdp_texts upt_rec)
  then show "i < 57 \<Longrightarrow> take 9 (drop i (response_head @ cstr ''LOCATION:'')) \<noteq> cstr ''LOCATION:''" by simp
qed (simp_all add: response_head_def ssdp_texts)

lemma location_length: "length (cstr ''LOCATION:'') = 9"
  by (simp add: cstr_def)

lemma msearch_facts:
  "take 21 syncs_ssdp_msearch_text = ssdp_headers_msearch" "length ssdp_headers_msearch = 21" "length ssdp_headers_response = 17"
  "length syncs_ssdp_msearch_text < SSDP_PACKET_SIZE" "0 \<notin> set syncs_ssdp_msearch_text"
  by (simp_all add: syncs_ssdp_msearch_text_def print_d_def dec_digits.simps ssdp_texts)

text \<open>A server whose response a client can read: an address of at most 16 characters without a colon, and a port.\<close>

definition locatable :: "syncs_server \<Rightarrow> bool" where
  "locatable s \<longleftrightarrow> length (c_str (s_addr s)) \<le> INET_ADDRSTRLEN \<and> 58 \<notin> set (c_str (s_addr s)) \<and> 0 \<le> s_port s \<and> s_port s < 2 ^ 31"

lemma response_facts:
  assumes "locatable s"
  shows "0 \<notin> set (ssdp_response_text s)" "length (ssdp_response_text s) < SSDP_PACKET_SIZE"
    "take 17 (ssdp_response_text s) = ssdp_headers_response"
proof -
  have "length (dec_digits (nat (s_port s))) \<le> 10"
    using assms by (intro length_dec_digits) (auto simp: locatable_def)
  moreover have "length (c_str (id_bytes (s_id s))) \<le> 32"
    using length_takeWhile_le [of "\<lambda>x. x \<noteq> 0" "id_bytes (s_id s)"] by (simp add: c_str_def id_bytes_def)
  ultimately show "0 \<notin> set (ssdp_response_text s)" "length (ssdp_response_text s) < SSDP_PACKET_SIZE"
    using assms by (simp_all add: ssdp_response_text_def locatable_def print_d_def ssdp_texts)
  show "take 17 (ssdp_response_text s) = ssdp_headers_response"
    by (simp add: response_parts response_head_simps)
qed

section \<open>The client finds the server\<close>

lemma find_noise:
  assumes "\<forall>(p, i)\<in>set noise. take 17 p \<noteq> ssdp_headers_response"
  shows "\<exists>buffer'. find_server_loop (noise @ rs) buffer w = find_server_loop rs buffer' w"
  using assms
proof (induction noise arbitrary: buffer)
  case (Cons x noise)
  obtain p i where x: "x = (p, i)" by (cases x)
  have "mem_read (mem_put 0 (take SSDP_PACKET_SIZE p) buffer) 0 17 \<noteq> ssdp_headers_response" if "17 \<le> length (take SSDP_PACKET_SIZE p)"
    using Cons.prems x that by (simp add: mem_read_put_take)
  then show ?case
    using Cons by (simp add: x Let_def msearch_facts(3))
qed auto

lemma find_response:
  assumes "locatable s"
  shows "fst (find_server_loop ((ssdp_response_text s, ip) # rs) buffer w) = Some (c_str (s_addr s) @ inet_ntop ip @ [0], s_port s)"
proof -
  let ?txt = "ssdp_response_text s" and ?a = "c_str (s_addr s)"
  let ?B = "mem_put 0 ?txt buffer"
  note facts = response_facts [OF assms]
  define post where "post = mem_read buffer (length ?txt) (SSDP_PACKET_SIZE - length ?txt)"
  have B: "mem_read ?B 0 SSDP_PACKET_SIZE = ?txt @ post" using facts(2) by (simp add: mem_read_put_prefix post_def)
  have T: "buffer_text SSDP_PACKET_SIZE ?B = ?txt @ c_str post" using facts(1,2) by (simp add: buffer_text_put post_def)
  have hd: "mem_read ?B 0 17 = ssdp_headers_response" "17 \<le> length ?txt"
    using arg_cong [OF B, of "take 17"] facts(3) by (simp_all add: take_mem_read response_parts response_head_simps)
  have name: "strstr (?txt @ c_str post) syncs_ssdp_field_name \<noteq> None"
    using strstr_append [of "response_head @ cstr ''LOCATION:'' @ response_middle s" syncs_ssdp_field_name "response_tail s @ c_str post"]
    by (simp add: response_parts)
  have loc: "strstr (?txt @ c_str post) (cstr ''LOCATION:'') = Some 57"
    unfolding response_parts append_assoc response_head_simps(1) [symmetric]
    by (rule strstr_first, unfold response_head_simps(1) location_length, erule response_head_simps(3))
  have colon: "length (takeWhile (\<lambda>c. c \<noteq> 58) (drop 57 (?txt @ c_str post))) = 8"
    by (simp add: response_parts response_head_simps(1)) (simp add: cstr_def of_char_def)
  define rest where "rest = crlf @ cstr ''SERVER:unknow'' @ crlf @ cstr ''ST:'' @ syncs_ssdp_field_name @ response_tail s @ post"
  define pre where "pre = response_head @ cstr ''LOCATION:''"
  have pre: "length pre = 66" by (simp add: pre_def response_head_simps cstr_def)
  have parts: "mem_read ?B 0 SSDP_PACKET_SIZE = pre @ ?a @ [58] @ print_d (s_port s) @ rest"
    unfolding B by (simp add: response_parts response_middle_def rest_def pre_def cstr_def of_char_def)
  have copy: "copy_location 17 ?B 66 = (?a, 66 + length ?a)"
  proof -
    have "mem_read ?B 66 (length ?a) = ?a" using mem_read_part [OF parts] by (simp add: pre)
    moreover have "mem_read ?B (66 + length ?a) 1 = [58]"
      using mem_read_part [of ?B SSDP_PACKET_SIZE "pre @ ?a" "[58]"] parts by (simp add: pre)
    ultimately show ?thesis
      using copy_location_colon [of ?B 66 ?a 16] assms by (simp add: locatable_def mem_read_def)
  qed
  have digits: "takeWhile isdigit (mem_read ?B (67 + length ?a) (SSDP_PACKET_SIZE - (67 + length ?a))) = dec_digits (nat (s_port s))"
  proof -
    have "drop (67 + length ?a) (mem_read ?B 0 SSDP_PACKET_SIZE) = print_d (s_port s) @ rest"
      using parts by (simp add: pre)
    then have "mem_read ?B (67 + length ?a) (SSDP_PACKET_SIZE - (67 + length ?a)) = dec_digits (nat (s_port s)) @ rest"
      using assms by (simp add: drop_mem_read print_d_def locatable_def)
    then show ?thesis
      using dec_digits_isdigit by (simp add: rest_def crlf_def takeWhile_append isdigit_def)
  qed
  show ?thesis
    using facts(2) hd name loc colon copy digits assms
    by (auto simp: Let_def msearch_facts(3) T add.commute [of _ 67] locatable_def)
qed

lemma find_server_dgram [simp]: "os_dgram (snd (find_server_loop rs buffer w)) = os_dgram w"
proof (induction rs buffer w rule: find_server_loop.induct)
  case (2 packet ip rs buffer w)
  then show ?case by (simp add: Let_def split: option.split prod.split)
qed simp

section \<open>The server answers\<close>

abbreviation ssdp_group :: "(byte list \<Rightarrow> u32) \<Rightarrow> sockaddr_in" where
  "ssdp_group inet_addr \<equiv> syncs_set_multicast_group inet_addr ssdp_network_ip ssdp_network_port"

lemma ssdp_answer_sends:
  assumes "locatable s"
  shows "\<exists>w. ssdp_answer inet_addr buffer s = (mem_put 0 (ssdp_response_text s @ [0]) buffer, s\<lparr>s_os := w\<rparr>) \<and>
    os_dgram w = os_dgram (s_os s) @ [(s_ssdp_socketfd s, ssdp_group inet_addr, ssdp_response_text s)]"
proof -
  have same: "ssdp_response_text (upd_os f s) = ssdp_response_text s" for f by (simp add: upd_os_def ssdp_response_text_def)
  show ?thesis
    using response_facts(2) [OF assms] mem_read_put_take [of "length (ssdp_response_text s)" "ssdp_response_text s @ [0]" buffer]
    by (simp add: ssdp_answer_def syncs_server_ssdp_response_def snprintf_def same Let_def syncs_udp_send_def)
      (simp add: upd_os_def, intro exI conjI, rule refl, simp)
qed

text \<open>A datagram that starts like a search is answered when the array then holds the name.\<close>

lemma receive_search:
  assumes "locatable s" "take 21 p = ssdp_headers_msearch" "length p \<le> SSDP_PACKET_SIZE"
    and "strstr (buffer_text SSDP_PACKET_SIZE (mem_put 0 p buffer)) syncs_ssdp_field_name \<noteq> None"
  shows "\<exists>w. ssdp_receive_loop inet_addr (Ssdp_recv p # rs) buffer s
      = ssdp_receive_loop inet_addr rs (mem_put 0 (ssdp_response_text s @ [0]) (mem_put 0 p buffer)) (s\<lparr>s_os := w\<rparr>) \<and>
    os_dgram w = os_dgram (s_os s) @ [(s_ssdp_socketfd s, ssdp_group inet_addr, ssdp_response_text s)]"
proof -
  let ?s = "upd_os (fault_if (\<not> terminated SSDP_PACKET_SIZE (mem_put 0 p buffer))) s"
  have eq: "locatable ?s" "ssdp_response_text ?s = ssdp_response_text s" "s_ssdp_socketfd ?s = s_ssdp_socketfd s"
    "os_dgram (s_os ?s) = os_dgram (s_os s)" "?s\<lparr>s_os := w\<rparr> = s\<lparr>s_os := w\<rparr>" for w
    using assms(1) by (simp_all add: locatable_def upd_os_def ssdp_response_text_def)
  have "21 \<le> length p" using arg_cong [OF assms(2), of length] by (simp add: msearch_facts(2) min_def split: if_splits)
  then show ?thesis
    using ssdp_answer_sends [OF eq(1), of inet_addr "mem_put 0 p buffer"] assms(2-4) unfolding eq
    by (auto simp: Let_def msearch_facts(2) mem_read_put_take)
qed

lemma msearch_named:
  "strstr (buffer_text SSDP_PACKET_SIZE (mem_put 0 syncs_ssdp_msearch_text buffer)) syncs_ssdp_field_name \<noteq> None"
proof -
  define post where "post = c_str (mem_read buffer (length syncs_ssdp_msearch_text) (SSDP_PACKET_SIZE - length syncs_ssdp_msearch_text))"
  have "buffer_text SSDP_PACKET_SIZE (mem_put 0 syncs_ssdp_msearch_text buffer) = syncs_ssdp_msearch_text @ post"
    using msearch_facts(4,5) by (simp add: buffer_text_put post_def)
  then show ?thesis
    using strstr_append [of "ssdp_headers_msearch @ cstr ''HOST:'' @ ssdp_network_ip @ cstr '':'' @ print_d ssdp_network_port @ crlf @
     cstr ''MAN:'' @ [34] @ cstr ''ssdp:discover'' @ [34] @ crlf @ cstr ''MX:1'' @ crlf @ cstr ''ST:''" syncs_ssdp_field_name
     "crlf @ cstr ''USER-AGENT:unknow'' @ crlf @ crlf @ post"]
    by (simp add: syncs_ssdp_msearch_text_def)
qed

lemma find_server_result:
  fixes s r noise rs ip inet_addr joined stack w
  assumes "locatable s" "0 \<le> sys_socket r" "sys_bind r" "\<forall>(p, i)\<in>set noise. take 17 p \<noteq> ssdp_headers_response"
  defines "found \<equiv> syncs_find_server inet_addr r joined (noise @ (ssdp_response_text s, ip) # rs) stack w"
  shows "fst found = Some (c_str (s_addr s) @ inet_ntop ip @ [0], s_port s)"
    "os_dgram (snd found) = os_dgram w @ [(sys_socket r, ssdp_group inet_addr, syncs_ssdp_msearch_text)]"
proof -
  define buffer1 where "buffer1 = mem_put 0 (syncs_ssdp_msearch_text @ [0]) stack"
  obtain w0 where w0: "syncs_udpmulticast_open inet_addr r None ssdp_network_port w = (sys_socket r, w0)" "os_dgram w0 = os_dgram w"
    using assms(2,3) by (simp add: syncs_udpmulticast_open_def Let_def)
  define w1 where "w1 = snd (syncs_udp_send (sys_socket r) syncs_ssdp_msearch_text (ssdp_group inet_addr)
    (syncs_set_rxtimeout (sys_socket r) 0 500000 (snd (syncs_add_multicast_group inet_addr joined (sys_socket r) ssdp_network_ip None w0))))"
  let ?rs = "noise @ (ssdp_response_text s, ip) # rs"
  have "mem_read buffer1 0 (length syncs_ssdp_msearch_text) = syncs_ssdp_msearch_text"
    by (simp add: buffer1_def mem_read_put_take)
  then have "syncs_find_server inet_addr r joined ?rs stack w
      = (fst (find_server_loop ?rs buffer1 w1), syncs_udpserver_close (sys_socket r) (snd (find_server_loop ?rs buffer1 w1)))"
    using assms(2) msearch_facts(4)
    by (simp add: syncs_find_server_def syncs_ssdp_msearch_def snprintf_def buffer1_def [symmetric] w0 w1_def [symmetric] Let_def case_prod_unfold)
  moreover have "fst (find_server_loop ?rs buffer1 w1) = Some (c_str (s_addr s) @ inet_ntop ip @ [0], s_port s)"
    using find_noise [OF assms(4), of "(ssdp_response_text s, ip) # rs" buffer1 w1] find_response [OF assms(1)] by metis
  moreover have "os_dgram w1 = os_dgram w @ [(sys_socket r, ssdp_group inet_addr, syncs_ssdp_msearch_text)]"
    by (simp add: w1_def w0 syncs_udp_send_def syncs_set_rxtimeout_def syncs_add_multicast_group_def Let_def)
  ultimately show "fst found = Some (c_str (s_addr s) @ inet_ntop ip @ [0], s_port s)"
    "os_dgram (snd found) = os_dgram w @ [(sys_socket r, ssdp_group inet_addr, syncs_ssdp_msearch_text)]"
    by (simp_all add: found_def syncs_udpserver_close_def close_fd_def)
qed

section \<open>Properties\<close>

text \<open>
  C12: Discovery works end to end. \<open>syncs_find_server\<close> multicasts a search; a server that receives it, whatever its array held
  before, multicasts one response; a client that receives this response from \<open>ip\<close>, after any number of datagrams that are not
  responses, such as its own search, finds the port of the server. What it stores as the address is the address the server was created
  with, followed directly by the dotted form of \<open>ip\<close>: the right string only for a server without an address.
\<close>

theorem discovery_end_to_end:
  assumes "locatable s" "0 \<le> sys_socket r" "sys_bind r" "\<forall>(p, i)\<in>set noise. take 17 p \<noteq> ssdp_headers_response"
  shows "(\<exists>w'. os_dgram w' = os_dgram w @ [(sys_socket r, ssdp_group inet_addr, syncs_ssdp_msearch_text)] \<and>
      syncs_find_server inet_addr r joined (noise @ (ssdp_response_text s, ip) # rs) stack w
        = (Some (c_str (s_addr s) @ inet_ntop ip @ [0], s_port s), w')) \<and>
    os_dgram (s_os (ssdp_receive_loop inet_addr [Ssdp_recv syncs_ssdp_msearch_text] buffer s))
      = os_dgram (s_os s) @ [(s_ssdp_socketfd s, ssdp_group inet_addr, ssdp_response_text s)]"
proof (intro conjI)
  show "\<exists>w'. os_dgram w' = os_dgram w @ [(sys_socket r, ssdp_group inet_addr, syncs_ssdp_msearch_text)] \<and>
      syncs_find_server inet_addr r joined (noise @ (ssdp_response_text s, ip) # rs) stack w
        = (Some (c_str (s_addr s) @ inet_ntop ip @ [0], s_port s), w')"
    using find_server_result [OF assms] prod.collapse by metis
  show "os_dgram (s_os (ssdp_receive_loop inet_addr [Ssdp_recv syncs_ssdp_msearch_text] buffer s))
      = os_dgram (s_os s) @ [(s_ssdp_socketfd s, ssdp_group inet_addr, ssdp_response_text s)]"
    using receive_search [OF assms(1) msearch_facts(1) less_imp_le [OF msearch_facts(4)] msearch_named, of inet_addr "[]" buffer] by auto
qed

theorem discovery_end_to_end_witness:
  "\<exists>w'. syncs_find_server (\<lambda>_. 0) \<lparr>sys_socket = 3, sys_bind = True, sys_listen = True, sys_connect = True\<rparr> 0
       [(syncs_ssdp_msearch_text, 7), (ssdp_response_text (calloc_server idle_os), 0x0100007f)] (\<lambda>_. 0) idle_os
     = (Some (cstr ''127.0.0.1'' @ [0], 0), w')"
proof -
  let ?s = "calloc_server idle_os" and ?r = "\<lparr>sys_socket = 3, sys_bind = True, sys_listen = True, sys_connect = True\<rparr>"
  have "locatable ?s" "c_str (s_addr ?s) = []" "s_port ?s = 0" by (simp_all add: locatable_def calloc_server_def c_str_def)
  moreover have "inet_ntop 0x0100007f = cstr ''127.0.0.1''"
    by (simp add: inet_ntop_def le_bytes_def dec_digits.simps cstr_def of_char_def Let_def upt_rec)
  moreover have "take 17 syncs_ssdp_msearch_text \<noteq> ssdp_headers_response"
    by (simp add: syncs_ssdp_msearch_text_def ssdp_texts)
  ultimately show ?thesis
    using discovery_end_to_end [of ?s ?r "[(syncs_ssdp_msearch_text, 7)]" idle_os "\<lambda>_. 0" 0 "0x0100007f" "[]" "\<lambda>_. 0" "\<lambda>_. 0"] by auto
qed

text \<open>
  C37: A server answers searches that are not meant for it. \<open>strstr\<close> goes on after the end of the received datagram into the response the
  server has printed into the same array before; after its first answer a server answers every search that is not longer than its own
  response up to the service name, whatever service the search asks for.
\<close>

theorem ssdp_answers_foreign_search:
  assumes "locatable s" "take 21 f = ssdp_headers_msearch" "0 \<notin> set f"
    and "length f \<le> 87 + length (c_str (s_addr s)) + length (print_d (s_port s))"
  shows "os_dgram (s_os (ssdp_receive_loop inet_addr [Ssdp_recv syncs_ssdp_msearch_text, Ssdp_recv f] buffer s))
    = os_dgram (s_os s) @ replicate 2 (s_ssdp_socketfd s, ssdp_group inet_addr, ssdp_response_text s)"
proof -
  define pre where "pre = response_head @ cstr ''LOCATION:'' @ response_middle s"
  have resp: "ssdp_response_text s = pre @ syncs_ssdp_field_name @ response_tail s" by (simp add: pre_def response_parts)
  have len: "length f \<le> length pre"
    using assms(4) by (simp add: pre_def response_head_simps location_length response_middle_def) (simp add: ssdp_texts)
  define buffer1 where "buffer1 = mem_put 0 (ssdp_response_text s @ [0]) (mem_put 0 syncs_ssdp_msearch_text buffer)"
  obtain w where w: "ssdp_receive_loop inet_addr [Ssdp_recv syncs_ssdp_msearch_text, Ssdp_recv f] buffer s
      = ssdp_receive_loop inet_addr [Ssdp_recv f] buffer1 (s\<lparr>s_os := w\<rparr>)"
    "os_dgram w = os_dgram (s_os s) @ [(s_ssdp_socketfd s, ssdp_group inet_addr, ssdp_response_text s)]"
    using receive_search [OF assms(1) msearch_facts(1) less_imp_le [OF msearch_facts(4)] msearch_named, of inet_addr "[Ssdp_recv f]" buffer]
    by (auto simp: buffer1_def)
  define s' where "s' = s\<lparr>s_os := w\<rparr>"
  have s': "locatable s'" "ssdp_response_text s' = ssdp_response_text s" "s_ssdp_socketfd s' = s_ssdp_socketfd s" "s_os s' = w"
    using assms(1) by (simp_all add: s'_def locatable_def ssdp_response_text_def)
  note facts = response_facts [OF assms(1)]
  let ?k = "length (ssdp_response_text s)"
  have k: "length f \<le> ?k" "?k < SSDP_PACKET_SIZE" using len facts(2) by (simp_all add: resp)
  have "mem_read buffer1 (length f) (SSDP_PACKET_SIZE - length f)
      = drop (length f) (ssdp_response_text s) @ 0 # mem_read (mem_put 0 syncs_ssdp_msearch_text buffer) (Suc ?k) (SSDP_PACKET_SIZE - Suc ?k)"
    using k arg_cong [OF mem_read_put_prefix [of "ssdp_response_text s @ [0]" SSDP_PACKET_SIZE "mem_put 0 syncs_ssdp_msearch_text buffer"],
        of "drop (length f)"]
    by (simp add: buffer1_def drop_mem_read)
  moreover have "0 \<notin> set (drop (length f) (ssdp_response_text s))" using facts(1) by (auto dest: in_set_dropD)
  ultimately have "buffer_text SSDP_PACKET_SIZE (mem_put 0 f buffer1) = f @ drop (length f) (ssdp_response_text s)"
    using buffer_text_put [OF assms(3), of SSDP_PACKET_SIZE buffer1] k by (auto simp: c_str_def takeWhile_append)
  then have "strstr (buffer_text SSDP_PACKET_SIZE (mem_put 0 f buffer1)) syncs_ssdp_field_name \<noteq> None"
    using strstr_append [of "f @ drop (length f) pre" syncs_ssdp_field_name "response_tail s"] len by (simp add: resp)
  then show ?thesis
    using receive_search [OF s'(1) assms(2), of buffer1 inet_addr "[]"] k w unfolding s' s'_def [symmetric]
    by (auto simp: numeral_2_eq_2 s'_def [symmetric])
qed

theorem ssdp_answers_foreign_search_witness:
  "length (os_dgram (s_os (ssdp_receive_loop (\<lambda>_. 0)
     [Ssdp_recv syncs_ssdp_msearch_text,
      Ssdp_recv (ssdp_headers_msearch @ cstr ''HOST:239.255.255.250:1900'' @ crlf @ cstr ''MX:1'' @ crlf @ cstr ''ST:ssdp:all'' @ crlf @ crlf)]
     (\<lambda>_. 0) (calloc_server idle_os)))) = 2"
proof -
  let ?s = "calloc_server idle_os"
  have s: "locatable ?s" "c_str (s_addr ?s) = []" "s_port ?s = 0" "os_dgram (s_os ?s) = []"
    by (simp_all add: locatable_def calloc_server_def c_str_def idle_os_def)
  show ?thesis
    by (subst ssdp_answers_foreign_search) (simp_all add: s, simp_all add: ssdp_texts print_d_def dec_digits.simps)
qed


section \<open>Failures to join\<close>

lemma ssdp_round_failed_join:
  assumes "\<And>dev. 0 < fst (answer dev)" "0 \<le> sys_socket r" "sys_bind r" "joined \<noteq> 0"
  shows "balance (s_os (syncs_server_ssdp_thread_round inet_addr answer ifaddrs r joined rs buffer s)) = gains [sys_socket r] (balance (s_os s))"
  using balance_multicast_route [of answer] assms
  by (simp add: syncs_server_ssdp_thread_round_def syncs_add_multicast_group_def open_defs split_beta)

text \<open>
  Every round of the SSDP thread that opens its socket and fails to join the multicast group keeps the socket: after the rounds \<open>rs\<close>
  the server holds one more descriptor for each of them, although the sockets used for adding routes are all closed.
\<close>

lemma ssdp_failed_joins_leak:
  assumes "\<And>dev. 0 < fst (answer dev)" "\<And>r. r \<in> set rs \<Longrightarrow> 0 \<le> sys_socket r \<and> sys_bind r" "joined \<noteq> 0"
  shows "balance (s_os (fold (\<lambda>r. syncs_server_ssdp_thread_round inet_addr answer ifaddrs r joined ps buffer) rs s)) =
    gains (map sys_socket rs) (balance (s_os s))"
  using assms(2)
proof (induction rs arbitrary: s)
  case (Cons r rs)
  then show ?case
    using ssdp_round_failed_join [where answer = answer and r = r and s = s and joined = joined] assms(1,3) by (auto simp: gains_def fun_eq_iff)
qed simp

end
