(* ===== verification/Client_Threads.thy ===== *)
theory Client_Threads
  imports Client_Events Discovery
begin

unbundle bit_operations_syntax

text \<open>
  The threads of a client: looking for a server, connecting, receiving, connecting again, and \<open>syncs_disconnect\<close>
  (\<^verbatim>\<open>src/libsyncs/syncs-client.c\<close>). The model of a thread is one turn of its loop; the kernel's answers and what is
  received are arguments.
\<close>

definition upd_cn_os :: "(os \<Rightarrow> os) \<Rightarrow> syncs_connect \<Rightarrow> syncs_connect" where
  "upd_cn_os f s = s\<lparr>cn_os := f (cn_os s)\<rparr>"

section \<open>Looking for a server\<close>

text \<open>
  The first loop of both threads: while there is no address or no port, \<open>syncs_find_server\<close> is called with the array \<open>addr\<close> of 20
  bytes. Each attempt is given by the answers of the kernel, the result of joining the group, the datagrams received and the
  uninitialised array.
\<close>

fun syncs_connect_search ::
    "(byte list \<Rightarrow> u32) \<Rightarrow> (sys_results \<times> int \<times> (byte list \<times> u32) list \<times> mem) list \<Rightarrow> syncs_connect \<Rightarrow> syncs_connect" where
  "syncs_connect_search inet_addr [] s = s"
| "syncs_connect_search inet_addr ((r, joined, rs, stack) # attempts) s =
     (if cn_addr s ! 0 = 0 \<or> cn_port s = 0 then
        (case syncs_find_server inet_addr r joined rs stack (cn_os s) of
           (None, w) \<Rightarrow> syncs_connect_search inet_addr attempts (s\<lparr>cn_os := w\<rparr>)
         | (Some (addr, port), w) \<Rightarrow>
             cn_fault (length addr > 20) (s\<lparr>cn_addr := take 20 (addr @ drop (length addr) (cn_addr s)), cn_port := port, cn_os := w\<rparr>))
      else s)"

section \<open>Connecting\<close>

definition syncs_connect_thread_round ::
    "client_callback \<Rightarrow> (byte list \<Rightarrow> u32) \<Rightarrow> sys_results \<Rightarrow> client_recv list \<Rightarrow> syncs_connect \<Rightarrow> syncs_connect" where
  "syncs_connect_thread_round call inet_addr r rs s =
     (if cn_onexit s then s
      else
        (let (fd, w) = syncs_tcpclient_open inet_addr r (Some (cn_addr s)) (cn_port s) (cn_os s);
             s = s\<lparr>cn_socketfd := fd, cn_os := w\<rparr>
         in if fd < 0 then s
            else
              (let s = upd_cn_os (syncs_set_nonblocking_socket (cn_socketfd s) (1024 * 1024) (1024 * 1024)) s;
                   s = upd_cn_os (syncs_set_keepalive (cn_socketfd s) 30 3) s;
                   s = upd_cn_os (os_call (cn_socketfd s) Set_cloexec) s;
                   s = syncs_recv call rs s;
                   s = upd_cn_os (os_call (cn_socketfd s) Shutdown) s
               in s\<lparr>cn_socketfd := -1\<rparr>)))"

definition syncs_udpconnect_thread_round ::
    "client_callback \<Rightarrow> (byte list \<Rightarrow> u32) \<Rightarrow> sys_results \<Rightarrow> client_recv list \<Rightarrow> syncs_connect \<Rightarrow> syncs_connect" where
  "syncs_udpconnect_thread_round call inet_addr r rs s =
     (if cn_onexit s then s
      else
        (let ((fd, saddr), w) = syncs_udpclient_open inet_addr r (Some (cn_addr s)) (cn_port s) (cn_os s);
             s = s\<lparr>cn_usocketfd := fd, cn_saddr := (case saddr of Some a \<Rightarrow> a | None \<Rightarrow> cn_saddr s), cn_os := w\<rparr>
         in if fd < 0 then s
            else
              (let s = upd_cn_os (syncs_set_nonblocking_socket (cn_usocketfd s) (1024 * 1024) (1024 * 1024)) s;
                   s = upd_cn_os (os_call (cn_usocketfd s) Set_cloexec) s;
                   s = syncs_udprecv call rs s;
                   s = upd_cn_os (close_fd (cn_usocketfd s)) s
               in s\<lparr>cn_usocketfd := -1\<rparr>)))"

text \<open>
  \<open>syncs_disconnect\<close> up to the release of the structure: \<open>join\<close> is what the receiving thread still does until it ends. A running
  connect callback is cancelled.
\<close>

definition syncs_disconnect :: "(syncs_connect \<Rightarrow> syncs_connect) \<Rightarrow> syncs_connect \<Rightarrow> syncs_connect" where
  "syncs_disconnect join s =
     (let s = s\<lparr>cn_onexit := True\<rparr>;
          s = upd_cn_os (os_call (cn_usocketfd s) Shutdown) s;
          s = upd_cn_os (os_call (cn_socketfd s) Shutdown) s;
          s = join s;
          s = syncs_free_clientslist s;
          s = syncs_free_eventslist s;
          s = syncs_free_channelslist s
      in syncs_event_data_release s)"

section \<open>What receiving does to descriptors\<close>

text \<open>The descriptors a client has created and closed, and the one of its UDP socket.\<close>

definition fds :: "syncs_connect \<Rightarrow> (int \<times> sockcall) list \<times> int list \<times> int" where
  "fds s = (os_calls (cn_os s), os_closed (cn_os s), cn_usocketfd s)"

lemma balance_fds: "fds s = fds t \<Longrightarrow> balance (cn_os s) = balance (cn_os t)"
  by (simp add: fds_def balance_def fun_eq_iff)

lemma fds_simps [simp]:
  "fds (upd_ce i f s) = fds s" "fds (cn_fault b s) = fds s" "fds (s\<lparr>cn_buffer := m\<rparr>) = fds s" "fds (s\<lparr>cn_events_queue := q\<rparr>) = fds s"
  "fds (s\<lparr>cn_event_wait := x\<rparr>) = fds s" "fds (s\<lparr>cn_onexit := x\<rparr>) = fds s" "fds (s\<lparr>cn_eventlist := l\<rparr>) = fds s"
  "fds (s\<lparr>cn_clientlist := l\<rparr>) = fds s" "fds (s\<lparr>cn_channellist := l\<rparr>) = fds s" "fds (s\<lparr>cn_server_id := x0\<rparr>) = fds s"
  "fds (s\<lparr>cn_read_size := n\<rparr>) = fds s" "fds (s\<lparr>cn_read_data := m\<rparr>) = fds s" "fds (s\<lparr>cn_read_wait := x\<rparr>) = fds s"
  "fds (s\<lparr>cn_ticket_data := t\<rparr>) = fds s" "fds (s\<lparr>cn_ticket_wait := x\<rparr>) = fds s" "fds (s\<lparr>cn_ready := x\<rparr>) = fds s"
  "fds (s\<lparr>cn_connect_wait := x\<rparr>) = fds s" "fds (s\<lparr>cn_connect_cb_status := k\<rparr>) = fds s" "fds (s\<lparr>cn_socketfd := k\<rparr>) = fds s"
  by (simp_all add: fds_def)

lemma fds_send [simp]: "fds (snd (syncs_connect_send b s)) = fds s"
  by (simp add: syncs_connect_send_def syncs_blocking_send_def syncs_udp_send_def fds_def Let_def split: prod.splits)

lemma fds_send_header [simp]: "fds (send_header fill s) = fds s"
  by (simp add: send_header_def)

lemma fds_fold: "(\<And>x s. x \<in> set xs \<Longrightarrow> fds (f x s) = fds s) \<Longrightarrow> fds (fold f xs s) = fds s"
  by (induction xs arbitrary: s) simp_all

lemma fds_send_id [simp]: "fds (syncs_send_id s) = fds s"
  by (simp add: syncs_send_id_def syncs_client_send_id_def syncs_client_send_subscribe_def syncs_client_send_channel_anons_def
      fds_fold Let_def)

locale fd_callbacks =
  fixes call :: client_callback
  assumes call_fds: "fds (call cb args x data s) = fds s"
begin

lemma process_event_fds [simp]: "fds (syncs_process_event call packet s) = fds s"
  by (simp add: syncs_process_event_def Let_def call_fds split: option.split)

lemma process_packet_fds [simp]: "fds (syncs_process_packet call packet s) = fds s"
  by (simp add: syncs_process_packet_def syncs_channel_process_packet_def syncs_process_error_def Let_def split: prod.split)

lemma rx_loop_fds: "cn_rx_loop call recv head s = (n, t) \<Longrightarrow> fds t = fds s"
proof (induction "recv - head" arbitrary: head s n t rule: less_induct)
  case less
  have mask: "fds (cn_mask_size head s) = fds s" by (simp add: cn_mask_size_def)
  let ?s = "syncs_process_packet call (packet_at (cn_buffer (cn_mask_size head s)) head) (cn_mask_size head s)"
  have IH: "fds t = fds s'" if "cn_rx_loop call recv k s' = (n, t)" "recv \<ge> head + sizeof_syncs_header" "k > head" for k s'
    using less.hyps [of k s' n t] that by simp
  show ?case
    using less.prems IH [of "head + 1" s] IH [of _ ?s]
    by (subst (asm) cn_rx_loop.simps) (simp add: Let_def mask not_less split: if_splits, use mask in auto)
qed

lemma recv_round_fds: "syncs_recv_round call r recv s = (go, n, t) \<Longrightarrow> fds t = fds s"
  by (auto simp: syncs_recv_round_def Let_def dest: rx_loop_fds split: client_recv.splits if_splits prod.splits)

lemma recv_rounds_fds: "fds (syncs_recv_rounds call rs recv s) = fds s"
  by (induction rs arbitrary: recv s) (auto simp: dest: recv_round_fds split: prod.split)

lemma udprecv_rounds_fds: "fds (syncs_udprecv_rounds call rs s) = fds s"
proof (induction rs arbitrary: s)
  case (Cons r rs)
  have "fds (snd (syncs_udprecv_round call r s)) = fds s"
    by (simp add: syncs_udprecv_round_def cn_mask_size_def Let_def split: client_recv.split)
  then show ?case using Cons.IH by (auto split: prod.split)
qed simp

lemma recv_fds: "fds (syncs_recv call rs s) = fds s" "fds (syncs_udprecv call rs s) = fds s"
  by (simp_all add: syncs_recv_def syncs_udprecv_def recv_rounds_fds udprecv_rounds_fds syncs_recv_start_def syncs_udprecv_start_def Let_def)

end

interpretation syncsctrl_fds: fd_callbacks syncsctrl_call
  by unfold_locales (simp add: syncsctrl_call_def notify_cb_def)

section \<open>Properties\<close>

lemma upd_cn_os_simps [simp]:
  "cn_os (upd_cn_os f s) = f (cn_os s)" "cn_socketfd (upd_cn_os f s) = cn_socketfd s" "cn_usocketfd (upd_cn_os f s) = cn_usocketfd s"
  by (simp_all add: upd_cn_os_def)

context fd_callbacks
begin

lemma recv_balance:
  "balance (cn_os (syncs_recv call rs s)) = balance (cn_os s)" "balance (cn_os (syncs_udprecv call rs s)) = balance (cn_os s)"
  "cn_usocketfd (syncs_udprecv call rs s) = cn_usocketfd s"
  using recv_fds [of rs s] by (simp_all add: fds_def balance_def fun_eq_iff)

text \<open>One turn of each thread.\<close>

lemma tcp_round_balance:
  assumes "\<not> cn_onexit s"
  shows "balance (cn_os (syncs_connect_thread_round call inet_addr r rs s))
    = gains (if 0 \<le> sys_socket r \<and> sys_connect r then [sys_socket r] else []) (balance (cn_os s))"
proof -
  obtain fd w where op: "syncs_tcpclient_open inet_addr r (Some (cn_addr s)) (cn_port s) (cn_os s) = (fd, w)" by fastforce
  have fd: "fd \<ge> 0 \<longleftrightarrow> 0 \<le> sys_socket r \<and> sys_connect r" "fd \<ge> 0 \<longrightarrow> fd = sys_socket r"
    using op by (auto simp: syncs_tcpclient_open_def Let_def split: if_splits)
  show ?thesis
    using assms fd tcpclient.failure_keeps [of inet_addr r "Some (cn_addr s)" "cn_port s" "cn_os s"]
      tcpclient.success_adds [of inet_addr r "Some (cn_addr s)" "cn_port s" "cn_os s"]
    by (auto simp: syncs_connect_thread_round_def op Let_def recv_balance)
qed

lemma udp_round_balance: "balance (cn_os (syncs_udpconnect_thread_round call inet_addr r rs s)) = balance (cn_os s)"
proof -
  obtain fd a w where op: "syncs_udpclient_open inet_addr r (Some (cn_addr s)) (cn_port s) (cn_os s) = ((fd, a), w)" by (metis surj_pair)
  show ?thesis
    using udpclient.failure_keeps [of inet_addr r "Some (cn_addr s)" "cn_port s" "cn_os s"]
      udpclient.success_adds [of inet_addr r "Some (cn_addr s)" "cn_port s" "cn_os s"]
    by (auto simp: syncs_udpconnect_thread_round_def op Let_def recv_balance fun_eq_iff)
qed

lemma tcp_turns_balance:
  assumes "\<not> cn_onexit (fold (\<lambda>(r, rs). syncs_connect_thread_round call inet_addr r rs) turns s)"
  shows "balance (cn_os (fold (\<lambda>(r, rs). syncs_connect_thread_round call inet_addr r rs) turns s))
    = gains (map (\<lambda>(r, rs). sys_socket r) (filter (\<lambda>(r, rs). 0 \<le> sys_socket r \<and> sys_connect r) turns)) (balance (cn_os s))"
  using assms
proof (induction turns arbitrary: s)
  case (Cons x turns)
  obtain r rs where x: "x = (r, rs)" by (cases x)
  have stop: "syncs_connect_thread_round call inet_addr r rs s = s" if "cn_onexit s" for r rs s
    using that by (simp add: syncs_connect_thread_round_def)
  have "fold (\<lambda>(r, rs). syncs_connect_thread_round call inet_addr r rs) turns s = s" if "cn_onexit s" for s
    using that by (induction turns) (auto simp: stop)
  then have "\<not> cn_onexit s" using Cons.prems x by (auto simp: stop)
  note round = tcp_round_balance [OF this, of inet_addr r rs]
  show ?case using Cons.IH [of "syncs_connect_thread_round call inet_addr r rs s"] Cons.prems
    by (auto simp: x round gains_def fun_eq_iff)
qed simp

end

text \<open>
  C36: A client holds one descriptor more after every TCP connection. A turn of \<open>syncs_connect_thread\<close> shuts its socket down and
  does not close it, so after any number of turns without \<open>syncs_disconnect\<close> the process holds a descriptor for every turn
  that connected; attempts that fail lose none. Turns of \<open>syncs_udpconnect_thread\<close> leave the descriptors as they were.
\<close>

theorem reconnect_descriptors:
  assumes "fd_callbacks call"
  shows "(\<not> cn_onexit (fold (\<lambda>(r, rs). syncs_connect_thread_round call inet_addr r rs) turns s) \<longrightarrow>
      balance (cn_os (fold (\<lambda>(r, rs). syncs_connect_thread_round call inet_addr r rs) turns s))
        = gains (map (\<lambda>(r, rs). sys_socket r) (filter (\<lambda>(r, rs). 0 \<le> sys_socket r \<and> sys_connect r) turns)) (balance (cn_os s))) \<and>
    balance (cn_os (fold (\<lambda>(r, rs). syncs_udpconnect_thread_round call inet_addr r rs) turns s)) = balance (cn_os s)"
proof (intro conjI impI)
  show "balance (cn_os (fold (\<lambda>(r, rs). syncs_udpconnect_thread_round call inet_addr r rs) turns s)) = balance (cn_os s)"
    by (induction turns arbitrary: s) (auto simp: fd_callbacks.udp_round_balance [OF assms])
qed (rule fd_callbacks.tcp_turns_balance [OF assms])

theorem reconnect_descriptors_witness:
  "balance (cn_os (fold (\<lambda>(r, rs). syncs_udpconnect_thread_round syncsctrl_call (\<lambda>_. 0) r rs)
     [(\<lparr>sys_socket = 6, sys_bind = True, sys_listen = True, sys_connect = True\<rparr>, [Client_recv []])] sample_connect)) 6 = 0"
  using reconnect_descriptors [OF syncsctrl_fds.fd_callbacks_axioms, of "\<lambda>_. 0"
      "[(\<lparr>sys_socket = 6, sys_bind = True, sys_listen = True, sys_connect = True\<rparr>, [Client_recv []])]" sample_connect]
  by (simp add: sample_connect_fields idle_os_def balance_def)

text \<open>
  A found server with a fixed address overruns the client's \<open>addr\<close>. \<open>syncs_find_server\<close> writes the address from the response and then,
  behind it, the sender's address with a zero; when they are longer than the 20 bytes together, the thread that looks for a server
  writes over the fields that follow.
\<close>

lemma search_overruns_addr:
  assumes "locatable s" "0 \<le> sys_socket r" "sys_bind r" "cn_port c = 0"
    and "20 \<le> length (c_str (s_addr s)) + length (inet_ntop ip)"
  shows "os_fault (cn_os (syncs_connect_search inet_addr ((r, joined, (ssdp_response_text s, ip) # rs, stack) # attempts) c))"
proof -
  have "fst (syncs_find_server inet_addr r joined ((ssdp_response_text s, ip) # rs) stack (cn_os c))
      = Some (c_str (s_addr s) @ inet_ntop ip @ [0], s_port s)"
    using find_server_result(1) [OF assms(1-3), where noise = "[]"] by simp
  then show ?thesis using assms(4,5) by (auto simp: split: prod.split option.split)
qed

end
