(* ===== verification/Client_Stream.thy ===== *)
theory Client_Stream
  imports Client_Events Frames
begin

unbundle bit_operations_syntax

text \<open>
  How \<open>syncs_recv\<close> cuts what a client receives into packets. The loop is the one of the server
  (\<open>packet_loop\<close>), interpreted here for the client. What is kept between two reads is shorter than one packet, whatever
  is received, so the buffer can always take the next read.
\<close>

section \<open>Processing a packet leaves the receive buffer alone\<close>

context client_callbacks
begin

lemma process_event_buffer: "cn_buffer (syncs_process_event call packet s) = cn_buffer s"
proof (cases "syncs_find_event_conn s (h_id (p_header packet))")
  case (Some i)
  from process_event_found [OF this] obtain t where t: "only_io s t"
    and eq: "syncs_process_event call packet s = upd_ce i (\<lambda>e. e\<lparr>ce_update_counter := h_update_counter (p_header packet)\<rparr>)
      (case ce_data (cn_events s i) of None \<Rightarrow> t
       | Some m \<Rightarrow> (upd_ce i (\<lambda>e. e\<lparr>ce_data := Some (mem_put 0 (mem_read (p_buffer packet) 0 (unat (h_data_size (p_header packet)))) m),
            ce_data_size := ucast (h_data_size (p_header packet))\<rparr>)
           (cn_fault (unat (h_data_size (p_header packet)) > unat (ce_data_user_size (cn_events s i))) t))
             \<lparr>cn_events_queue := Some i, cn_event_wait := False\<rparr>)" by blast
  show ?thesis using only_ioD(2) [OF t] by (simp add: eq split: option.split)
qed (simp add: process_event_other)

lemma process_packet_buffer: "cn_buffer (syncs_process_packet call packet s) = cn_buffer s"
  using only_ioD(2) [OF send_id_io]
  by (auto simp: syncs_process_packet_def syncs_channel_process_packet_def syncs_process_error_def process_event_buffer Let_def
      split: prod.split)

end

section \<open>The receive loop\<close>

lemma cn_mask_size_id:
  assumes "mem_read (cn_buffer s) head sizeof_syncs_header = header_bytes h" "unat (h_data_size h) \<le> SYNCS_VARIABLE_SIZE_MAXIMUM"
  shows "cn_mask_size head s = s"
proof -
  let ?m = "cn_buffer s"
  have "mem_read ?m (head + 57) 2 = take 2 (drop 57 (header_bytes h))"
    by (simp add: assms(1) [symmetric] mem_simps)
  also have "\<dots> = le_bytes 2 (h_data_size h)" by (simp add: header_bytes_def)
  finally have two: "le_bytes 2 (h_data_size h) = mem_read ?m (head + 57) 2" by simp
  have "mem_put (head + 57) (le_bytes 2 (h_data_size h)) ?m = ?m"
    unfolding two by (rule ext) (auto simp: mem_put_def)
  then show ?thesis using mask_small [OF assms(2)] by (simp add: cn_mask_size_def cn_header_def assms(1))
qed

interpretation cn_scan: packet_scan cn_buffer cn_mask_size "\<lambda>packet room s. syncs_process_packet call packet s"
  "cn_rx_loop call" for call
proof
  show "cn_rx_loop call recv head s =
      (if recv < head + sizeof_syncs_header then (head, s)
       else if h_magic (header_at (cn_buffer s) head) \<noteq> SYNCS_PACKET_MAGIC then cn_rx_loop call recv (head + 1) s
       else if h_magic_data (header_at (cn_buffer s) head) \<noteq> SYNCS_PACKET_MAGIC_DATA then cn_rx_loop call recv (head + 1) s
       else
         (let s = cn_mask_size head s
          in if recv - head < sizeof_syncs_header + unat (h_data_size (header_at (cn_buffer s) head)) then (head, s)
             else
               (let s = syncs_process_packet call (packet_at (cn_buffer s) head) s
                in cn_rx_loop call recv (head + sizeof_syncs_header + unat (h_data_size (header_at (cn_buffer s) head))) s)))"
    for recv head s
    by (subst cn_rx_loop.simps) (simp add: Let_def header_at_def cn_header_def)
qed (rule cn_mask_size_id)

sublocale client_callbacks \<subseteq> cn: packet_loop cn_buffer cn_mask_size "\<lambda>packet room s. syncs_process_packet call packet s"
  "cn_rx_loop call" "\<lambda>s. True" 0
  by unfold_locales (simp add: process_packet_buffer)

text \<open>Processing the frames of a stream that starts at \<open>head\<close> of the receive buffer, one by one.\<close>

definition client_frames :: "client_callback \<Rightarrow> nat \<Rightarrow> frame list \<Rightarrow> syncs_connect \<Rightarrow> syncs_connect" where
  "client_frames call = run_frames (\<lambda>packet room s. syncs_process_packet call packet s) cn_buffer"

context client_callbacks
begin

lemma recv_round_frames:
  assumes room: "recv + length bytes \<le> SYNCS_CLIENT_BUFFER_SIZE" and len: "sizeof_syncs_header \<le> length bytes"
    and stream: "mem_read (cn_buffer s) 0 recv @ bytes = concat (map frame_bytes fs) @ rest"
    and fs: "list_all frame_ok fs" and rest: "incomplete rest"
  defines "t \<equiv> s\<lparr>cn_buffer := mem_put recv bytes (cn_buffer s)\<rparr>"
  shows "\<exists>b. syncs_recv_round call (Client_recv bytes) recv s = (True, length rest, (client_frames call 0 fs t)\<lparr>cn_buffer := b\<rparr>) \<and>
    mem_read b 0 (length rest) = rest"
proof -
  let ?n = "length (concat (map frame_bytes fs))"
  let ?u = "client_frames call 0 fs t"
  have m: "mem_read (cn_buffer t) 0 (recv + length bytes) = concat (map frame_bytes fs) @ rest"
    using stream by (simp add: t_def mem_read_put_append)
  note st = cn.loop_stream [where s = t and recv = "recv + length bytes", OF _ _ fs rest m, folded client_frames_def]
  have r: "cn_rx_loop call (recv + length bytes) 0 t = (?n, ?u)" and total: "recv + length bytes = ?n + length rest"
    and buf: "cn_buffer ?u = cn_buffer t" and parts: "mem_read (cn_buffer t) ?n (length rest) = rest"
    using st(1-4) room by simp_all
  have same: "?u = ?u\<lparr>cn_buffer := cn_buffer ?u\<rparr>" by simp
  have b: "syncs_recv_round call (Client_recv bytes) recv s =
     (True, length rest, ?u\<lparr>cn_buffer := (if rest = [] then cn_buffer t else keep_rest ?n (length rest) (cn_buffer t))\<rparr>)"
    using room len r total buf
    by (auto simp: syncs_recv_round_def Let_def t_def [symmetric] keep_rest_def)
  have "mem_read (if rest = [] then cn_buffer t else keep_rest ?n (length rest) (cn_buffer t)) 0 (length rest) = rest"
    by (simp add: keep_rest_read parts)
  with b show ?thesis by blast
qed

end

text \<open>
  C20: A client cuts its stream into packets exactly. When the bytes kept from earlier reads and the bytes of a read of at least 60 bytes
  together are any number of well-formed packets followed by the beginning of another, \<open>syncs_recv\<close> processes exactly these
  packets, each once and in order, keeps exactly the beginning of the last, and goes on.
\<close>

theorem client_stream_cut:
  assumes "client_callbacks call" "recv + length bytes \<le> SYNCS_CLIENT_BUFFER_SIZE" "sizeof_syncs_header \<le> length bytes"
    "mem_read (cn_buffer s) 0 recv @ bytes = concat (map frame_bytes fs) @ rest" "list_all frame_ok fs" "incomplete rest"
  shows "\<exists>b. syncs_recv_round call (Client_recv bytes) recv s =
      (True, length rest, (client_frames call 0 fs (s\<lparr>cn_buffer := mem_put recv bytes (cn_buffer s)\<rparr>))\<lparr>cn_buffer := b\<rparr>) \<and>
    mem_read b 0 (length rest) = rest"
  using client_callbacks.recv_round_frames [OF assms] .

theorem client_stream_cut_witness:
  "\<exists>s'. syncs_recv_round syncsctrl_call (Client_recv (header_bytes (header_of_bytes (0x53 # replicate 58 0 @ [0x44])) @ [0x53, 0, 0])) 0
      sample_connect = (True, 3, s')"
proof -
  let ?h = "header_of_bytes (0x53 # replicate 58 0 @ [0x44])"
  have f: "frame_ok (?h, [])" "frame_bytes (?h, []) = header_bytes ?h"
    by (simp_all add: frame_ok_def frame_bytes_def header_of_bytes_def nth_Cons' nth_append drop_Cons' numeral_2_eq_2)
  show ?thesis
    using client_stream_cut [OF syncsctrl.client_callbacks_axioms, of 0 "header_bytes ?h @ [0x53, 0, 0]" sample_connect "[(?h, [])]" "[0x53, 0, 0]"]
    by (auto simp: f incomplete_def)
qed

section \<open>The buffer never fills up\<close>

lemma cn_mask_size_le: "unat (h_data_size (cn_header head (cn_mask_size head s))) \<le> SYNCS_VARIABLE_SIZE_MAXIMUM"
proof -
  let ?n = "h_data_size (cn_header head s) AND 0x1ff"
  have "mem_read (mem_put (head + 57) (le_bytes 2 ?n) (cn_buffer s)) (head + 57) 2 = le_bytes 2 ?n" by (simp add: mem_simps)
  then have "h_data_size (cn_header head (cn_mask_size head s)) = ?n"
    by (simp add: cn_header_def cn_mask_size_def header_of_bytes_def mem_simps le_simps)
  then show ?thesis using unat_and_le [of "h_data_size (cn_header head s)" "0x1ff"] by simp
qed

lemma cn_rx_loop_rest: "cn_rx_loop call recv head s = (n, t) \<Longrightarrow> recv < n + sizeof_syncs_header + SYNCS_VARIABLE_SIZE_MAXIMUM"
proof (induction call recv head s rule: cn_rx_loop.induct)
  case (1 call recv head s)
  note IH = "1.IH" and eq = "1.prems"
  show ?case
    using eq IH(1,2) IH(3) [OF _ _ _ refl _ refl] cn_mask_size_le [of head s]
    by (subst (asm) cn_rx_loop.simps) (auto simp: Let_def split: if_splits)
qed

text \<open>
  C21: The receive buffer of a client never fills up. Whatever the server or anybody else sends, garbage included, after every round of
  \<open>syncs_recv\<close> fewer than 571 bytes, the largest packet, are kept of the 32768 the buffer holds; the next \<open>recv\<close> is never
  asked for nothing, which it would report as the end of the connection.
\<close>

theorem client_buffer_bounded:
  assumes "recv < sizeof_syncs_header + SYNCS_VARIABLE_SIZE_MAXIMUM"
  shows "fst (snd (syncs_recv_round call r recv s)) < sizeof_syncs_header + SYNCS_VARIABLE_SIZE_MAXIMUM \<and>
    0 < SYNCS_CLIENT_BUFFER_SIZE - fst (snd (syncs_recv_round call r recv s))"
proof -
  have "fst (snd (syncs_recv_round call r recv s)) < sizeof_syncs_header + SYNCS_VARIABLE_SIZE_MAXIMUM"
  proof (cases r)
    case (Client_recv bytes)
    let ?b = "take (SYNCS_CLIENT_BUFFER_SIZE - recv) bytes"
    let ?s = "cn_fault (recv + length ?b > SYNCS_CLIENT_BUFFER_SIZE) s"
    obtain n t where l: "cn_rx_loop call (recv + length ?b) 0 (?s\<lparr>cn_buffer := mem_put recv ?b (cn_buffer ?s)\<rparr>) = (n, t)" by fastforce
    show ?thesis
      using assms cn_rx_loop_rest [OF l] unfolding syncs_recv_round_def Client_recv client_recv.case Let_def l by (auto split: if_splits)
  qed (use assms in \<open>simp add: syncs_recv_round_def\<close>)
  then show ?thesis by simp
qed

theorem client_buffer_bounded_witness:
  "fst (snd (syncs_recv_round syncsctrl_call (Client_recv (replicate 40000 0x53)) 500 sample_connect)) < 571"
  using client_buffer_bounded [of 500 syncsctrl_call "Client_recv (replicate 40000 0x53)" sample_connect] by simp

end
