(* ===== verification/Client_Safe.thy ===== *)
theory Client_Safe
  imports Client_Threads Client_Stream
begin

unbundle bit_operations_syntax

text \<open>
  The states a client can reach: from a new client by any interleaving of connecting, receiving any bytes, disconnecting and calls of the
  application, and what holds in all of them.

  A step of the receiving thread is one read; the number of bytes it has kept from earlier reads is left open here, up to the size of the buffer, which allows more
  than the code does (\<open>client_buffer_bounded\<close>). During a call that waits the receiving thread does any number of reads.
\<close>

section \<open>Calls\<close>

datatype client_api =
    Cl_write u32 "byte list" "mem option" u32
  | Cl_define "byte list" u32
  | Cl_undefine "byte list"
  | Cl_subscribe u32 "byte list" "nat option" nat
  | Cl_subscribe_sync_user u32 "byte list" mem u32
  | Cl_subscribe_sync mem u32 "byte list"
  | Cl_unsubscribe "byte list"
  | Cl_channel_anons "byte list" u32 int
  | Cl_channel_request "byte list"
  | Cl_read u32 "byte list" u32 "(client_recv \<times> nat) list"
  | Cl_wait_event u32 "(client_recv \<times> nat) list"

definition received :: "client_callback \<Rightarrow> client_recv \<times> nat \<Rightarrow> syncs_connect \<Rightarrow> syncs_connect" where
  "received call r c = snd (snd (syncs_recv_round call (fst r) (snd r) c))"

definition run_client_api :: "client_callback \<Rightarrow> (byte list \<Rightarrow> u32) \<Rightarrow> client_api \<Rightarrow> syncs_connect \<Rightarrow> syncs_connect" where
  "run_client_api call inet_addr a c =
     (case a of
        Cl_write flags cid data n \<Rightarrow> snd (syncs_write flags cid data n c)
      | Cl_define cid flags \<Rightarrow> syncs_define cid flags c
      | Cl_undefine cid \<Rightarrow> syncs_undefine cid c
      | Cl_subscribe flags cid cb args \<Rightarrow> snd (syncs_subscribe_event flags cid cb args c)
      | Cl_subscribe_sync_user flags cid data n \<Rightarrow> snd (syncs_subscribe_event_sync_user flags cid (Some data) n c)
      | Cl_subscribe_sync data flags cid \<Rightarrow> snd (syncs_subscribe_event_sync (Some data) flags cid c)
      | Cl_unsubscribe cid \<Rightarrow> syncs_unsubscribe_event cid c
      | Cl_channel_anons cid flags port \<Rightarrow> snd (syncs_channel_anons cid flags port c)
      | Cl_channel_request cid \<Rightarrow> snd (snd (syncs_channel_request inet_addr id cid c))
      | Cl_read flags cid n rs \<Rightarrow> snd (snd (snd (syncs_read (fold (received call) rs) flags cid n c)))
      | Cl_wait_event n rs \<Rightarrow> snd (syncs_wait_event (fold (received call) rs) n c))"

text \<open>
  What the application owes: at most 4095 bytes in a write, buffers of at least 511 bytes, an announcement only while there is a free
  slot; and no list is requested, as the pages of a list are copied without a bound. Reads keep at most the size of the buffer.
\<close>

fun client_allowed :: "client_api \<Rightarrow> syncs_connect \<Rightarrow> bool" where
  "client_allowed (Cl_write flags cid data n) c \<longleftrightarrow> unat n \<le> SYNCS_EVENT_DATA_SIZE_MAXIMUM"
| "client_allowed (Cl_subscribe_sync_user flags cid data n) c \<longleftrightarrow> SYNCS_VARIABLE_SIZE_MAXIMUM \<le> unat n"
| "client_allowed (Cl_channel_anons cid flags port) c \<longleftrightarrow> syncs_find_free_channel c \<noteq> None"
| "client_allowed (Cl_read flags cid n rs) c \<longleftrightarrow> (\<forall>r\<in>set rs. snd r \<le> SYNCS_CLIENT_BUFFER_SIZE)"
| "client_allowed (Cl_wait_event n rs) c \<longleftrightarrow> (\<forall>r\<in>set rs. snd r \<le> SYNCS_CLIENT_BUFFER_SIZE)"
| "client_allowed a c \<longleftrightarrow> True"

section \<open>Steps\<close>

inductive client_step :: "client_callback \<Rightarrow> (byte list \<Rightarrow> u32) \<Rightarrow> syncs_connect \<Rightarrow> syncs_connect \<Rightarrow> bool" for call inet_addr where
  opens: "syncs_tcpclient_open inet_addr r (Some (cn_addr c)) (cn_port c) (cn_os c) = (fd, w) \<Longrightarrow>
    client_step call inet_addr c (c\<lparr>cn_socketfd := fd, cn_os := w\<rparr>)"
| sets: "client_step call inet_addr c (upd_cn_os (os_call fd k) c)"
| starts: "client_step call inet_addr c (syncs_recv_start c)"
| receives: "snd r \<le> SYNCS_CLIENT_BUFFER_SIZE \<Longrightarrow> client_step call inet_addr c (received call r c)"
| ends: "client_step call inet_addr c (c\<lparr>cn_ready := False, cn_socketfd := -1\<rparr>)"
| udp_opens: "syncs_udpclient_open inet_addr r (Some (cn_addr c)) (cn_port c) (cn_os c) = ((fd, a), w) \<Longrightarrow>
    client_step call inet_addr c (c\<lparr>cn_usocketfd := fd, cn_saddr := (case a of Some a \<Rightarrow> a | None \<Rightarrow> cn_saddr c), cn_os := w\<rparr>)"
| udp_starts: "client_step call inet_addr c (syncs_udprecv_start c)"
| udp_receives: "client_step call inet_addr c (snd (syncs_udprecv_round call r c))"
| udp_ends: "client_step call inet_addr c (c\<lparr>cn_ready := False, cn_usocketfd := -1\<rparr>)"
| calls: "client_allowed a c \<Longrightarrow> client_step call inet_addr c (run_client_api call inet_addr a c)"

inductive client_reachable :: "client_callback \<Rightarrow> (byte list \<Rightarrow> u32) \<Rightarrow> syncs_connect \<Rightarrow> bool" for call inet_addr where
  new: "syncs_connect_create True addr port cid cb arg w = Some c \<Longrightarrow> \<not> os_fault w \<Longrightarrow> client_reachable call inet_addr c"
| moves: "client_reachable call inet_addr c \<Longrightarrow> client_step call inet_addr c c' \<Longrightarrow> client_reachable call inet_addr c'"

section \<open>The invariant\<close>

definition event_buffer_ok :: "syncs_client_event \<Rightarrow> bool" where
  "event_buffer_ok e \<longleftrightarrow> unat (ce_data_size e) \<le> SYNCS_VARIABLE_SIZE_MAXIMUM \<and>
     (ce_data e \<noteq> None \<longrightarrow> SYNCS_VARIABLE_SIZE_MAXIMUM \<le> unat (ce_data_user_size e))"

definition client_inv :: "syncs_connect \<Rightarrow> bool" where
  "client_inv c \<longleftrightarrow> \<not> os_fault (cn_os c) \<and> (\<forall>i. event_buffer_ok (cn_events c i)) \<and>
     (\<forall>i. cn_events_queue c = Some i \<longrightarrow> i < SYNCS_EVENT_MAXIMUM \<and> ce_data (cn_events c i) \<noteq> None) \<and>
     cn_read_size c \<le> SYNCS_VARIABLE_SIZE_MAXIMUM \<and>
     l_info (cn_eventlist c) = None \<and> l_info (cn_clientlist c) = None \<and> l_info (cn_channellist c) = None \<and>
     \<not> cn_ticket_wait c \<and> cn_ticket_data c = \<lparr>t_ip = 0, t_port = 0, t_flags = 0\<rparr>"

lemma client_inv_io: "only_io c c' \<Longrightarrow> client_inv c \<Longrightarrow> client_inv c'"
proof -
  assume io: "only_io c c'" and inv: "client_inv c"
  obtain w where "c' = c\<lparr>cn_os := w\<rparr>" "os_fault w = os_fault (cn_os c)" using io by (auto simp: only_io_def)
  then show "client_inv c'" using inv by (simp add: client_inv_def)
qed

lemma client_inv_simps [simp]:
  "client_inv (c\<lparr>cn_buffer := m\<rparr>) = client_inv c" "client_inv (c\<lparr>cn_ready := b\<rparr>) = client_inv c" "client_inv (c\<lparr>cn_socketfd := k\<rparr>) = client_inv c"
  "client_inv (c\<lparr>cn_usocketfd := k\<rparr>) = client_inv c" "client_inv (c\<lparr>cn_saddr := a\<rparr>) = client_inv c" "client_inv (c\<lparr>cn_connect_wait := b\<rparr>) = client_inv c"
  "client_inv (c\<lparr>cn_connect_cb_status := n\<rparr>) = client_inv c" "client_inv (c\<lparr>cn_server_id := x\<rparr>) = client_inv c" "client_inv (c\<lparr>cn_onexit := b\<rparr>) = client_inv c"
  "client_inv (c\<lparr>cn_read_wait := b\<rparr>) = client_inv c" "client_inv (c\<lparr>cn_read_id := x\<rparr>) = client_inv c" "client_inv (c\<lparr>cn_read_data := m\<rparr>) = client_inv c"
  "client_inv (c\<lparr>cn_ticket_id := x\<rparr>) = client_inv c" "client_inv (c\<lparr>cn_event_wait := b\<rparr>) = client_inv c"
  by (simp_all add: client_inv_def)

lemma client_inv_upd_ce:
  assumes "client_inv c" "event_buffer_ok (f (cn_events c i))" "ce_data (cn_events c i) \<noteq> None \<Longrightarrow> ce_data (f (cn_events c i)) \<noteq> None"
  shows "client_inv (upd_ce i f c)"
  using assms by (auto simp: client_inv_def upd_ce_def)

lemma event_ok_client: "client_inv c \<Longrightarrow> event_buffer_ok (cn_events c i)"
  by (simp add: client_inv_def)

section \<open>Receiving keeps the invariant\<close>

context client_callbacks
begin

lemma process_event_inv:
  assumes inv: "client_inv s" and small: "unat (h_data_size (p_header packet)) \<le> SYNCS_VARIABLE_SIZE_MAXIMUM"
  shows "client_inv (syncs_process_event call packet s)"
proof (cases "syncs_find_event_conn s (h_id (p_header packet))")
  case (Some i)
  let ?n = "h_data_size (p_header packet)"
  obtain t where t: "only_io s t" and eq: "syncs_process_event call packet s =
    upd_ce i (\<lambda>e. e\<lparr>ce_update_counter := h_update_counter (p_header packet)\<rparr>)
      (case ce_data (cn_events s i) of None \<Rightarrow> t
       | Some m \<Rightarrow> (upd_ce i (\<lambda>e. e\<lparr>ce_data := Some (mem_put 0 (mem_read (p_buffer packet) 0 (unat ?n)) m), ce_data_size := ucast ?n\<rparr>)
           (cn_fault (unat ?n > unat (ce_data_user_size (cn_events s i))) t))\<lparr>cn_events_queue := Some i, cn_event_wait := False\<rparr>)"
    using process_event_found [OF Some] by blast
  note it = client_inv_io [OF t inv]
  have size: "unat (ucast ?n :: u32) = unat ?n" by (simp add: unat_ucast_le)
  show ?thesis
  proof (cases "ce_data (cn_events s i)")
    case None
    then show ?thesis using it event_ok_client [OF it, of i] by (simp add: eq) (auto intro!: client_inv_upd_ce simp: event_buffer_ok_def)
  next
    case (Some m)
    have ok: "event_buffer_ok (cn_events s i)" by (rule event_ok_client [OF inv])
    then have fits: "\<not> unat ?n > unat (ce_data_user_size (cn_events s i))" using Some small by (auto simp: event_buffer_ok_def)
    have one: "client_inv (upd_ce i (\<lambda>e. e\<lparr>ce_data := Some d, ce_data_size := ucast ?n\<rparr>) t)" for d
      using ok small Some only_ioD(1) [OF t] by (intro client_inv_upd_ce [OF it]) (auto simp: event_buffer_ok_def size)
    have two: "client_inv (u\<lparr>cn_events_queue := Some i, cn_event_wait := b\<rparr>)" if "client_inv u" "ce_data (cn_events u i) \<noteq> None" for u b
      using that find_event_conn_Some [OF \<open>syncs_find_event_conn s (h_id (p_header packet)) = Some i\<close>] by (simp add: client_inv_def)
    have three: "client_inv (upd_ce i (\<lambda>e. e\<lparr>ce_update_counter := c\<rparr>) u)" if "client_inv u" for u c
      using event_ok_client [OF that, of i] by (intro client_inv_upd_ce [OF that]) (auto simp: event_buffer_ok_def)
    show ?thesis using fits by (auto simp: eq Some intro!: three two one)
  qed
qed (simp add: process_event_other inv)

lemma process_error_inv: "client_inv s \<Longrightarrow> client_inv (syncs_process_error packet s)"
  by (simp add: syncs_process_error_def Let_def client_inv_io [OF send_id_io])

lemma process_packet_inv:
  assumes inv: "client_inv s" and small: "unat (h_data_size (p_header packet)) \<le> SYNCS_VARIABLE_SIZE_MAXIMUM"
  shows "client_inv (syncs_process_packet call packet s)"
proof -
  have channel: "syncs_channel_process_packet packet s = s"
    using inv by (simp add: syncs_channel_process_packet_def client_inv_def)
  have pages: "process_list_page esz cap packet (cn_eventlist s) = (cn_eventlist s, False)"
    "process_list_page esz cap packet (cn_clientlist s) = (cn_clientlist s, False)"
    "process_list_page esz cap packet (cn_channellist s) = (cn_channellist s, False)" for esz cap
    using inv by (simp_all add: process_list_page_def client_inv_def)
  have answer: "client_inv (s\<lparr>cn_read_size := unat (h_data_size (p_header packet)), cn_read_data := m, cn_read_wait := b\<rparr>)" for m b
    using inv small by (simp add: client_inv_def)
  have fits: "\<not> unat (h_data_size (p_header packet)) > SYNCS_VARIABLE_SIZE_MAXIMUM" using small by simp
  show ?thesis
    unfolding syncs_process_packet_def Let_def pages channel
    using inv answer fits by (auto simp: process_event_inv [OF inv small] intro!: process_error_inv)
qed

lemma rx_loop_inv: "cn_rx_loop call recv head s = (n, t) \<Longrightarrow> client_inv s \<Longrightarrow> client_inv t"
proof (induction "recv - head" arbitrary: head s n t rule: less_induct)
  case less
  let ?s = "cn_mask_size head s"
  have masked: "client_inv ?s" using less.prems(2) by (simp add: cn_mask_size_def)
  have packet: "client_inv (syncs_process_packet call (packet_at (cn_buffer ?s) head) ?s)"
    using cn_mask_size_le [of head s] by (intro process_packet_inv [OF masked]) (simp add: packet_at_def cn_header_def)
  have IH: "client_inv t" if "cn_rx_loop call recv k u = (n, t)" "recv \<ge> head + sizeof_syncs_header" "k > head" "client_inv u" for k u
    using less.hyps [of k u n t] that by simp
  show ?case
    using less.prems IH [of "head + 1" s] IH [OF _ _ _ packet] masked
    by (subst (asm) cn_rx_loop.simps) (auto simp: Let_def not_less split: if_splits)
qed

lemma received_inv:
  assumes "client_inv s" "snd r \<le> SYNCS_CLIENT_BUFFER_SIZE"
  shows "client_inv (received call r s)"
proof (cases "fst r")
  case (Client_recv bytes)
  let ?b = "take (SYNCS_CLIENT_BUFFER_SIZE - snd r) bytes"
  let ?s = "s\<lparr>cn_buffer := mem_put (snd r) ?b (cn_buffer s)\<rparr>"
  have room: "\<not> snd r + length ?b > SYNCS_CLIENT_BUFFER_SIZE" using assms(2) by simp
  obtain n t where l: "cn_rx_loop call (snd r + length ?b) 0 ?s = (n, t)" by fastforce
  have "client_inv t" using rx_loop_inv [OF l] assms(1) by simp
  then show ?thesis
    using assms(1) room
    unfolding received_def syncs_recv_round_def Client_recv client_recv.case Let_def by (simp add: l del: length_take)
qed (simp add: received_def syncs_recv_round_def assms)

lemma received_all_inv: "\<forall>r\<in>set rs. snd r \<le> SYNCS_CLIENT_BUFFER_SIZE \<Longrightarrow> client_inv s \<Longrightarrow> client_inv (fold (received call) rs s)"
  by (induction rs arbitrary: s) (simp_all add: received_inv)

lemma udprecv_round_inv: "client_inv s \<Longrightarrow> client_inv (snd (syncs_udprecv_round call r s))"
proof (cases r)
  case (Client_recv bytes)
  assume inv: "client_inv s"
  have "client_inv (syncs_process_packet call (packet_at (cn_buffer (cn_mask_size 0 u)) 0) (cn_mask_size 0 u))" if "client_inv u" for u
    using that cn_mask_size_le [of 0 u] by (intro process_packet_inv) (simp_all add: packet_at_def cn_header_def cn_mask_size_def)
  then show ?thesis using inv by (simp add: syncs_udprecv_round_def Client_recv Let_def)
qed (simp add: syncs_udprecv_round_def)

end

section \<open>Calls keep the invariant\<close>

lemma inv_send: "client_inv s \<Longrightarrow> client_inv (snd (syncs_connect_send b s))"
  by (rule client_inv_io [OF connect_send_io])

lemma inv_fault: "client_inv s \<Longrightarrow> \<not> b \<Longrightarrow> client_inv (cn_fault b s)"
  by simp

lemma type_size_bound: "unat (syncs_get_size_by_type flags) \<le> SYNCS_EVENT_DATA_SIZE_MAXIMUM"
  by (simp add: syncs_get_size_by_type_def Let_def)

lemma cn_write_inv:
  assumes "client_inv s" "unat n \<le> SYNCS_EVENT_DATA_SIZE_MAXIMUM"
  shows "client_inv (snd (syncs_write flags cid data n s))"
  using assms type_size_bound [of flags]
  by (auto simp: syncs_write_def Let_def not_less intro!: inv_send inv_fault split: option.split)

lemma register_event_inv:
  assumes "client_inv s"
  shows "client_inv (snd (register_event i flags cid s))"
proof -
  have "client_inv (upd_ce i (\<lambda>e. e\<lparr>ce_flags := flags, ce_id := syncs_idstr cid\<rparr>) s)"
    using event_ok_client [OF assms, of i] by (intro client_inv_upd_ce [OF assms]) (auto simp: event_buffer_ok_def)
  then show ?thesis by (simp add: register_event_def Let_def client_inv_io [OF requests_io(1)])
qed

lemma subscribe_inv:
  assumes "client_inv s"
  shows "client_inv (snd (syncs_subscribe_event flags cid cb args s))"
    "SYNCS_VARIABLE_SIZE_MAXIMUM \<le> unat n \<Longrightarrow> client_inv (snd (syncs_subscribe_event_sync_user flags cid (Some m) n s))"
    "client_inv (snd (syncs_subscribe_event_sync (Some m) flags cid s))"
  using assms event_ok_client [OF assms]
  by (auto simp: syncs_subscribe_event_def syncs_subscribe_event_sync_user_def syncs_subscribe_event_sync_def event_buffer_ok_def
      intro!: register_event_inv client_inv_upd_ce split: option.split)

lemma unsubscribe_inv: "client_inv s \<Longrightarrow> client_inv (syncs_unsubscribe_event cid s)"
proof (cases "syncs_find_event_conn s (syncs_idstr cid)")
  case (Some i)
  assume "client_inv s"
  then have inv: "client_inv (syncs_client_send_unsubscribe x flags s)" for x flags by (rule client_inv_io [OF requests_io(2)])
  show ?thesis
    using event_ok_client [OF inv] by (auto simp: syncs_unsubscribe_event_def Some event_buffer_ok_def intro!: client_inv_upd_ce inv)
qed (simp add: syncs_unsubscribe_event_def)

lemma channel_anons_inv:
  assumes "client_inv s" "syncs_find_free_channel s \<noteq> None"
  shows "client_inv (snd (syncs_channel_anons cid flags port s))"
proof -
  have "client_inv (upd_cc i f s)" for i f using assms(1) by (simp add: client_inv_def upd_cc_def)
  then show ?thesis using assms(2) by (auto simp: syncs_channel_anons_def Let_def client_inv_io [OF requests_io(4)])
qed

lemma request_empty:
  assumes "client_inv s" "0 \<le> cn_socketfd s"
  shows "syncs_channel_request inet_addr during cid s = (0, Some \<lparr>t_ip = 0, t_port = 0, t_flags = 0\<rparr>, snd (snd (syncs_channel_request inet_addr during cid s)))"
    "client_inv (snd (snd (syncs_channel_request inet_addr during cid s)))"
    "\<exists>x. only_io (s\<lparr>cn_ticket_id := x\<rparr>) (snd (snd (syncs_channel_request inet_addr during cid s)))"
proof -
  let ?h = "syncs_fill_header_request_str cid (SYNCS_TYPE_CHANNEL OR SYNCS_CHANNEL_REQUEST) (p_header (os_stack (cn_os s)))"
  let ?t = "snd (syncs_connect_send (header_bytes ?h) (s\<lparr>cn_ticket_id := h_id ?h\<rparr>))"
  have inv: "client_inv ?t" using assms(1) by (simp add: inv_send)
  then have "syncs_channel_request inet_addr during cid s = (0, Some \<lparr>t_ip = 0, t_port = 0, t_flags = 0\<rparr>, ?t)"
    using assms(2) by (simp add: syncs_channel_request_def Let_def client_inv_def)
  then show "syncs_channel_request inet_addr during cid s = (0, Some \<lparr>t_ip = 0, t_port = 0, t_flags = 0\<rparr>, snd (snd (syncs_channel_request inet_addr during cid s)))"
    "client_inv (snd (snd (syncs_channel_request inet_addr during cid s)))"
    "\<exists>x. only_io (s\<lparr>cn_ticket_id := x\<rparr>) (snd (snd (syncs_channel_request inet_addr during cid s)))"
    using inv connect_send_io by auto
qed

lemma read_inv:
  assumes "client_inv s" and during: "\<And>t. client_inv t \<Longrightarrow> client_inv (during t)"
  shows "client_inv (snd (snd (snd (syncs_read during flags cid n s))))"
  using assms(1) by (simp add: syncs_read_def Let_def during inv_send)

lemma take_event_inv:
  assumes "client_inv s" "cn_events_queue s = Some i"
  shows "client_inv (snd (take_event i n s))"
  using assms by (auto simp: take_event_def Let_def client_inv_def)

lemma wait_event_inv:
  assumes "client_inv s" and during: "\<And>t. client_inv t \<Longrightarrow> client_inv (during t)"
  shows "client_inv (snd (syncs_wait_event during n s))"
  using assms by (auto simp: syncs_wait_event_def Let_def take_event_inv split: option.split)

section \<open>Every reachable state\<close>

lemma create_inv:
  assumes "syncs_connect_create True addr port cid cb arg w = Some s" "\<not> os_fault w"
  shows "client_inv s"
proof -
  obtain a p x where s: "s = (syncs_connect_structure_init (calloc_connect w))
      \<lparr>cn_addr := a, cn_port := p, cn_id := x, cn_connect_cb := cb, cn_connect_arg := arg\<rparr>"
    by (rule connect_create_eq [OF assms(1)])
  show ?thesis using assms(2)
    by (simp add: client_inv_def event_buffer_ok_def s connect_init_eq calloc_connect_def zero_list_def Let_def)
qed

context client_callbacks
begin

lemma api_inv:
  assumes inv: "client_inv s" and ok: "client_allowed a s"
  shows "client_inv (run_client_api call inet_addr a s)"
proof (cases a)
  case (Cl_channel_request cid)
  show ?thesis
  proof (cases "cn_socketfd s < 0")
    case True
    then show ?thesis using inv by (simp add: run_client_api_def Cl_channel_request syncs_channel_request_def)
  qed (use request_empty(2) [OF inv] in \<open>simp add: run_client_api_def Cl_channel_request\<close>)
next
  case (Cl_read flags cid n rs)
  then show ?thesis using ok by (auto simp: run_client_api_def intro!: read_inv [OF inv] received_all_inv)
next
  case (Cl_wait_event n rs)
  then show ?thesis using ok by (auto simp: run_client_api_def intro!: wait_event_inv [OF inv] received_all_inv)
qed (use ok in \<open>simp_all add: run_client_api_def cn_write_inv [OF inv] subscribe_inv [OF inv] unsubscribe_inv [OF inv]
    channel_anons_inv [OF inv] client_inv_io [OF requests_io(5) inv] client_inv_io [OF requests_io(6) inv]\<close>)

lemma step_inv: "client_step call inet_addr s t \<Longrightarrow> client_inv s \<Longrightarrow> client_inv t"
proof (induction rule: client_step.induct)
  case (opens r s fd w)
  then have "os_fault w = os_fault (cn_os s)" by (auto simp: open_defs close_fd_def split: if_splits)
  then show ?case using opens.prems by (simp add: client_inv_def)
next
  case (udp_opens r s fd a w)
  then have "os_fault w = os_fault (cn_os s)" by (auto simp: open_defs close_fd_def split: if_splits)
  then show ?case using udp_opens.prems by (simp add: client_inv_def)
next
  case (sets s fd k)
  then show ?case by (simp add: client_inv_def upd_cn_os_def)
next
  case (starts s)
  then show ?case by (simp add: syncs_recv_start_def Let_def client_inv_io [OF send_id_io])
next
  case (udp_starts s)
  then show ?case by (simp add: syncs_udprecv_start_def client_inv_io [OF send_id_io])
qed (simp_all add: received_inv udprecv_round_inv api_inv)

lemma reachable_inv: "client_reachable call inet_addr s \<Longrightarrow> client_inv s"
  by (induction rule: client_reachable.induct) (auto intro: create_inv step_inv)

end


text \<open>A client that is created and then connects on descriptor 5.\<close>

definition opened_client :: "(byte list \<Rightarrow> u32) \<Rightarrow> syncs_connect" where
  "opened_client inet_addr =
     (let c = the (syncs_connect_create True (Some (cstr ''127.0.0.1'')) 4444 (Some (cstr ''c'')) None 0 idle_os);
          (fd, w) = syncs_tcpclient_open inet_addr \<lparr>sys_socket = 5, sys_bind = True, sys_listen = True, sys_connect = True\<rparr>
            (Some (cn_addr c)) (cn_port c) (cn_os c)
      in c\<lparr>cn_socketfd := fd, cn_os := w\<rparr>)"

lemma opened_client_reachable: "client_reachable call inet_addr (opened_client inet_addr)"
proof -
  let ?c = "the (syncs_connect_create True (Some (cstr ''127.0.0.1'')) 4444 (Some (cstr ''c'')) None 0 idle_os)"
  have new: "client_reachable call inet_addr ?c"
    by (rule client_reachable.new [of "Some (cstr ''127.0.0.1'')" 4444 "Some (cstr ''c'')" None 0 idle_os])
      (simp_all add: syncs_connect_create_def idle_os_def Let_def)
  show ?thesis
    unfolding opened_client_def Let_def
    by (split prod.split, intro allI impI, rule client_reachable.moves [OF new client_step.opens])
qed

lemma opened_client_socketfd: "cn_socketfd (opened_client inet_addr) = 5"
  by (simp add: opened_client_def syncs_tcpclient_open_def Let_def)




end
