(* ===== verification/Sync_Time.thy ===== *)
theory Sync_Time
  imports Server_Events Client_Recv
begin

text \<open>
  Events with a time: the server stamps an event with its clock plus an offset (\<open>syncs_sync_calculate\<close>), and every client waits
  (\<open>syncs_wait_sync\<close>) until its own clock has reached the stamp, so that subscribers with synchronised clocks handle the
  event together.
\<close>

text \<open>A \<open>timespec\<close> in nanoseconds, and one as \<open>clock_gettime\<close> returns it.\<close>

definition nanos :: "int \<times> int \<Rightarrow> int" where
  "nanos t = fst t * 1000000000 + snd t"

definition timespec_ok :: "int \<times> int \<Rightarrow> bool" where
  "timespec_ok t \<longleftrightarrow> 0 \<le> fst t \<and> fst t < 2 ^ 32 - 1 \<and> 0 \<le> snd t \<and> snd t < 1000000000"

definition sync_nanos :: "syncdata \<Rightarrow> int" where
  "sync_nanos sync = nanos (uint (data0 sync), uint (data1 sync))"

text \<open>The stamp is the server's clock plus the offset, in seconds and nanoseconds with at most one whole second in the latter.\<close>

lemma sync_calculate:
  assumes "timespec_ok (os_now w)" "0 \<le> ms" "ms \<le> 1000"
  defines "sync \<equiv> syncs_sync_calculate 0 ms w"
  shows "sync_nanos sync = nanos (os_now w) + ms * 1000000" "uint (data1 sync) \<le> 1000000000"
proof -
  have w: "0 \<le> fst (os_now w)" "fst (os_now w) < 2 ^ 32 - 1" "0 \<le> snd (os_now w)" "snd (os_now w) < 1000000000"
    using assms(1) by (simp_all add: timespec_ok_def)
  have small: "uint (word_of_int k :: u32) = k" if "0 \<le> k" "k < 2 ^ 32" for k
    using that by (simp add: uint_word_of_int_eq take_bit_int_eq_self)
  define n where "n = snd (os_now w) + ms * 1000000"
  define a b where "a = (if n > 1000000000 then fst (os_now w) + 1 else fst (os_now w))"
    and "b = (if n > 1000000000 then n - 1000000000 else n)"
  have sync: "data0 sync = word_of_int a" "data1 sync = word_of_int b"
    by (auto simp: sync_def syncs_sync_calculate_def Let_def n_def a_def b_def)
  have "0 \<le> a" "a < 2 ^ 32" "0 \<le> b" "b \<le> 1000000000" and eq: "a * 1000000000 + b = nanos (os_now w) + ms * 1000000"
    using w assms(2,3) by (auto simp: a_def b_def n_def nanos_def)
  then show "sync_nanos sync = nanos (os_now w) + ms * 1000000" "uint (data1 sync) \<le> 1000000000"
    using eq by (simp_all add: sync_nanos_def nanos_def sync small)
qed

text \<open>One reading: the wait ends only when the stamp is reached, and otherwise the sleep is what is left.\<close>

lemma sync_reading:
  assumes "timespec_ok t" "uint (data1 sync) \<le> 1000000000" "sync_nanos sync \<le> nanos t + 1000000000"
  defines "sec \<equiv> uint (data0 sync) - fst t" and "nsec \<equiv> uint (data1 sync) - snd t"
  shows "sec < 0 \<or> sec = 0 \<and> nsec < 0 \<or> sec > 1 \<Longrightarrow> sync_nanos sync \<le> nanos t"
    and "nanos t > sync_nanos sync \<Longrightarrow> sec < 0 \<or> sec = 0 \<and> nsec < 0"
    and "nanos (sec, nsec) = sync_nanos sync - nanos t"
    and "nanos (sec - 1, nsec + 1000000000) = sync_nanos sync - nanos t"
proof -
  define a b where "a = uint (data0 sync)" and "b = uint (data1 sync)"
  have "0 \<le> snd t" "snd t < 1000000000" "0 \<le> b" "b \<le> 1000000000" using assms(1,2) by (simp_all add: timespec_ok_def b_def)
  moreover have "a * 1000000000 + b \<le> fst t * 1000000000 + snd t + 1000000000"
    using assms(3) by (simp add: sync_nanos_def nanos_def a_def b_def)
  ultimately show "sec < 0 \<or> sec = 0 \<and> nsec < 0 \<or> sec > 1 \<Longrightarrow> sync_nanos sync \<le> nanos t"
    "nanos t > sync_nanos sync \<Longrightarrow> sec < 0 \<or> sec = 0 \<and> nsec < 0"
    "nanos (sec, nsec) = sync_nanos sync - nanos t" "nanos (sec - 1, nsec + 1000000000) = sync_nanos sync - nanos t"
    unfolding sec_def nsec_def sync_nanos_def nanos_def a_def [symmetric] b_def [symmetric] by auto
qed

lemma wait_sync:
  assumes "\<And>t. t \<in> set clock \<Longrightarrow> timespec_ok t \<and> sync_nanos sync \<le> nanos t + 1000000000" "uint (data1 sync) \<le> 1000000000"
    and "syncs_wait_sync sync clock = (sleeps, at)"
  shows "(\<forall>t. at = Some t \<longrightarrow> t \<in> set clock \<and> sync_nanos sync \<le> nanos t) \<and>
    ((\<exists>t\<in>set clock. nanos t > sync_nanos sync) \<longrightarrow> at \<noteq> None) \<and>
    (\<forall>d\<in>set sleeps. 0 < nanos d \<and> (\<exists>t\<in>set clock. nanos t + nanos d = sync_nanos sync))"
  using assms(1,3)
proof (induction clock arbitrary: sleeps at)
  case (Cons t clock)
  define sec nsec where "sec = uint (data0 sync) - fst t" and "nsec = uint (data1 sync) - snd t"
  have t: "timespec_ok t" "sync_nanos sync \<le> nanos t + 1000000000" using Cons.prems(1) by simp_all
  note r = sync_reading [OF t(1) assms(2) t(2), folded sec_def nsec_def]
  obtain sleeps' at' where rec: "syncs_wait_sync sync clock = (sleeps', at')" by fastforce
  note IH = Cons.IH [OF Cons.prems(1) rec, simplified]
  show ?case
  proof (cases "sec < 0 \<or> sec = 0 \<and> nsec < 0 \<or> sec > 1")
    case True
    then have "sleeps = [] \<and> at = Some t" using Cons.prems(2) by (auto simp: Let_def sec_def nsec_def)
    then show ?thesis using r(1) True by simp
  next
    case False
    define d where "d = (if nsec < 0 then (sec - 1, nsec + 1000000000) else (sec, nsec))"
    have at: "at = at'" and sl: "sleeps = (if fst d > 0 \<or> snd d > 1000000 then d # sleeps' else sleeps')"
      using Cons.prems(2) False rec by (auto simp: Let_def sec_def [symmetric] nsec_def [symmetric] d_def split: if_splits)
    have "- 1000000000 < nsec" using t(1) uint_ge_0 [of "data1 sync"] unfolding nsec_def timespec_ok_def by linarith
    then have "0 \<le> fst d \<and> 0 \<le> snd d" using False by (auto simp: d_def)
    then have "fst d > 0 \<or> snd d > 1000000 \<longrightarrow> 0 < nanos d" by (auto simp: nanos_def)
    moreover have "nanos t + nanos d = sync_nanos sync" using r(3,4) by (auto simp: d_def)
    moreover have "\<not> nanos t > sync_nanos sync" using r(2) False by blast
    ultimately show ?thesis using IH unfolding at sl by auto
  qed
qed auto

text \<open>
  C18: Subscribers release a timed event together. The server stamps the event with its clock plus the offset of at most one second. A
  client whose clock is not behind the clock of the server never returns from \<open>syncs_wait_sync\<close> before its clock has reached
  the stamp, returns as soon as a reading is later than the stamp, and every interval it sleeps ends exactly at the stamp.
\<close>

theorem sync_release:
  assumes "timespec_ok (os_now w)" "0 \<le> ms" "ms \<le> 1000"
    and "\<forall>t\<in>set clock. timespec_ok t \<and> nanos (os_now w) \<le> nanos t"
    and "syncs_wait_sync (syncs_sync_calculate 0 ms w) clock = (sleeps, at)"
  defines "stamp \<equiv> nanos (os_now w) + ms * 1000000"
  shows "(\<forall>t. at = Some t \<longrightarrow> t \<in> set clock \<and> stamp \<le> nanos t) \<and>
    ((\<exists>t\<in>set clock. nanos t > stamp) \<longrightarrow> at \<noteq> None) \<and>
    (\<forall>d\<in>set sleeps. 0 < nanos d \<and> (\<exists>t\<in>set clock. nanos t + nanos d = stamp))"
  unfolding stamp_def sync_calculate(1) [OF assms(1-3), symmetric]
proof (rule wait_sync [OF _ sync_calculate(2) [OF assms(1-3)] assms(5)])
  fix t assume "t \<in> set clock"
  with assms(4) have "timespec_ok t" "nanos (os_now w) \<le> nanos t" by auto
  then show "timespec_ok t \<and> sync_nanos (syncs_sync_calculate 0 ms w) \<le> nanos t + 1000000000"
    unfolding sync_calculate(1) [OF assms(1-3)] using assms(3) by simp
qed

theorem sync_release_witness:
  "\<exists>sleeps. syncs_wait_sync (syncs_sync_calculate 0 100 (idle_os\<lparr>os_now := (5, 950000000)\<rparr>)) [(5, 960000000), (6, 50000001)]
     = (sleeps, Some (6, 50000001)) \<and> (\<forall>d\<in>set sleeps. \<exists>t\<in>{(5, 960000000), (6, 50000001)}. nanos t + nanos d = 6050000000)"
proof -
  let ?w = "idle_os\<lparr>os_now := (5, 950000000)\<rparr>" and ?clock = "[(5, 960000000), (6, 50000001)] :: (int \<times> int) list"
  obtain sleeps at where r: "syncs_wait_sync (syncs_sync_calculate 0 100 ?w) ?clock = (sleeps, at)" by fastforce
  note main = sync_release [of ?w 100 ?clock, OF _ _ _ _ r, simplified]
  have "at \<noteq> None" "\<And>t. at = Some t \<Longrightarrow> t \<in> set ?clock \<and> 6050000000 \<le> nanos t"
    "\<forall>d\<in>set sleeps. \<exists>t\<in>set ?clock. nanos t + nanos d = 6050000000"
    using main by (auto simp: timespec_ok_def nanos_def)
  then show ?thesis using r by (auto simp: nanos_def)
qed

end
