(* ===== verification/Client_Subs.thy ===== *)
theory Client_Subs
  imports Client_Events
begin

unbundle bit_operations_syntax

text \<open>
  The client's table of subscriptions. An entry is searched by name when the application subscribes and by id when an
  event arrives or the application unsubscribes. For names of at most 31 characters the two searches
  agree and the table behaves like a finite map from names to subscriptions; for longer names they do not.
\<close>

section \<open>Names and ids\<close>

text \<open>An id that \<open>syncs_idstr\<close> makes: nothing but zeros after the name.\<close>

definition canonical :: "syncsid \<Rightarrow> bool" where
  "canonical x \<longleftrightarrow> syncs_idstr (id_bytes x) = x"

lemma canonical_idstr [simp]: "canonical (syncs_idstr b)"
  by (simp add: canonical_def c_str_id_bytes_idstr idstr_cong [of "id_bytes (syncs_idstr b)" b])

lemma idstr_eq_iff: "syncs_idstr a = syncs_idstr b \<longleftrightarrow> take 31 (c_str a) = take 31 (c_str b)"
  using c_str_id_bytes_idstr [of a] c_str_id_bytes_idstr [of b] by (auto intro: idstr_cong)

lemma idcmp_str_canonical:
  assumes "canonical x" "length (c_str b) \<le> 31"
  shows "syncs_idcmp_str x b \<longleftrightarrow> x = syncs_idstr b"
  using idcmp_str_idstr [of "id_bytes x" b] idstr_eq_iff [of "id_bytes x" b] assms by (auto simp: canonical_def)

lemma id_i0_bytes: "id_i0 x = le_word (take 8 (id_bytes x))"
  by (simp add: id_bytes_def le_word_le_bytes)

lemma le_bytes_minus_1: "le_bytes 8 (-1 :: u64) = replicate 8 255"
proof (rule nth_equalityI)
  fix k :: nat
  assume "k < length (le_bytes 8 (-1 :: u64))"
  then have k: "k < 8" by simp
  have m: "(255 :: byte) = mask 8" by (simp add: mask_eq_exp_minus_1)
  have "ucast (drop_bit (8 * k) (-1 :: u64)) = (255 :: byte)"
    unfolding m by (rule bit_word_eqI) (use k in \<open>simp add: bit_simps\<close>)
  then show "le_bytes 8 (-1 :: u64) ! k = replicate 8 255 ! k" using k by (simp add: le_bytes_def)
qed simp

lemma dead_bytes: "\<not> live_id x \<Longrightarrow> take 8 (id_bytes x) = replicate 8 255"
  by (simp add: live_id_def id_bytes_def le_bytes_minus_1)

text \<open>A free entry is found under no name that makes a live id.\<close>

lemma idcmp_str_dead:
  assumes "\<not> live_id x" "live_id (syncs_idstr b)" "length (c_str b) \<le> 31"
  shows "\<not> syncs_idcmp_str x b"
proof
  assume "syncs_idcmp_str x b"
  then have "c_str (id_bytes x) = c_str b"
    using assms(3) c_str_prefix_iff [of "c_str b" "id_bytes x"] by (simp add: syncs_idcmp_str_def idcmp_str_loop_eq)
  moreover have "id_bytes x = replicate 8 255 @ drop 8 (id_bytes x)"
    using dead_bytes [OF assms(1)] by (metis append_take_drop_id)
  then have "c_str (id_bytes x) = replicate 8 255 @ c_str (drop 8 (id_bytes x))"
    unfolding c_str_def by (elim ssubst) (simp add: takeWhile_append)
  ultimately have b: "c_str b = replicate 8 255 @ c_str (drop 8 (id_bytes x))" by simp
  have "take 8 (id_bytes (syncs_idstr b)) = take 8 (c_str b)" by (simp add: id_bytes_idstr b)
  also have "\<dots> = take 8 (id_bytes x)" by (simp add: b dead_bytes [OF assms(1)])
  finally have "id_i0 (syncs_idstr b) = id_i0 x" by (simp add: id_i0_bytes)
  then show False using assms by (simp add: live_id_def)
qed

section \<open>The table\<close>

abbreviation ce_ids :: "syncs_connect \<Rightarrow> nat \<Rightarrow> syncsid" where
  "ce_ids s \<equiv> \<lambda>i. ce_id (cn_events s i)"

definition subs_ok :: "syncs_connect \<Rightarrow> bool" where
  "subs_ok s \<longleftrightarrow> unique_ids SYNCS_EVENT_MAXIMUM (ce_ids s) \<and>
     (\<forall>i<SYNCS_EVENT_MAXIMUM. live_id (ce_ids s i) \<longrightarrow> canonical (ce_ids s i))"

lemma find_event_conn_None: "syncs_find_event_conn s x = None \<longleftrightarrow> (\<forall>i<SYNCS_EVENT_MAXIMUM. ce_ids s i \<noteq> x)"
  by (simp add: syncs_find_event_conn_def first_slot_None)

lemma find_event_conn_live:
  assumes "subs_ok s" "live_id x"
  shows "syncs_find_event_conn s x = Some i \<longleftrightarrow> i < SYNCS_EVENT_MAXIMUM \<and> ce_ids s i = x"
proof
  assume "i < SYNCS_EVENT_MAXIMUM \<and> ce_ids s i = x"
  then show "syncs_find_event_conn s x = Some i"
    unfolding syncs_find_event_conn_def using assms
    by (intro first_slot_unique) (auto simp: subs_ok_def dest: unique_idsD)
qed (rule find_event_conn_Some)

lemma find_event_str_eq:
  assumes "subs_ok s" "live_id (syncs_idstr cid)" "length (c_str cid) \<le> 31"
  shows "syncs_find_event_str s cid = syncs_find_event_conn s (syncs_idstr cid)"
  unfolding syncs_find_event_str_def syncs_find_event_conn_def
proof (rule first_slot_cong)
  fix i :: nat
  assume "i < SYNCS_EVENT_MAXIMUM"
  then show "syncs_idcmp_str (ce_ids s i) cid = syncs_idcmp (ce_ids s i) (syncs_idstr cid)"
    using assms idcmp_str_dead [of "ce_ids s i" cid] idcmp_str_canonical [of "ce_ids s i" cid]
    by (cases "live_id (ce_ids s i)") (auto simp: subs_ok_def)
qed

lemma get_free_event_None: "syncs_get_free_event s = None \<longleftrightarrow> (\<forall>i<SYNCS_EVENT_MAXIMUM. live_id (ce_ids s i))"
  by (simp add: syncs_get_free_event_def first_slot_None live_id_def)

lemma get_free_event_Some: "syncs_get_free_event s = Some i \<Longrightarrow> i < SYNCS_EVENT_MAXIMUM \<and> \<not> live_id (ce_ids s i)"
  by (auto simp: syncs_get_free_event_def live_id_def dest: first_slot_SomeD)

text \<open>The entry a subscription gets: its own one, or else a free one.\<close>

lemma get_event_str_entry:
  assumes "subs_ok s" "live_id (syncs_idstr cid)" "length (c_str cid) \<le> 31" "syncs_get_event_str s cid = Some i"
  shows "i < SYNCS_EVENT_MAXIMUM \<and>
    (ce_ids s i = syncs_idstr cid \<or> \<not> live_id (ce_ids s i) \<and> syncs_find_event_conn s (syncs_idstr cid) = None)"
  using assms(4) find_event_str_eq [OF assms(1-3)] find_event_conn_Some get_free_event_Some
  by (auto simp: syncs_get_event_str_def split: option.splits)

section \<open>Subscribing\<close>

lemma register_event_eq:
  "fst (register_event i flags cid s) = 0"
  "cn_events (snd (register_event i flags cid s)) =
     (cn_events s)(i := (cn_events s i)\<lparr>ce_flags := flags, ce_id := syncs_idstr cid\<rparr>)"
  using only_ioD(1) [OF requests_io(1)] by (auto simp: register_event_def Let_def)

text \<open>Entry \<open>i\<close> is given to the name \<open>cid\<close>, whatever else of it changes.\<close>

lemma subs_ok_put:
  assumes ok: "subs_ok s" and i: "i < SYNCS_EVENT_MAXIMUM" and x: "live_id x" "canonical x"
    and e: "ce_ids s i = x \<or> \<not> live_id (ce_ids s i) \<and> syncs_find_event_conn s x = None"
    and t: "ce_ids t = (ce_ids s)(i := x)"
  shows "subs_ok t" "syncs_find_event_conn t x = Some i"
    "live_id y \<Longrightarrow> y \<noteq> x \<Longrightarrow> syncs_find_event_conn t y = syncs_find_event_conn s y"
proof -
  have "unique_ids SYNCS_EVENT_MAXIMUM ((ce_ids s)(i := x))"
  proof (cases "ce_ids s i = x")
    case True
    then have "(ce_ids s)(i := x) = ce_ids s" by auto
    then show ?thesis using ok by (simp add: subs_ok_def)
  next
    case False
    then show ?thesis using e ok by (intro unique_ids_new) (auto simp: subs_ok_def find_event_conn_None)
  qed
  then show ok': "subs_ok t" using ok x fun_cong [OF t] unfolding subs_ok_def t by (auto simp: fun_upd_def)
  show "syncs_find_event_conn t x = Some i"
    unfolding find_event_conn_live [OF ok' x(1)] using i fun_cong [OF t, of i] by simp
  assume y: "live_id y" "y \<noteq> x"
  then have "syncs_find_event_conn t y = Some j \<longleftrightarrow> syncs_find_event_conn s y = Some j" for j
    unfolding find_event_conn_live [OF ok' y(1)] find_event_conn_live [OF ok y(1)]
    using e fun_cong [OF t, of j] by (auto split: if_splits)
  then show "syncs_find_event_conn t y = syncs_find_event_conn s y" by (metis not_Some_eq)
qed

lemma unsubscribe_eq:
  "cn_events (syncs_unsubscribe_event cid s) =
     (case syncs_find_event_conn s (syncs_idstr cid) of None \<Rightarrow> cn_events s
      | Some i \<Rightarrow> (cn_events s)(i := (cn_events s i)\<lparr>ce_id := (ce_id (cn_events s i))\<lparr>id_i0 := -1\<rparr>\<rparr>))"
  using only_ioD(1) [OF requests_io(2)] by (auto simp: syncs_unsubscribe_event_def split: option.splits)

lemma unsubscribe_effect:
  assumes ok: "subs_ok s" and x: "live_id (syncs_idstr cid)"
  shows "subs_ok (syncs_unsubscribe_event cid s)" "syncs_find_event_conn (syncs_unsubscribe_event cid s) (syncs_idstr cid) = None"
    "live_id y \<Longrightarrow> y \<noteq> syncs_idstr cid \<Longrightarrow>
       syncs_find_event_conn (syncs_unsubscribe_event cid s) y = syncs_find_event_conn s y"
proof -
  let ?x = "syncs_idstr cid"
  let ?t = "syncs_unsubscribe_event cid s"
  have "subs_ok ?t \<and> syncs_find_event_conn ?t ?x = None \<and>
    (\<forall>y. live_id y \<longrightarrow> y \<noteq> ?x \<longrightarrow> syncs_find_event_conn ?t y = syncs_find_event_conn s y)"
  proof (cases "syncs_find_event_conn s ?x")
    case None
    then show ?thesis using ok by (simp add: syncs_unsubscribe_event_def)
  next
    case (Some i)
    note i = find_event_conn_Some [OF Some]
    have ids: "ce_ids ?t = (ce_ids s)(i := ?x\<lparr>id_i0 := -1\<rparr>)" using i by (auto simp: unsubscribe_eq Some)
    have dead: "\<not> live_id (?x\<lparr>id_i0 := -1\<rparr>)" by simp
    have ok': "subs_ok ?t"
      using ok unique_ids_dead [OF _ dead, of SYNCS_EVENT_MAXIMUM "ce_ids s" i] unfolding subs_ok_def ids
      by (simp add: fun_cong [OF ids])
    have "ce_ids ?t j \<noteq> ?x" if "j < SYNCS_EVENT_MAXIMUM" for j
    proof (cases "j = i")
      case False
      then show ?thesis
        using that x i ok unique_idsD [of SYNCS_EVENT_MAXIMUM "ce_ids s" j i] unfolding fun_cong [OF ids] subs_ok_def by auto
    qed (use x dead fun_cong [OF ids, of i] in \<open>metis fun_upd_same\<close>)
    then have "syncs_find_event_conn ?t ?x = None" by (simp add: find_event_conn_None)
    moreover have "syncs_find_event_conn ?t y = syncs_find_event_conn s y" if y: "live_id y" "y \<noteq> ?x" for y
    proof -
      have "syncs_find_event_conn ?t y = Some j \<longleftrightarrow> syncs_find_event_conn s y = Some j" for j
        unfolding find_event_conn_live [OF ok' y(1)] find_event_conn_live [OF ok y(1)] fun_cong [OF ids]
        using i y dead by auto
      then show ?thesis by (metis not_Some_eq)
    qed
    ultimately show ?thesis using ok' by blast
  qed
  then show "subs_ok ?t" "syncs_find_event_conn ?t ?x = None"
    "live_id y \<Longrightarrow> y \<noteq> ?x \<Longrightarrow> syncs_find_event_conn ?t y = syncs_find_event_conn s y" by auto
qed


lemma sample_connect_subs: "subs_ok sample_connect"
  by (auto simp: subs_ok_def unique_ids_def sample_connect_fields)


lemma c_head_hd: "b \<noteq> [] \<Longrightarrow> c_head b = hd b"
  by (cases b) (simp_all add: c_head_def)

text \<open>
  A name of more than 31 characters is subscribed twice. Subscribing again to such a name, which the comparison by name
  does not find, takes a second entry for the same id; events are delivered through the first entry, so the
  second callback is never called. (With a name of at most 31 characters the second callback replaces the first.)
\<close>

lemma long_name_keeps_first_callback:
  fixes flags flags' :: u32 and cb cb' :: "nat option" and args args' :: nat
  assumes long: "31 < length (c_str cid)"
    and none: "syncs_find_event_str s cid = None" "syncs_find_event_conn s (syncs_idstr cid) = None"
    and free: "i < j" "j < SYNCS_EVENT_MAXIMUM" "\<not> live_id (ce_ids s i)" "\<not> live_id (ce_ids s j)" "live_id (syncs_idstr cid)"
  defines "t \<equiv> snd (syncs_subscribe_event flags' cid cb' args' (snd (syncs_subscribe_event flags cid cb args s)))"
  shows "\<exists>k l. k \<noteq> l \<and> ce_ids t k = syncs_idstr cid \<and> ce_ids t l = syncs_idstr cid \<and>
    syncs_find_event_conn t (syncs_idstr cid) = Some k \<and> ce_cb (cn_events t k) = cb \<and> ce_cb (cn_events t l) = cb'"
proof -
  let ?x = "syncs_idstr cid"
  define u where "u = snd (syncs_subscribe_event flags cid cb args s)"
  obtain k where k: "syncs_get_free_event s = Some k" using free get_free_event_None [of s] by auto
  then have k_first: "k \<le> i" using free(3) unfolding syncs_get_free_event_def first_slot_Some live_id_def by (meson not_le)
  have ku: "cn_events u = (cn_events s)(k := (cn_events s k)\<lparr>ce_cb := cb, ce_args := args, ce_flags := flags, ce_id := ?x\<rparr>)"
    by (simp add: u_def syncs_subscribe_event_def syncs_get_event_str_def none(1) k register_event_eq)
  have "\<not> syncs_idcmp_str ?x cid" using long by (auto simp: idcmp_str_idstr dest: arg_cong [of _ _ length])
  then have nu: "syncs_find_event_str u cid = None"
    using none(1) by (auto simp: syncs_find_event_str_def first_slot_None ku)
  obtain l where l: "syncs_get_free_event u = Some l"
    using free k_first get_free_event_None [of u] by (auto simp: ku)
  have kl: "l \<noteq> k" using get_free_event_Some [OF l] free(5) by (auto simp: ku)
  have t: "t = snd (syncs_subscribe_event flags' cid cb' args' u)" by (simp add: t_def u_def)
  have kt: "cn_events t = (cn_events u)(l := (cn_events u l)\<lparr>ce_cb := cb', ce_args := args', ce_flags := flags', ce_id := ?x\<rparr>)"
    by (simp add: t syncs_subscribe_event_def syncs_get_event_str_def nu l register_event_eq)
  have live: "live_id (ce_ids s m)" if "m < k" for m
    using k that by (auto simp: syncs_get_free_event_def first_slot_Some live_id_def)
  have "k < l"
    using get_free_event_Some [OF l] live [of l] kl by (fastforce simp: ku dest: linorder_neqE_nat)
  then have "syncs_find_event_conn t ?x = Some k"
    using none(2) get_free_event_Some [OF k] by (auto simp: syncs_find_event_conn_def first_slot_Some first_slot_None kt ku)
  then show ?thesis using kl by (intro exI [of _ k] exI [of _ l]) (simp add: kt ku)
qed

end
