(* ===== verification/Config.thy ===== *)
theory Config
  imports Server_Api Client_Subs Discovery
begin

unbundle bit_operations_syntax

text \<open>
  The server program \<^verbatim>\<open>src/syncsserver/syncsserver.c\<close>: the server and the client it creates from a configuration file, and
  what \<open>main\<close> sets up before its endless loop.

  The file is read by the json-c library, whose functions are the fields of \<open>json_api\<close> over its objects \<open>'j\<close>; the parsed file is an
  argument, \<open>None\<close> when it cannot be read. Local variables that the code may use without having assigned them are arguments
  too. Next to its result the reader returns whether it did something C leaves undefined: using such a variable,
  taking the length of an array that is not there, or copying eight bytes from a variable of four.
\<close>

record 'j json_api =
  object_get_ex :: "'j \<Rightarrow> string \<Rightarrow> 'j option"
  object_get_string :: "'j \<Rightarrow> byte list"
  object_get_int :: "'j \<Rightarrow> int"
  array_length :: "'j \<Rightarrow> nat"
  array_get_idx :: "'j \<Rightarrow> nat \<Rightarrow> 'j option"

section \<open>One entry of the list of variables\<close>

text \<open>The chain of \<open>strcmp\<close>.\<close>

definition type_flags :: "byte list \<Rightarrow> u32" where
  "type_flags type_string =
     (let t = c_str type_string
      in if t = cstr ''empty'' then SYNCS_TYPE_VAR_EMPTY
         else if t = cstr ''int'' then SYNCS_TYPE_VAR_INT32
         else if t = cstr ''long'' then SYNCS_TYPE_VAR_INT64
         else if t = cstr ''float'' then SYNCS_TYPE_VAR_FLOAT
         else if t = cstr ''double'' then SYNCS_TYPE_VAR_DOUBLE
         else if t = cstr ''string'' then SYNCS_TYPE_VAR_STRING
         else if t = cstr ''struct'' then SYNCS_TYPE_VAR_STRUCTURE
         else if t = cstr ''any'' then SYNCS_TYPE_VAR_ANY
         else SYNCS_TYPE_VAR_NOT_DEFINED)"

text \<open>
  The call of \<open>syncs_server_define\<close> an entry leads to: name, flags, data and size; \<open>None\<close> when it leads to none. \<open>stack\<close> is what lies
  behind the local variable \<open>value_int\<close>.
\<close>

definition entry_call :: "'j json_api \<Rightarrow> mem \<Rightarrow> 'j option \<Rightarrow> (byte list \<times> u32 \<times> mem option \<times> u32) option" where
  "entry_call api stack variable =
     (case variable of None \<Rightarrow> None
      | Some v \<Rightarrow>
          (case object_get_ex api v ''name'' of None \<Rightarrow> None
           | Some name \<Rightarrow>
               (case object_get_ex api v ''type'' of None \<Rightarrow> None
                | Some type \<Rightarrow>
                    (let value = object_get_ex api v ''value'';
                         size_int = (case object_get_ex api v ''size'' of Some n \<Rightarrow> object_get_int api n | None \<Rightarrow> 0);
                         flags = type_flags (object_get_string api type);
                         name_string = object_get_string api name
                     in if flags = SYNCS_TYPE_VAR_INT32 \<or> flags = SYNCS_TYPE_VAR_INT64 then
                          (case value of None \<Rightarrow> None
                           | Some j \<Rightarrow> Some (name_string, flags,
                               Some (mem_put 0 (le_bytes 4 (of_int (object_get_int api j) :: u32)) stack), 8))
                        else if flags = SYNCS_TYPE_VAR_STRING then
                          (case value of None \<Rightarrow> None
                           | Some j \<Rightarrow>
                               (let value_string = c_str (object_get_string api j)
                                in Some (name_string, flags, Some (mem_of (value_string @ [0])), of_nat (length value_string))))
                        else Some (name_string, flags, None, of_int size_int)))))"

definition define_entry :: "(byte list \<times> u32 \<times> mem option \<times> u32) option \<Rightarrow> syncs_server \<Rightarrow> syncs_server" where
  "define_entry c s = (case c of None \<Rightarrow> s | Some (name, flags, data, n) \<Rightarrow> snd (syncs_server_define name flags data n s))"

text \<open>Whether an entry makes \<open>syncs_server_define\<close> read eight bytes of the four of \<open>value_int\<close>.\<close>

definition entry_overread :: "(byte list \<times> u32 \<times> mem option \<times> u32) option \<Rightarrow> bool" where
  "entry_overread c = (case c of None \<Rightarrow> False | Some (name, flags, data, n) \<Rightarrow> flags = SYNCS_TYPE_VAR_INT32 \<or> flags = SYNCS_TYPE_VAR_INT64)"

section \<open>The reader\<close>

definition config_string :: "'j json_api \<Rightarrow> 'j \<Rightarrow> string \<Rightarrow> byte list \<Rightarrow> byte list" where
  "config_string api j key junk = (case object_get_ex api j key of Some o' \<Rightarrow> object_get_string api o' | None \<Rightarrow> junk)"

definition config_int :: "'j json_api \<Rightarrow> 'j \<Rightarrow> string \<Rightarrow> int \<Rightarrow> int" where
  "config_int api j key junk = (case object_get_ex api j key of Some o' \<Rightarrow> object_get_int api o' | None \<Rightarrow> junk)"

definition config_lacks :: "'j json_api \<Rightarrow> 'j \<Rightarrow> string list \<Rightarrow> bool" where
  "config_lacks api j keys = list_ex (\<lambda>key. object_get_ex api j key = None) keys"

definition config_calls :: "'j json_api \<Rightarrow> mem \<Rightarrow> 'j \<Rightarrow> (byte list \<times> u32 \<times> mem option \<times> u32) option list" where
  "config_calls api stack vs = map (\<lambda>i. entry_call api stack (array_get_idx api vs i)) [0..<array_length api vs]"

definition syncs_json_server_init ::
    "'j json_api \<Rightarrow> 'j option \<Rightarrow> byte list \<Rightarrow> byte list \<Rightarrow> int \<Rightarrow> mem \<Rightarrow> bool \<Rightarrow> os \<Rightarrow> syncs_server option \<times> bool" where
  "syncs_json_server_init api parsed_json server_name server_address server_port stack allocated w =
     (case parsed_json of None \<Rightarrow> (None, False)
      | Some j \<Rightarrow>
          (let undefined = config_lacks api j [''server_name'', ''address'', ''port'']
           in case syncs_server_create allocated (Some (config_string api j ''address'' server_address))
                     (config_int api j ''port'' server_port) (Some (config_string api j ''server_name'' server_name)) w of
                None \<Rightarrow> (None, undefined)
              | Some s \<Rightarrow>
                  (let s = (case object_get_ex api j ''ssdp'' of Some ssdp \<Rightarrow> syncs_server_ssdp_create 1 s | None \<Rightarrow> s)
                   in case object_get_ex api j ''variables'' of
                        None \<Rightarrow> (Some s, True)
                      | Some vs \<Rightarrow>
                          (let calls = config_calls api stack vs
                           in (Some (fold define_entry calls s), undefined \<or> list_ex entry_overread calls)))))"

definition syncs_json_client_init ::
    "'j json_api \<Rightarrow> 'j option \<Rightarrow> byte list \<Rightarrow> byte list \<Rightarrow> int \<Rightarrow> bool \<Rightarrow> os \<Rightarrow> syncs_connect option \<times> bool" where
  "syncs_json_client_init api parsed_json client_name server_address server_port allocated w =
     (case parsed_json of None \<Rightarrow> (None, False)
      | Some j \<Rightarrow>
          (syncs_connect_simple allocated (Some (config_string api j ''address'' server_address))
             (config_int api j ''port'' server_port) (Some (config_string api j ''client_name'' client_name)) w,
           config_lacks api j [''client_name'', ''address'', ''port'']))"

text \<open>
  \<open>main\<close> from the two readers to its loop: the client subscribes with \<open>syncs_cb_mode\<close> and the server with \<open>syncs_cb_message\<close>, the
  callbacks 2 and 1. The last component tells whether one of them is NULL, which these calls do not expect.
\<close>

definition syncsserver_setup :: "syncs_server option \<Rightarrow> syncs_connect option \<Rightarrow> syncs_server option \<times> syncs_connect option \<times> bool" where
  "syncsserver_setup server client =
     (map_option (\<lambda>s. snd (syncs_server_subscribe_event SYNCS_TYPE_VAR_STRING (cstr ''message'') (Some 1) 0 s)) server,
      map_option (\<lambda>c. let c = snd (syncs_subscribe_event SYNCS_TYPE_VAR_INT32 (cstr ''mode'') (Some 2) 0 c)
                      in snd (syncs_subscribe_event SYNCS_TYPE_VAR_INT32 (cstr ''pause'') (Some 2) 0 c)) client,
      server = None \<or> client = None)"

section \<open>What the reader defines\<close>

text \<open>The calls of the entries that lead to one, with the ids they define.\<close>

definition made_calls :: "(byte list \<times> u32 \<times> mem option \<times> u32) option list \<Rightarrow> (byte list \<times> u32 \<times> mem option \<times> u32) list" where
  "made_calls cs = concat (map (\<lambda>c. case c of None \<Rightarrow> [] | Some x \<Rightarrow> [x]) cs)"

definition call_id :: "byte list \<times> u32 \<times> mem option \<times> u32 \<Rightarrow> syncsid" where
  "call_id c = syncs_idstr (fst c)"

text \<open>A variable as a call defines it: its type, the bytes it was given, or some bytes of its size.\<close>

definition defined_by :: "byte list \<times> u32 \<times> mem option \<times> u32 \<Rightarrow> (syncsid \<rightharpoonup> u32 \<times> byte list) \<Rightarrow> bool" where
  "defined_by c m = (case c of (name, flags, data, n) \<Rightarrow>
     \<exists>d. m (syncs_idstr name) = Some (flags AND SYNCS_TYPE_VAR_MASK, d) \<and> length d = unat (define_size flags n) \<and>
       (\<forall>p. data = Some p \<longrightarrow> d = mem_read p 0 (unat (define_size flags n))))"

lemma fold_define_entry:
  "fold define_entry cs s = fold (\<lambda>(name, flags, data, n) s. snd (syncs_server_define name flags data n s)) (made_calls cs) s"
  by (induction cs arbitrary: s) (auto simp: made_calls_def define_entry_def split: option.split)

lemma define_new:
  assumes inv: "server_inv s" and x: "live_id (syncs_idstr name)" "syncs_idstr name \<notin> dom (variables s)"
    and room: "card (dom (variables s)) < SYNCS_EVENT_MAXIMUM" and n: "unat n \<le> SYNCS_VARIABLE_SIZE_MAXIMUM"
  shows "\<exists>v. variables (snd (syncs_server_define name flags data n s)) = (variables s)(syncs_idstr name \<mapsto> v) \<and>
    defined_by (name, flags, data, n) [syncs_idstr name \<mapsto> v]"
proof -
  have "\<not> unat n > SYNCS_VARIABLE_SIZE_MAXIMUM" using n by simp
  then show ?thesis
    using add_event_effect(3) [OF inv x(1), of flags data n] x(2) room
    by (auto simp: syncs_server_define_def defined_by_def)
qed

lemma define_all:
  assumes "server_inv s" "distinct (map call_id cs)" "\<forall>c\<in>set cs. live_id (call_id c) \<and> unat (snd (snd (snd c))) \<le> SYNCS_VARIABLE_SIZE_MAXIMUM"
    "call_id ` set cs \<inter> dom (variables s) = {}" "card (dom (variables s)) + length cs \<le> SYNCS_EVENT_MAXIMUM"
  defines "t \<equiv> fold (\<lambda>(name, flags, data, n) s. snd (syncs_server_define name flags data n s)) cs s"
  shows "server_inv t \<and> dom (variables t) = dom (variables s) \<union> call_id ` set cs \<and>
    (\<forall>x\<in>dom (variables s). variables t x = variables s x) \<and> (\<forall>c\<in>set cs. defined_by c (variables t))"
  using assms(1-5) unfolding t_def
proof (induction cs arbitrary: s)
  case (Cons c cs)
  obtain name flags data n where c: "c = (name, flags, data, n)" by (cases c)
  let ?u = "snd (syncs_server_define name flags data n s)"
  let ?t = "fold (\<lambda>(name, flags, data, n) s. snd (syncs_server_define name flags data n s)) cs ?u"
  have x: "live_id (syncs_idstr name)" "syncs_idstr name \<notin> dom (variables s)" "card (dom (variables s)) < SYNCS_EVENT_MAXIMUM"
    "unat n \<le> SYNCS_VARIABLE_SIZE_MAXIMUM"
    using Cons.prems by (auto simp: c call_id_def)
  obtain v where v: "variables ?u = (variables s)(syncs_idstr name \<mapsto> v)" "defined_by c [syncs_idstr name \<mapsto> v]"
    using define_new [OF Cons.prems(1) x, of flags data] by (auto simp: c)
  have ci: "call_id c = syncs_idstr name" by (simp add: c call_id_def)
  have dom: "dom (variables ?u) = insert (call_id c) (dom (variables s))" by (simp add: v(1) ci)
  have "card (dom (variables ?u)) = Suc (card (dom (variables s)))" using x(2) finite_variables unfolding dom ci by simp
  moreover have "call_id ` set cs \<inter> dom (variables ?u) = {}" unfolding dom using Cons.prems(2,4) by auto
  ultimately have IH: "server_inv ?t \<and> dom (variables ?t) = dom (variables ?u) \<union> call_id ` set cs \<and>
      (\<forall>x\<in>dom (variables ?u). variables ?t x = variables ?u x) \<and> (\<forall>c\<in>set cs. defined_by c (variables ?t))"
    using Cons.prems by (intro Cons.IH [OF server_define_inv [OF Cons.prems(1)]]) simp_all
  have "variables ?t (syncs_idstr name) = Some v" using IH by (simp add: v(1))
  then have "defined_by c (variables ?t)" using v(2) by (simp add: defined_by_def c)
  moreover have "variables ?t x = variables s x" if "x \<in> dom (variables s)" for x
    using IH that x(2) by (auto simp: v(1))
  moreover have "dom (variables ?t) = dom (variables s) \<union> call_id ` set (c # cs)" using IH by (auto simp: v(1) c call_id_def)
  ultimately show ?case using IH by (simp add: c)
qed simp

lemma ssdp_create_same:
  "server_inv (syncs_server_ssdp_create beacon s) = server_inv s" "variables (syncs_server_ssdp_create beacon s) = variables s"
  by (simp_all add: syncs_server_ssdp_create_def server_inv_def fun_eq_iff variables_def syncs_find_event_def)

text \<open>
  C13: The configured variables exist after start. When the file gives a list of variables whose names are different and at most 256,
  with sizes up to 511, \<open>syncs_json_server_init\<close> returns a server in a consistent state whose variables are exactly those of the
  entries that lead to a definition, each with the type of its entry and the bytes passed for it.
\<close>

theorem config_defines:
  assumes "object_get_ex api j ''variables'' = Some vs" "\<not> os_fault w"
    and "cs = made_calls (config_calls api stack vs)" "length cs \<le> SYNCS_EVENT_MAXIMUM" "distinct (map call_id cs)"
    and "\<forall>c\<in>set cs. live_id (call_id c) \<and> unat (snd (snd (snd c))) \<le> SYNCS_VARIABLE_SIZE_MAXIMUM"
  shows "\<exists>s ub. syncs_json_server_init api (Some j) server_name server_address server_port stack True w = (Some s, ub) \<and>
    server_inv s \<and> dom (variables s) = call_id ` set cs \<and> (\<forall>c\<in>set cs. defined_by c (variables s))"
proof -
  obtain s0 where s0: "syncs_server_create True (Some (config_string api j ''address'' server_address))
      (config_int api j ''port'' server_port) (Some (config_string api j ''server_name'' server_name)) w = Some s0"
    by (simp add: syncs_server_create_def Let_def)
  define s where "s = (case object_get_ex api j ''ssdp'' of Some ssdp \<Rightarrow> syncs_server_ssdp_create 1 s0 | None \<Rightarrow> s0)"
  have "server_inv s0" "variables s0 = Map.empty"
    using server_create_inv [OF s0 assms(2)] server_create_variables [OF s0] by simp_all
  then have "server_inv s" "variables s = Map.empty"
    by (simp_all add: s_def ssdp_create_same split: option.split)
  then show ?thesis
    using define_all [of s cs] assms(4-6)
    by (simp add: syncs_json_server_init_def assms(1,3) s0 s_def [symmetric] fold_define_entry Let_def)
qed

text \<open>A small model of json-c, for examples.\<close>

datatype json = Json_object "(string \<times> json) list" | Json_array "json list" | Json_string "byte list" | Json_int int

definition json_c :: "json json_api" where
  "json_c = \<lparr>object_get_ex = (\<lambda>j key. case j of Json_object fs \<Rightarrow> map_of fs key | _ \<Rightarrow> None),
     object_get_string = (\<lambda>j. case j of Json_string s \<Rightarrow> s | Json_int n \<Rightarrow> print_d n | _ \<Rightarrow> []),
     object_get_int = (\<lambda>j. case j of Json_int n \<Rightarrow> n | Json_string s \<Rightarrow> read_port (takeWhile isdigit s) | _ \<Rightarrow> 0),
     array_length = (\<lambda>j. case j of Json_array js \<Rightarrow> length js | _ \<Rightarrow> 0),
     array_get_idx = (\<lambda>j i. case j of Json_array js \<Rightarrow> if i < length js then Some (js ! i) else None | _ \<Rightarrow> None)\<rparr>"

text \<open>The file \<^verbatim>\<open>src/syncsserver/syncscribe-server.json\<close> with two of its variables.\<close>

definition json_entry :: "string \<Rightarrow> string \<Rightarrow> string \<Rightarrow> json" where
  "json_entry name type value = Json_object [(''name'', Json_string (cstr name)), (''type'', Json_string (cstr type)),
     (''value'', Json_string (cstr value))]"

definition sample_json :: json where
  "sample_json = Json_object [(''client_name'', Json_string (cstr ''SyncScribe client on server'')),
     (''server_name'', Json_string (cstr ''SyncScribe server example'')), (''address'', Json_string (cstr ''127.0.0.1'')),
     (''port'', Json_int 4444), (''protocol'', Json_string (cstr ''tcp'')),
     (''variables'', Json_array [json_entry ''pause'' ''int'' ''0'', json_entry ''message'' ''string'' ''-''])]"

lemma sample_calls:
  "config_calls json_c stack (Json_array [json_entry ''pause'' ''int'' ''0'', json_entry ''message'' ''string'' ''-''])
    = [Some (cstr ''pause'', SYNCS_TYPE_VAR_INT32, Some (mem_put 0 (le_bytes 4 (0 :: u32)) stack), 8),
       Some (cstr ''message'', SYNCS_TYPE_VAR_STRING, Some (mem_of [45, 0]), 1)]"
  by (simp add: config_calls_def entry_call_def json_c_def json_entry_def type_flags_def Let_def cstr_def of_char_def c_str_def
      read_port_def isdigit_def)

lemma sample_names:
  "live_id (syncs_idstr (cstr ''pause''))" "live_id (syncs_idstr (cstr ''message''))"
  "syncs_idstr (cstr ''pause'') \<noteq> syncs_idstr (cstr ''message'')"
proof -
  show "live_id (syncs_idstr (cstr ''pause''))" "live_id (syncs_idstr (cstr ''message''))"
    by (rule live_idstr, simp add: cstr_def c_head_def of_char_def)+
  show "syncs_idstr (cstr ''pause'') \<noteq> syncs_idstr (cstr ''message'')"
  proof
    assume "syncs_idstr (cstr ''pause'') = syncs_idstr (cstr ''message'')"
    then have "take 31 (c_str (cstr ''pause'')) = take 31 (c_str (cstr ''message''))"
      by (metis c_str_id_bytes_idstr)
    then show False by (simp add: cstr_def c_str_def of_char_def)
  qed
qed

theorem config_defines_witness:
  "\<exists>s ub. syncs_json_server_init json_c (Some sample_json) [] [] 0 (\<lambda>_. 7) True idle_os = (Some s, ub) \<and>
     variables s (syncs_idstr (cstr ''pause'')) = Some (SYNCS_TYPE_VAR_INT32, [0, 0, 0, 0, 7, 7, 7, 7]) \<and>
     variables s (syncs_idstr (cstr ''message'')) = Some (SYNCS_TYPE_VAR_STRING, [])"
proof -
  let ?vs = "Json_array [json_entry ''pause'' ''int'' ''0'', json_entry ''message'' ''string'' ''-'']"
  have vs: "object_get_ex json_c sample_json ''variables'' = Some ?vs" by (simp add: json_c_def sample_json_def)
  define cs where "cs = made_calls (config_calls json_c (\<lambda>_. 7) ?vs)"
  have cs: "cs = [(cstr ''pause'', SYNCS_TYPE_VAR_INT32, Some (mem_put 0 (le_bytes 4 (0 :: u32)) (\<lambda>_. 7)), 8),
       (cstr ''message'', SYNCS_TYPE_VAR_STRING, Some (mem_of [45, 0]), 1)]"
    by (simp add: cs_def sample_calls made_calls_def)
  have mem: "mem_read (mem_put 0 (le_bytes 4 (0 :: u32)) (\<lambda>_. 7)) 0 8 = [0, 0, 0, 0, 7, 7, 7, 7]"
    by (simp add: mem_put_def mem_read_def le_bytes_def upt_rec)
  have "\<exists>s ub. syncs_json_server_init json_c (Some sample_json) [] [] 0 (\<lambda>_. 7) True idle_os = (Some s, ub) \<and>
    server_inv s \<and> dom (variables s) = call_id ` set cs \<and> (\<forall>c\<in>set cs. defined_by c (variables s))"
    by (rule config_defines [OF vs _ cs_def]) (simp_all add: cs call_id_def sample_names idle_os_def)
  then show ?thesis
    by (auto simp: cs defined_by_def define_size_def syncs_get_size_by_type_def mem)
qed

text \<open>
  What the entries of the configuration become. An \<open>int\<close> with a value is defined with eight bytes, four of them from behind the
  local variable that holds the value; a \<open>string\<close> is defined without its terminating zero, and as empty when
  it has one character, like the one of the example file, or 511; an \<open>int\<close>, \<open>long\<close> or \<open>string\<close> without a value is not defined at all.
\<close>

lemma config_entry_values:
  assumes "object_get_ex api v ''name'' = Some name" "object_get_ex api v ''type'' = Some type"
    and "flags = type_flags (object_get_string api type)" "value = object_get_ex api v ''value''"
  shows "(flags = SYNCS_TYPE_VAR_INT32 \<and> value = Some j \<longrightarrow>
      (\<exists>m. entry_call api stack (Some v) = Some (object_get_string api name, flags, Some m, 8) \<and>
        mem_read m 0 (unat (define_size flags 8)) = le_bytes 4 (of_int (object_get_int api j) :: u32) @ mem_read stack 4 4)) \<and>
    (flags = SYNCS_TYPE_VAR_STRING \<and> value = Some j \<and> length (c_str (object_get_string api j)) < 512 \<longrightarrow>
      (\<exists>m n. entry_call api stack (Some v) = Some (object_get_string api name, flags, Some m, n) \<and>
        mem_read m 0 (unat (define_size flags n)) =
          (if length (c_str (object_get_string api j)) \<in> {1, 511} then [] else c_str (object_get_string api j)))) \<and>
    (flags \<in> {SYNCS_TYPE_VAR_INT32, SYNCS_TYPE_VAR_INT64, SYNCS_TYPE_VAR_STRING} \<and> value = None \<longrightarrow>
      entry_call api stack (Some v) = None)"
proof (intro conjI impI)
  assume "flags = SYNCS_TYPE_VAR_INT32 \<and> value = Some j"
  then show "\<exists>m. entry_call api stack (Some v) = Some (object_get_string api name, flags, Some m, 8) \<and>
      mem_read m 0 (unat (define_size flags 8)) = le_bytes 4 (of_int (object_get_int api j) :: u32) @ mem_read stack 4 4"
    using assms by (simp add: entry_call_def Let_def define_size_def mem_read_put_prefix)
next
  let ?t = "c_str (object_get_string api j)"
  assume h: "flags = SYNCS_TYPE_VAR_STRING \<and> value = Some j \<and> length ?t < 512"
  then have n: "unat (of_nat (length ?t) :: u32) = length ?t" by (simp add: unat_of_nat_small)
  have "mem_read (mem_of (?t @ [0])) 0 (unat (define_size flags (of_nat (length ?t)))) = (if length ?t \<in> {1, 511} then [] else ?t)"
    using h n by (cases ?t) (auto simp: define_size_def syncs_get_size_by_type_def mem_read_mem_of word_less_nat_alt)
  then show "\<exists>m n. entry_call api stack (Some v) = Some (object_get_string api name, flags, Some m, n) \<and>
      mem_read m 0 (unat (define_size flags n)) = (if length ?t \<in> {1, 511} then [] else ?t)"
    using h assms by (auto simp: entry_call_def Let_def)
qed (use assms in \<open>auto simp: entry_call_def Let_def\<close>)

end
