(* ===== verification/Client_Link.thy ===== *)
theory Client_Link
  imports Client_Stream Client_Subs Server_Stream Server_Api
begin

unbundle bit_operations_syntax

text \<open>
  A client and the server together. What a client's request puts on the wire is received by the server's handler, what the
  server answers is received by the client's loop: the theorems are about the two programs joined by a network that
  takes every send and hands a message over in one read.
\<close>

section \<open>What a client sends\<close>

definition cn_online :: "syncs_connect \<Rightarrow> bool" where
  "cn_online s \<longleftrightarrow> 0 < cn_socketfd s \<and> os_script (cn_os s) = [] \<and> \<not> cn_onexit s"

text \<open>The state after the messages \<open>bss\<close> went out, one after the other.\<close>

definition cn_sent :: "byte list list \<Rightarrow> syncs_connect \<Rightarrow> syncs_connect" where
  "cn_sent bss s = s\<lparr>cn_os := (cn_os s)\<lparr>os_sent := os_sent (cn_os s) @ map (Pair (cn_socketfd s)) bss\<rparr>\<rparr>"

lemma cn_sent_simps [simp]:
  "cn_events (cn_sent b s) = cn_events s" "cn_channels (cn_sent b s) = cn_channels s" "cn_socketfd (cn_sent b s) = cn_socketfd s"
  "os_script (cn_os (cn_sent b s)) = os_script (cn_os s)" "os_stack (cn_os (cn_sent b s)) = os_stack (cn_os s)"
  "os_fault (cn_os (cn_sent b s)) = os_fault (cn_os s)" "cn_id (cn_sent b s) = cn_id s" "cn_online (cn_sent b s) = cn_online s"
  "cn_read_wait (cn_sent b s) = cn_read_wait s" "cn_read_id (cn_sent b s) = cn_read_id s" "cn_read_data (cn_sent b s) = cn_read_data s"
  "cn_buffer (cn_sent b s) = cn_buffer s" "cn_onexit (cn_sent b s) = cn_onexit s" "cn_eventlist (cn_sent b s) = cn_eventlist s"
  "cn_clientlist (cn_sent b s) = cn_clientlist s" "cn_channellist (cn_sent b s) = cn_channellist s"
  "os_sent (cn_os (cn_sent b s)) = os_sent (cn_os s) @ map (Pair (cn_socketfd s)) b"
  by (simp_all add: cn_sent_def cn_online_def)

lemma cn_sent_Nil [simp]: "cn_sent [] s = s"
  by (simp add: cn_sent_def)

lemma cn_sent_append: "cn_sent b (cn_sent a s) = cn_sent (a @ b) s"
  by (simp add: cn_sent_def)

lemma connect_send_online: "cn_online s \<Longrightarrow> syncs_connect_send b s = (0, cn_sent [b] s)"
  by (simp add: syncs_connect_send_def cn_online_def cn_sent_def blocking_send_ideal)

lemma send_header_online:
  "cn_online s \<Longrightarrow> send_header fill s = cn_sent [header_bytes (fill (p_header (os_stack (cn_os s))))] s"
  by (simp add: send_header_def connect_send_online)

text \<open>A request without data: its header, with whatever the rest of the local variable held.\<close>

definition request_frame :: "u32 \<Rightarrow> syncsid \<Rightarrow> frame \<Rightarrow> bool" where
  "request_frame type x f \<longleftrightarrow> frame_ok f \<and> snd f = [] \<and> h_type (fst f) = type \<and> h_id (fst f) = x"

lemmas fill_defs = syncs_fill_basic_header_def syncs_fill_basic_header_request_def syncs_fill_header_def
  syncs_fill_header_str_def syncs_fill_header_request_str_def syncs_fill_header_request_id_def Let_def

lemma request_str_frame: "request_frame type (syncs_idstr cid) (syncs_fill_header_request_str cid type p, [])"
  by (simp add: request_frame_def frame_ok_def fill_defs)

lemma frame_bytes_Nil [simp]: "frame_bytes (h, []) = header_bytes h"
  by (simp add: frame_bytes_def)

text \<open>The bytes \<open>syncs_write\<close> takes from its arguments.\<close>

definition write_data :: "u32 \<Rightarrow> mem option \<Rightarrow> u32 \<Rightarrow> byte list" where
  "write_data flags data n =
     (case data of None \<Rightarrow> [] | Some d \<Rightarrow> mem_read d 0 (unat (if n = 0 then syncs_get_size_by_type flags else n)))"

lemma mask_small32: "unat (n :: u32) \<le> SYNCS_VARIABLE_SIZE_MAXIMUM \<Longrightarrow> n AND 0x1ff = n"
proof -
  assume n: "unat n \<le> SYNCS_VARIABLE_SIZE_MAXIMUM"
  have b: "bit n k \<Longrightarrow> k < 9" for k using small_bit [of n 9] n by simp
  have m: "(0x1ff :: u32) = mask 9" by (simp add: mask_eq_exp_minus_1)
  show "n AND 0x1ff = n" unfolding m by (rule bit_word_eqI) (fastforce simp: bit_simps dest: b)
qed

lemma write_frame:
  assumes "cn_online s" "length (write_data flags data n) \<le> SYNCS_VARIABLE_SIZE_MAXIMUM"
  shows "\<exists>h. syncs_write flags cid data n s = (0, cn_sent [frame_bytes (h, write_data flags data n)] s) \<and>
    frame_ok (h, write_data flags data n) \<and> h_id h = syncs_idstr cid \<and>
    h_type h = SYNCS_TYPE_WRITE OR (flags AND (SYNCS_TYPE_VAR_MASK OR SYNCS_TYPE_FLAGS_MASK))"
proof -
  define k where "k = (if n = 0 then syncs_get_size_by_type flags else n)"
  define h0 where "h0 = syncs_fill_header_str cid (SYNCS_TYPE_WRITE OR (flags AND (SYNCS_TYPE_VAR_MASK OR SYNCS_TYPE_FLAGS_MASK)))
    ((p_header (os_stack (cn_os s)))\<lparr>h_id := syncs_idstr cid\<rparr>)"
  have h0: "h_magic h0 = SYNCS_PACKET_MAGIC" "h_magic_data h0 = SYNCS_PACKET_MAGIC_DATA" "h_id h0 = syncs_idstr cid"
    "h_type h0 = SYNCS_TYPE_WRITE OR (flags AND (SYNCS_TYPE_VAR_MASK OR SYNCS_TYPE_FLAGS_MASK))"
    by (simp_all add: h0_def fill_defs)
  show ?thesis
  proof (cases "\<exists>d. data = Some d \<and> k \<noteq> 0")
    case True
    then obtain d where d: "data = Some d" "k \<noteq> 0" by blast
    have wd: "write_data flags data n = mem_read d 0 (unat k)" by (simp add: write_data_def d k_def)
    have sz: "unat k \<le> SYNCS_VARIABLE_SIZE_MAXIMUM" using assms(2) by (simp add: wd)
    have uk: "unat (ucast k :: u16) = unat k" using sz by (intro unat_ucast_small) simp
    let ?h = "h0\<lparr>h_data_size := ucast k\<rparr>"
    have "packet_bytes ((os_stack (cn_os s))\<lparr>p_header := ?h, p_buffer := mem_copy 0 d (unat k) (p_buffer (os_stack (cn_os s)))\<rparr>)
        (sizeof_syncs_header + unat k) = frame_bytes (?h, mem_read d 0 (unat k))"
      by (simp add: packet_bytes_split frame_bytes_def mem_simps)
    then have "syncs_write flags cid data n s = (0, cn_sent [frame_bytes (?h, mem_read d 0 (unat k))] s)"
      using d sz assms(1) mask_small32 [OF sz]
      by (simp add: syncs_write_def Let_def k_def [symmetric] h0_def connect_send_online)
    then show ?thesis using h0 uk sz by (intro exI [of _ ?h]) (simp add: wd frame_ok_def)
  next
    case False
    then have wd: "write_data flags data n = []" by (cases data) (auto simp: write_data_def k_def [symmetric])
    have "syncs_write flags cid data n s = (0, cn_sent [header_bytes (h0\<lparr>h_data_size := 0\<rparr>)] s)"
      using False assms(1)
      by (cases data) (auto simp: syncs_write_def Let_def k_def [symmetric] h0_def connect_send_online)
    then show ?thesis using h0 by (intro exI [of _ "h0\<lparr>h_data_size := 0\<rparr>"]) (simp add: wd frame_ok_def)
  qed
qed

section \<open>What a client sends when it is connected\<close>

lemma fold_sent:
  assumes "\<And>i s. cn_events s = es \<Longrightarrow> cn_channels s = cs \<Longrightarrow> cn_online s \<Longrightarrow> os_stack (cn_os s) = st \<Longrightarrow> f i s = cn_sent (msgs i) s"
    and "cn_events s = es" "cn_channels s = cs" "cn_online s" "os_stack (cn_os s) = st"
  shows "fold f is s = cn_sent (concat (map msgs is)) s"
  using assms(2-)
proof (induction "is" arbitrary: s)
  case (Cons i "is")
  then show ?case using Cons.IH [of "cn_sent (msgs i) s"] assms(1) [OF Cons.prems] by (simp add: cn_sent_append)
qed simp

lemma concat_filter: "concat (map (\<lambda>i. if P i then [g i] else []) is) = map g (filter P is)"
  by (induction "is") simp_all

definition subscribe_frame :: "syncs_header \<Rightarrow> syncs_client_event \<Rightarrow> frame" where
  "subscribe_frame p e = ((syncs_fill_header_request_id (ce_id e)
     (SYNCS_TYPE_SUBSCRIBE OR (ce_flags e AND (SYNCS_TYPE_VAR_MASK OR SYNCS_TYPE_FLAGS_MASK))) p)\<lparr>h_update_counter := ce_update_counter e\<rparr>, [])"

definition anons_frame :: "syncs_header \<Rightarrow> syncs_connect_channel \<Rightarrow> frame" where
  "anons_frame p ch = ((syncs_fill_header (cc_id ch) (SYNCS_TYPE_CHANNEL OR SYNCS_CHANNEL_ANONS) p)\<lparr>h_data_size := 10\<rparr>, ticket_bytes (cc_ticket ch))"

lemma send_subscribe_online:
  "cn_online s \<Longrightarrow> syncs_client_send_subscribe (ce_id e) (ce_flags e) (ce_update_counter e) s =
     cn_sent [frame_bytes (subscribe_frame (p_header (os_stack (cn_os s))) e)] s"
  by (simp add: syncs_client_send_subscribe_def send_header_online subscribe_frame_def)

lemma send_anons_online:
  assumes "cn_online s"
  shows "syncs_client_send_channel_anons (cc_id ch) (cc_ticket ch) s = cn_sent [frame_bytes (anons_frame (p_header (os_stack (cn_os s))) ch)] s"
proof -
  have "packet_bytes \<lparr>p_header = h, p_buffer = mem_put 0 (ticket_bytes (cc_ticket ch)) b\<rparr> 70 = header_bytes h @ ticket_bytes (cc_ticket ch)" for h b
    by (simp add: packet_bytes_split mem_simps)
  from this [of _ "p_buffer (os_stack (cn_os s))"] show ?thesis
    using assms by (cases "os_stack (cn_os s)")
      (simp add: syncs_client_send_channel_anons_def Let_def connect_send_online anons_frame_def frame_bytes_def)
qed

text \<open>
  C11: After a reconnect the client announces everything again. When the connection is up, \<open>syncs_send_id\<close> sends, in this order
  and nothing else: its id with the protocol version; one SUBSCRIBE for every subscription it holds, with the name, the type and flags
  given by the application and the last update counter seen; one announcement for every channel it has, with its
  ticket. Every message is a well-formed packet.
\<close>

theorem reconnect_announces:
  assumes on: "cn_online s"
  shows "\<exists>idf subs anons. syncs_send_id s = cn_sent (map frame_bytes (idf # subs @ anons)) s \<and> list_all frame_ok (idf # subs @ anons) \<and>
    h_type (fst idf) = SYNCS_TYPE_CLIENT_ID \<and> h_id (fst idf) = cn_id s \<and>
    h_sync (fst idf) = \<lparr>data0 = SYNCS_VERSION_MAJOR, data1 = SYNCS_VERSION_MINOR\<rparr> \<and> snd idf = [] \<and>
    map (\<lambda>f. (h_type (fst f), h_id (fst f), h_update_counter (fst f), snd f)) subs =
      map (\<lambda>e. (SYNCS_TYPE_SUBSCRIBE OR (ce_flags e AND (SYNCS_TYPE_VAR_MASK OR SYNCS_TYPE_FLAGS_MASK)), ce_id e, ce_update_counter e, []))
        (filter (\<lambda>e. live_id (ce_id e)) (map (cn_events s) [0..<SYNCS_EVENT_MAXIMUM])) \<and>
    map (\<lambda>f. (h_type (fst f), h_id (fst f), snd f)) anons =
      map (\<lambda>ch. (SYNCS_TYPE_CHANNEL OR SYNCS_CHANNEL_ANONS, cc_id ch, ticket_bytes (cc_ticket ch)))
        (filter (\<lambda>ch. live_id (cc_id ch)) (map (cn_channels s) [0..<SYNCS_CHANNEL_MAXIMUM]))"
proof -
  define p where "p = p_header (os_stack (cn_os s))"
  define idf where "idf = ((syncs_fill_header_request_id (cn_id s) SYNCS_TYPE_CLIENT_ID p)
    \<lparr>h_sync := \<lparr>data0 = SYNCS_VERSION_MAJOR, data1 = SYNCS_VERSION_MINOR\<rparr>\<rparr>, [] :: byte list)"
  define subs where "subs = map (subscribe_frame p) (filter (\<lambda>e. live_id (ce_id e)) (map (cn_events s) [0..<SYNCS_EVENT_MAXIMUM]))"
  define anons where "anons = map (anons_frame p) (filter (\<lambda>ch. live_id (cc_id ch)) (map (cn_channels s) [0..<SYNCS_CHANNEL_MAXIMUM]))"
  let ?sub = "\<lambda>i s. let e = cn_events s i in if id_i0 (ce_id e) \<noteq> -1
      then syncs_client_send_subscribe (ce_id e) (ce_flags e) (ce_update_counter e) s else s"
  let ?ann = "\<lambda>i s. let ch = cn_channels s i in if id_i0 (cc_id ch) \<noteq> -1 then syncs_client_send_channel_anons (cc_id ch) (cc_ticket ch) s else s"
  have "syncs_client_send_id (cn_id s) s = cn_sent [frame_bytes idf] s"
    using on by (simp add: syncs_client_send_id_def send_header_online idf_def p_def)
  moreover have "fold ?sub [0..<SYNCS_EVENT_MAXIMUM] t = cn_sent (map frame_bytes subs) t"
    if "cn_events t = cn_events s" "cn_channels t = cn_channels s" "cn_online t" "os_stack (cn_os t) = os_stack (cn_os s)" for t
    using fold_sent [where f = ?sub and msgs = "\<lambda>i. if live_id (ce_id (cn_events s i)) then [frame_bytes (subscribe_frame p (cn_events s i))] else []",
        OF _ that, of "[0..<SYNCS_EVENT_MAXIMUM]"]
    by (simp add: concat_filter subs_def filter_map comp_def live_id_def send_subscribe_online p_def Let_def)
  moreover have "fold ?ann [0..<SYNCS_CHANNEL_MAXIMUM] t = cn_sent (map frame_bytes anons) t"
    if "cn_events t = cn_events s" "cn_channels t = cn_channels s" "cn_online t" "os_stack (cn_os t) = os_stack (cn_os s)" for t
    using fold_sent [where f = ?ann and msgs = "\<lambda>i. if live_id (cc_id (cn_channels s i)) then [frame_bytes (anons_frame p (cn_channels s i))] else []",
        OF _ that, of "[0..<SYNCS_CHANNEL_MAXIMUM]"]
    by (simp add: concat_filter anons_def filter_map comp_def live_id_def send_anons_online p_def Let_def)
  ultimately have "syncs_send_id s = cn_sent (map frame_bytes (idf # subs @ anons)) s"
    using on by (simp add: syncs_send_id_def cn_sent_append Let_def)
  moreover have "list_all frame_ok (idf # subs @ anons)"
    by (auto simp: list_all_iff idf_def subs_def anons_def subscribe_frame_def anons_frame_def frame_ok_def fill_defs)
  ultimately show ?thesis
    by (intro exI [of _ idf] exI [of _ subs] exI [of _ anons])
      (simp add: idf_def subs_def anons_def subscribe_frame_def anons_frame_def fill_defs)
qed

lemma sample_connect_online: "cn_online sample_connect"
  by (simp add: cn_online_def sample_connect_fields idle_os_def)

theorem reconnect_announces_witness:
  "\<exists>m. os_sent (cn_os (syncs_send_id sample_connect)) = [(5, m)]"
proof -
  have "filter (\<lambda>e. live_id (ce_id e)) (map (cn_events sample_connect) [0..<SYNCS_EVENT_MAXIMUM]) = []"
    "filter (\<lambda>ch. live_id (cc_id ch)) (map (cn_channels sample_connect) [0..<SYNCS_CHANNEL_MAXIMUM]) = []"
    by (simp_all add: filter_empty_conv sample_connect_fields)
  then show ?thesis
    using reconnect_announces [OF sample_connect_online] by (auto simp: sample_connect_fields idle_os_def)
qed

section \<open>One frame at the server\<close>

context passive_callbacks
begin

lemma handler_one_frame:
  assumes inv: "server_inv s" and c: "c < SYNCS_CLIENT_MAXIMUM" and recv: "c_buffer_recv (s_clients s c) = 0" and f: "frame_ok f"
  shows "\<exists>p b u. p_header p = fst f \<and> mem_read (p_buffer p) 0 (length (snd f)) = snd f \<and>
    server_inv u \<and> variables u = variables s \<and> s_os u = s_os s \<and> stream_to u = stream_to s \<and>
    (\<exists>m. u = upd_client c (\<lambda>cl. cl\<lparr>c_buffer := m\<rparr>) s) \<and>
    syncs_client_handler call (Recv (frame_bytes f)) c s =
      upd_client c (\<lambda>cl. cl\<lparr>c_buffer := b, c_buffer_recv := 0\<rparr>)
        (snd (syncs_client_process_packet call c p (SYNCS_CLIENT_BUFFER_SIZE - sizeof_syncs_header) u))"
proof -
  define u where "u = upd_client c (\<lambda>cl. cl\<lparr>c_buffer := mem_put (c_buffer_recv cl) (frame_bytes f) (c_buffer cl)\<rparr>) s"
  have sz: "length (snd f) \<le> SYNCS_VARIABLE_SIZE_MAXIMUM" using f by (simp add: frame_ok_def)
  have u: "server_inv u" unfolding u_def using inv inv_client [OF inv c] by (intro server_inv_upd_client) simp_all
  have "\<exists>b. syncs_client_handler call (Recv (frame_bytes f)) c s =
      upd_client c (\<lambda>cl. cl\<lparr>c_buffer := b, c_buffer_recv := length ([] :: byte list)\<rparr>) (process_frames call c 0 [f] u) \<and>
      mem_read b 0 (length ([] :: byte list)) = []"
    unfolding u_def using f sz recv by (intro handler_frames [OF inv c]) (simp_all add: frame_size_def incomplete_def)
  then obtain b where b: "syncs_client_handler call (Recv (frame_bytes f)) c s =
      upd_client c (\<lambda>cl. cl\<lparr>c_buffer := b, c_buffer_recv := 0\<rparr>)
        (snd (syncs_client_process_packet call c (frame_packet f 0 (c_buffer (s_clients u c))) (SYNCS_CLIENT_BUFFER_SIZE - sizeof_syncs_header) u))"
    by (auto simp: process_frames_def)
  have "mem_read (c_buffer (s_clients u c)) 0 (frame_size f) = frame_bytes f" by (simp add: u_def recv mem_simps)
  then have d: "mem_read (p_buffer (frame_packet f 0 (c_buffer (s_clients u c)))) 0 (length (snd f)) = snd f" by (rule frame_data)
  have "stream_to u = stream_to s" by (intro ext) (auto simp: stream_to_def u_def intro!: map_cong filter_cong)
  moreover have "u = upd_client c (\<lambda>cl. cl\<lparr>c_buffer := mem_put 0 (frame_bytes f) (c_buffer (s_clients s c))\<rparr>) s"
    by (simp add: u_def upd_client_def recv)
  ultimately show ?thesis
    using b d u
    by (intro exI [of _ "frame_packet f 0 (c_buffer (s_clients u c))"] exI [of _ b] exI [of _ u])
      (auto simp: frame_packet_def u_def)
qed

lemma frame_at_server:
  assumes inv: "server_inv s" and c: "c < SYNCS_CLIENT_MAXIMUM" and recv: "c_buffer_recv (s_clients s c) = 0" and f: "frame_ok f"
    and x: "live_id (h_id (fst f))"
  shows "packet_step (h_type (fst f)) (h_id (fst f)) (h_data_size (fst f)) (snd f) (variables s)
    (variables (syncs_client_handler call (Recv (frame_bytes f)) c s))"
proof -
  obtain p b u where p: "p_header p = fst f" "mem_read (p_buffer p) 0 (length (snd f)) = snd f"
    and u: "server_inv u" "variables u = variables s"
    and h: "syncs_client_handler call (Recv (frame_bytes f)) c s =
      upd_client c (\<lambda>cl. cl\<lparr>c_buffer := b, c_buffer_recv := 0\<rparr>)
        (snd (syncs_client_process_packet call c p (SYNCS_CLIENT_BUFFER_SIZE - sizeof_syncs_header) u))"
    using handler_one_frame [OF inv c recv f] by blast
  have "length (snd f) = unat (h_data_size (fst f))" using f by (simp add: frame_ok_def)
  then show ?thesis
    using packet_refines [OF u(1) c, of "SYNCS_CLIENT_BUFFER_SIZE - sizeof_syncs_header" p] f p u(2) x
    by (simp add: h frame_ok_def)
qed

end

section \<open>Writing and removing\<close>

lemma write_type:
  fixes flags :: u32
  shows "(SYNCS_TYPE_WRITE OR (flags AND 0xff0)) AND SYNCS_TYPE_MSG_MASK = SYNCS_TYPE_WRITE"
    "(SYNCS_TYPE_WRITE OR (flags AND 0xff0)) AND SYNCS_TYPE_FORCE = flags AND SYNCS_TYPE_FORCE"
    "(SYNCS_TYPE_WRITE OR (flags AND 0xff0)) AND SYNCS_TYPE_VAR_MASK = flags AND SYNCS_TYPE_VAR_MASK"
  by (simp_all add: bit.conj_disj_distrib2 and.assoc)

lemma write_arrives:
  assumes "passive_callbacks call" "server_inv s" "k < SYNCS_CLIENT_MAXIMUM" "c_buffer_recv (s_clients s k) = 0"
    and "cn_online c" "length (write_data flags data n) \<le> SYNCS_VARIABLE_SIZE_MAXIMUM" "live_id (syncs_idstr cid)"
  shows "\<exists>msg. syncs_write flags cid data n c = (0, cn_sent [msg] c) \<and>
    variables (syncs_client_handler call (Recv msg) k s) =
      snd (abs_write (flags AND SYNCS_TYPE_FORCE \<noteq> 0) (syncs_idstr cid) (flags AND SYNCS_TYPE_VAR_MASK) (write_data flags data n) (variables s))"
proof -
  obtain h where w: "syncs_write flags cid data n c = (0, cn_sent [frame_bytes (h, write_data flags data n)] c)"
    and h: "frame_ok (h, write_data flags data n)" "h_id h = syncs_idstr cid" "h_type h = SYNCS_TYPE_WRITE OR (flags AND 0xff0)"
    using write_frame [OF assms(5,6), of cid] by auto
  have "packet_step (h_type h) (syncs_idstr cid) (h_data_size h) (write_data flags data n) (variables s)
    (variables (syncs_client_handler call (Recv (frame_bytes (h, write_data flags data n))) k s))"
    using passive_callbacks.frame_at_server [OF assms(1-4) h(1)] assms(7) h(2) by simp
  then show ?thesis
    using w by (auto simp: packet_step_def Let_def h(3) write_type)
qed

text \<open>
  C8: A value written by a client arrives in the store. Whatever \<open>syncs_write\<close> is given, with at most 511 bytes of data, one
  message goes out, and the server that receives it has performed exactly the abstract write: with the caller's
  type and FORCE flag, at the caller's name, of the caller's bytes.
\<close>

theorem write_end_to_end:
  assumes "passive_callbacks call" "server_inv s" "k < SYNCS_CLIENT_MAXIMUM" "c_buffer_recv (s_clients s k) = 0"
    and "cn_online c" "length (write_data flags data n) \<le> SYNCS_VARIABLE_SIZE_MAXIMUM" "live_id (syncs_idstr cid)"
  shows "\<exists>msg. syncs_write flags cid data n c = (0, cn_sent [msg] c) \<and>
    variables (syncs_client_handler call (Recv msg) k s) =
      snd (abs_write (flags AND SYNCS_TYPE_FORCE \<noteq> 0) (syncs_idstr cid) (flags AND SYNCS_TYPE_VAR_MASK) (write_data flags data n) (variables s))"
  using assms by (rule write_arrives)

theorem write_end_to_end_witness:
  "\<exists>msg. syncs_write 0x280 (cstr ''a'') (Some (mem_of [1, 2, 3, 4])) 4 sample_connect = (0, cn_sent [msg] sample_connect) \<and>
    variables (syncs_client_handler syncsserver_call (Recv msg) 3 sample_server) = [syncs_idstr (cstr ''a'') \<mapsto> (0x200, [1, 2, 3, 4])]"
  using write_end_to_end [OF syncsserver.passive_callbacks_axioms sample_server_inv _ _ sample_connect_online, of 3 "0x280"
      "Some (mem_of [1, 2, 3, 4])" 4 "cstr ''a''"]
  by (simp add: live_id_a sample_server_fields zero_client_def write_data_def mem_read_mem_of abs_write_def abs_open_def sample_server_variables)

text \<open>
  C23: A client cannot remove a variable. \<open>syncs_undefine\<close> sends the message of a definition: at the server an existing variable
  stays as it is, and a missing one is created, empty and without a type, as long as there is room.
\<close>

theorem undefine_defines:
  assumes "passive_callbacks call" "server_inv s" "k < SYNCS_CLIENT_MAXIMUM" "c_buffer_recv (s_clients s k) = 0"
    and "cn_online c" "live_id (syncs_idstr cid)"
  shows "\<exists>msg. syncs_undefine cid c = cn_sent [msg] c \<and>
    variables (syncs_client_handler call (Recv msg) k s) =
      (if syncs_idstr cid \<in> dom (variables s) \<or> card (dom (variables s)) = SYNCS_EVENT_MAXIMUM then variables s
       else (variables s)(syncs_idstr cid \<mapsto> (SYNCS_TYPE_VAR_NOT_DEFINED, [])))"
proof -
  define f where "f = (syncs_fill_header_request_str cid SYNCS_TYPE_DEFINE (p_header (os_stack (cn_os c))), [] :: byte list)"
  have f: "frame_ok f" "snd f = []" "h_type (fst f) = SYNCS_TYPE_DEFINE" "h_id (fst f) = syncs_idstr cid"
    using request_str_frame [of SYNCS_TYPE_DEFINE cid "p_header (os_stack (cn_os c))"] by (simp_all add: request_frame_def f_def)
  have sent: "syncs_undefine cid c = cn_sent [frame_bytes f] c"
    using assms(5) by (simp add: syncs_undefine_def send_header_online f_def)
  have "h_data_size (fst f) = 0" using f(1,2) by (simp add: frame_ok_def unat_eq_zero)
  then have "packet_step SYNCS_TYPE_DEFINE (syncs_idstr cid) 0 [] (variables s) (variables (syncs_client_handler call (Recv (frame_bytes f)) k s))"
    using passive_callbacks.frame_at_server [OF assms(1-4) f(1)] f assms(6) by simp
  moreover have "define_size SYNCS_TYPE_DEFINE 0 = 0" by (simp add: define_size_def syncs_get_size_by_type_def)
  ultimately show ?thesis using sent by (auto simp: packet_step_def Let_def split: if_splits)
qed

theorem undefine_defines_witness:
  "\<exists>msg. syncs_undefine (cstr ''a'') sample_connect = cn_sent [msg] sample_connect \<and>
    variables (syncs_client_handler syncsserver_call (Recv msg) 3 sample_server) = [syncs_idstr (cstr ''a'') \<mapsto> (0, [])]"
  using undefine_defines [OF syncsserver.passive_callbacks_axioms sample_server_inv _ _ sample_connect_online, of 3 "cstr ''a''"]
  by (simp add: live_id_a sample_server_fields zero_client_def sample_server_variables)

section \<open>A request and its answer\<close>

text \<open>
  The messages the server sends when it receives the last message of the client, and the client after its receive loop
  got them, one in each read.
\<close>

definition server_answers :: "callback \<Rightarrow> nat \<Rightarrow> syncs_server \<Rightarrow> byte list \<Rightarrow> byte list list" where
  "server_answers call k s msg =
     map snd (drop (length (os_sent (s_os s))) (os_sent (s_os (syncs_client_handler call (Recv msg) k s))))"

definition round_trip :: "client_callback \<Rightarrow> callback \<Rightarrow> nat \<Rightarrow> syncs_server \<Rightarrow> syncs_connect \<Rightarrow> syncs_connect" where
  "round_trip ccall call k s c =
     syncs_recv_rounds ccall (map Client_recv (server_answers call k s (snd (last (os_sent (cn_os c)))))) 0 c"

context client_callbacks
begin

lemma recv_one_frame:
  assumes "frame_ok f"
  shows "\<exists>p b m. p_header p = fst f \<and> mem_read (p_buffer p) 0 (length (snd f)) = snd f \<and>
    syncs_recv_round call (Client_recv (frame_bytes f)) 0 s = (True, 0, (syncs_process_packet call p (s\<lparr>cn_buffer := m\<rparr>))\<lparr>cn_buffer := b\<rparr>)"
proof -
  let ?m = "mem_put 0 (frame_bytes f) (cn_buffer s)"
  have sz: "length (snd f) \<le> SYNCS_VARIABLE_SIZE_MAXIMUM" using assms by (simp add: frame_ok_def)
  have "\<exists>b. syncs_recv_round call (Client_recv (frame_bytes f)) 0 s =
      (True, length ([] :: byte list), (client_frames call 0 [f] (s\<lparr>cn_buffer := ?m\<rparr>))\<lparr>cn_buffer := b\<rparr>) \<and>
      mem_read b 0 (length ([] :: byte list)) = []"
    using assms sz by (intro recv_round_frames) (simp_all add: frame_size_def incomplete_def)
  moreover have "mem_read (p_buffer (frame_packet f 0 ?m)) 0 (length (snd f)) = snd f" by (rule frame_data) (simp add: mem_simps)
  ultimately show ?thesis by (intro exI [of _ "frame_packet f 0 ?m"]) (auto simp: client_frames_def frame_packet_def)
qed

end

text \<open>The bytes of a variable, none when there is no such variable.\<close>

definition value_of :: "store \<Rightarrow> syncsid \<Rightarrow> byte list" where
  "value_of m x = (case m x of Some (t, d) \<Rightarrow> d | None \<Rightarrow> [])"

lemma variables_size: "server_inv s \<Longrightarrow> variables s x = Some (t, d) \<Longrightarrow> length d \<le> SYNCS_VARIABLE_SIZE_MAXIMUM"
  by (auto simp: variables_def var_of_def event_ok_size inv_event dest: ev.find_Some split: option.splits if_splits)

lemma read_type:
  fixes t :: u32
  shows "(SYNCS_TYPE_READ OR (t AND SYNCS_TYPE_VAR_MASK)) AND SYNCS_TYPE_MSG_MASK = SYNCS_TYPE_READ"
  by (simp add: bit.conj_disj_distrib2 and.assoc)

context passive_callbacks
begin

lemma server_answers_read:
  assumes inv: "server_inv s" and c: "c < SYNCS_CLIENT_MAXIMUM" and recv: "c_buffer_recv (s_clients s c) = 0"
    and fd: "c_socketfd (s_clients s c) > -1" and net: "os_script (s_os s) = []"
    and f: "frame_ok f" "h_type (fst f) AND SYNCS_TYPE_MSG_MASK = SYNCS_TYPE_READ" and x: "live_id (h_id (fst f))"
  shows "\<exists>h. frame_ok (h, value_of (variables s) (h_id (fst f))) \<and> h_id h = h_id (fst f) \<and>
    h_type h AND SYNCS_TYPE_MSG_MASK = SYNCS_TYPE_READ \<and>
    server_answers call c s (frame_bytes f) = [frame_bytes (h, value_of (variables s) (h_id (fst f)))]"
proof -
  let ?x = "h_id (fst f)"
  obtain p b u where p: "p_header p = fst f"
    and u: "server_inv u" "variables u = variables s" "s_os u = s_os s" "stream_to u = stream_to s"
    and h: "syncs_client_handler call (Recv (frame_bytes f)) c s =
      upd_client c (\<lambda>cl. cl\<lparr>c_buffer := b, c_buffer_recv := 0\<rparr>)
        (snd (syncs_client_process_packet call c p (SYNCS_CLIENT_BUFFER_SIZE - sizeof_syncs_header) u))"
    using handler_one_frame [OF inv c recv f(1)] by blast
  have os: "s_os (syncs_client_handler call (Recv (frame_bytes f)) c s) = s_os (syncs_client_read c ?x u)"
    using f(2) by (simp add: h syncs_client_process_packet_def Let_def p)
  have small: "length (value_of (variables s) ?x) \<le> SYNCS_VARIABLE_SIZE_MAXIMUM"
    using variables_size [OF inv] by (auto simp: value_of_def split: option.splits)
  obtain h where hd: "answered u (syncs_client_read c ?x u) c (header_bytes h @ value_of (variables s) ?x)"
    "h_magic h = SYNCS_PACKET_MAGIC" "h_magic_data h = SYNCS_PACKET_MAGIC_DATA" "h_id h = ?x"
    "h_type h AND SYNCS_TYPE_MSG_MASK = SYNCS_TYPE_READ" "unat (h_data_size h) = length (value_of (variables s) ?x)"
    using read_answered [OF u(1) x, of c] net u(2,3) read_type
    by (fastforce simp: value_of_def data_header_def split: option.splits)
  have "server_answers call c s (frame_bytes f) = [frame_bytes (h, value_of (variables s) ?x)]"
    using hd(1) fd by (simp add: server_answers_def os answered_def u(3,4) stream_to_def frame_bytes_def [of "(h, v)" for v])
  then show ?thesis using hd small by (intro exI [of _ h]) (simp add: frame_ok_def)
qed

end

text \<open>
  C9: A read returns what the server holds. When a connected client reads a variable and the server answers, \<open>syncs_read\<close> returns 0
  and the bytes of the variable, cut to the size the caller asked for, with their number. A name that was never written
  reads as success with no bytes, not as an error.
\<close>

theorem read_end_to_end:
  assumes "passive_callbacks call" "client_callbacks ccall" "server_inv s" "k < SYNCS_CLIENT_MAXIMUM"
    "c_buffer_recv (s_clients s k) = 0" "c_socketfd (s_clients s k) > -1" "os_script (s_os s) = []"
    "cn_online c" "live_id (syncs_idstr cid)"
  shows "\<exists>n c'. syncs_read (round_trip ccall call k s) flags cid sz c =
    (0, take (unat sz) (value_of (variables s) (syncs_idstr cid)), n, c') \<and>
    unat n = min (unat sz) (length (value_of (variables s) (syncs_idstr cid)))"
proof -
  let ?x = "syncs_idstr cid"
  let ?v = "value_of (variables s) ?x"
  define type where "type = (SYNCS_TYPE_READ OR (flags AND SYNCS_TYPE_VAR_MASK))"
  define f where "f = (syncs_fill_header_request_str cid type (p_header (os_stack (cn_os c))), [] :: byte list)"
  have f: "frame_ok f" "h_type (fst f) = type" "h_id (fst f) = ?x"
    using request_str_frame [of type cid "p_header (os_stack (cn_os c))"] by (simp_all add: request_frame_def f_def)
  define c1 where "c1 = cn_sent [frame_bytes f] (c\<lparr>cn_read_wait := True, cn_read_id := ?x\<rparr>)"
  obtain h where h: "frame_ok (h, ?v)" "h_id h = ?x" "h_type h AND SYNCS_TYPE_MSG_MASK = SYNCS_TYPE_READ"
    "server_answers call k s (frame_bytes f) = [frame_bytes (h, ?v)]"
    using passive_callbacks.server_answers_read [OF assms(1,3-7) f(1)] f assms(9) read_type by (auto simp: type_def)
  obtain p b m where p: "p_header p = h" "mem_read (p_buffer p) 0 (length ?v) = ?v"
    and r: "syncs_recv_round ccall (Client_recv (frame_bytes (h, ?v))) 0 c1 =
      (True, 0, (syncs_process_packet ccall p (c1\<lparr>cn_buffer := m\<rparr>))\<lparr>cn_buffer := b\<rparr>)"
    using client_callbacks.recv_one_frame [OF assms(2) h(1), of c1] by auto
  have sz: "unat (h_data_size h) = length ?v" "length ?v \<le> SYNCS_VARIABLE_SIZE_MAXIMUM" using h(1) by (simp_all add: frame_ok_def)
  define c2 where "c2 = (syncs_process_packet ccall p (c1\<lparr>cn_buffer := m\<rparr>))\<lparr>cn_buffer := b\<rparr>"
  have c2: "\<not> cn_read_wait c2" "cn_read_size c2 = length ?v" "mem_read (cn_read_data c2) 0 (length ?v) = ?v"
    using h(2,3) p sz by (simp_all add: c2_def syncs_process_packet_def Let_def c1_def mem_simps)
  have "round_trip ccall call k s c1 = c2"
    using assms(8) by (simp add: round_trip_def c1_def h(4) cn_online_def) (simp add: c1_def [symmetric] r c2_def)
  then have eq: "syncs_read (round_trip ccall call k s) flags cid sz c =
    (let n = (if unat sz > length ?v then of_nat (length ?v) else sz) in (0, mem_read (cn_read_data c2) 0 (unat n), n, c2))"
    using assms(8) c2
    by (simp add: syncs_read_def Let_def connect_send_online cn_online_def f_def type_def c1_def fill_defs)
  define n :: u32 where "n = (if unat sz > length ?v then of_nat (length ?v) else sz)"
  have n: "unat n = min (unat sz) (length ?v)" using sz(2) by (simp add: n_def unat_of_nat_small)
  have "mem_read (cn_read_data c2) 0 (unat n) = take (unat sz) ?v"
    using arg_cong [OF c2(3), of "take (unat sz)"] by (simp add: n mem_simps)
  then show ?thesis using n by (simp add: eq Let_def n_def [symmetric])
qed

lemma add_client_recv: "c_buffer_recv (s_clients (snd (syncs_add_client_to_event c i s)) d) = c_buffer_recv (s_clients s d)"
  by (simp add: syncs_add_client_to_event_def Let_def split: option.splits)

text \<open>A server with a variable of four bytes, and the TCP client 5 connected.\<close>

definition sample_value :: syncs_server where
  "sample_value = upd_event 0 (\<lambda>e. e\<lparr>e_data := mem_of [1, 2, 3, 4], e_data_size := 4\<rparr>) sample_subscribed"

lemma sample_value_facts:
  shows "server_inv sample_value" "s_os sample_value = idle_os" "c_socketfd (s_clients sample_value 5) = 7"
    "c_buffer_recv (s_clients sample_value 5) = 0"
    "variables sample_value (syncs_idstr (cstr ''a'')) = Some (SYNCS_TYPE_VAR_INT32, [1, 2, 3, 4])"
proof -
  let ?a = "syncs_idstr (cstr ''a'')"
  note f = sample_subscribed_facts
  show inv: "server_inv sample_value"
    unfolding sample_value_def using f(1) inv_event [OF f(1), of 0]
    by (intro server_inv_upd_event) (simp_all add: event_ok_def subscribers_def)
  show "s_os sample_value = idle_os" "c_socketfd (s_clients sample_value 5) = 7" by (simp_all add: sample_value_def f)
  show "c_buffer_recv (s_clients sample_value 5) = 0"
    by (simp add: sample_value_def sample_subscribed_def add_client_recv create_event_frame sample_server_fields zero_client_def)
  have id0: "e_id (s_events sample_subscribed 0) = ?a" using ev.find_Some [OF f(6)] by simp
  then have "syncs_find_event sample_value ?a = Some 0"
    using ev.find_live [OF inv_event_ids [OF inv] live_id_a, of 0] by (simp add: sample_value_def)
  then show "variables sample_value ?a = Some (SYNCS_TYPE_VAR_INT32, [1, 2, 3, 4])"
    using f(5) variables_find [OF f(6) live_id_a]
    by (simp add: variables_find live_id_a) (simp add: sample_value_def var_of_def mem_read_mem_of)
qed

theorem read_end_to_end_witness:
  "\<exists>n c'. syncs_read (round_trip syncsctrl_call syncsserver_call 5 sample_value) 0x200 (cstr ''a'') 8 sample_connect =
     (0, [1, 2, 3, 4], n, c') \<and> unat n = length [1 :: byte, 2, 3, 4]"
  using read_end_to_end [OF syncsserver.passive_callbacks_axioms syncsctrl.client_callbacks_axioms sample_value_facts(1) _
      sample_value_facts(4) _ _ sample_connect_online live_id_a, of "0x200" 8]
  by (simp add: sample_value_facts idle_os_def value_of_def)

end
