(* ===== verification/Client_Lists.thy ===== *)
theory Client_Lists
  imports Client_Link
begin

unbundle bit_operations_syntax

text \<open>
  The lists of events, clients and channels as a client gets them: the pages a server sends for a request are
  put together again in the client's array. The locale \<open>client_list\<close> is what the three lists share; the reassembly is
  proved once in it. At the end the request, the pages of the server and the reassembly are joined.
\<close>

section \<open>Entries in a block of bytes\<close>

definition chunks :: "nat \<Rightarrow> (byte list \<Rightarrow> 'v) \<Rightarrow> byte list \<Rightarrow> nat \<Rightarrow> 'v list" where
  "chunks esz get ds n = map (\<lambda>j. get (take esz (drop (j * esz) ds))) [0..<n]"

lemma length_chunks [simp]: "length (chunks esz get ds n) = n"
  by (simp add: chunks_def)

lemma chunks_append:
  assumes "length ds = n * esz"
  shows "chunks esz get (ds @ es) (n + k) = chunks esz get ds n @ chunks esz get es k"
proof -
  have "take esz (drop (j * esz) (ds @ es)) = take esz (drop (j * esz) ds)" if "j < n" for j
  proof -
    have "j * esz + esz \<le> n * esz" using that by (metis Suc_leI add.commute mult_Suc mult_le_mono1)
    then show ?thesis using assms by simp
  qed
  moreover have "take esz (drop ((n + j) * esz) (ds @ es)) = take esz (drop (j * esz) es)" for j
    using assms by (simp add: add_mult_distrib)
  moreover have "[0..<n + k] = [0..<n] @ map (\<lambda>j. n + j) [0..<k]"
    using map_add_upt [of n k] upt_add_eq_append [of 0 n k] by (simp add: add.commute)
  ultimately show ?thesis by (simp only: chunks_def map_append map_map comp_def) (auto intro!: map_cong simp del: take_append drop_append)
qed

lemma chunks_mem: "chunks esz get (mem_read m 0 (n * esz)) n = map (\<lambda>j. get (mem_read m (j * esz) esz)) [0..<n]"
proof -
  have "min esz (n * esz - j * esz) = esz" if "j < n" for j
  proof -
    have "j * esz + esz \<le> n * esz" using that by (metis Suc_leI add.commute mult_Suc mult_le_mono1)
    then show ?thesis by simp
  qed
  then show ?thesis by (simp add: chunks_def mem_simps)
qed

lemma page_entries_chunks:
  "page_entries esz get (header_bytes h @ d) = chunks esz get d (unat (id_c (h_id h) 2))"
proof -
  have "(header_bytes h @ d) ! 11 = id_c (h_id h) 2" using header_bytes_id [of 2 h] by (simp add: nth_append)
  then show ?thesis by (simp add: page_entries_def chunks_def)
qed

section \<open>One page\<close>

text \<open>
  The state of a list after \<open>j\<close> pages of the answer number \<open>sequance\<close>, with \<open>n\<close> entries that hold the bytes \<open>ds\<close>.
\<close>

definition collected :: "byte \<Rightarrow> nat \<Rightarrow> nat \<Rightarrow> nat \<Rightarrow> byte list \<Rightarrow> list_state \<Rightarrow> bool" where
  "collected sequance esz j n ds l \<longleftrightarrow> l_sequence l = sequance \<and> l_wait_packet l = of_nat j \<and> l_recv l = int n \<and> length ds = n * esz \<and>
     (\<exists>m. l_info l = Some m \<and> mem_read m 0 (n * esz) = ds)"

definition page_frame :: "u32 \<Rightarrow> byte \<Rightarrow> nat \<Rightarrow> nat \<Rightarrow> byte \<Rightarrow> frame \<Rightarrow> bool" where
  "page_frame type sequance esz k final f \<longleftrightarrow> frame_ok f \<and> page_header type sequance k final (fst f) \<and>
     length (snd f) = unat (id_c (h_id (fst f)) 2) * esz \<and> unat (id_c (h_id (fst f)) 2) < 128"

lemma sint_small: "unat (b :: byte) < 128 \<Longrightarrow> sint b = int (unat b)"
proof -
  assume "unat b < 128"
  then have "int (unat b) < 128" by linarith
  then have "uint b < 128" by (simp only: of_nat_unat)
  then have "signed_take_bit 7 (uint b) = uint b"
    by (simp add: signed_take_bit_int_eq_self order.trans [OF _ uint_ge_0])
  then show "sint b = int (unat b)" by (simp add: sint_uint)
qed

lemma process_page:
  assumes l: "collected sequance esz j n ds l" and f: "page_frame type sequance esz j final f"
    and p: "p_header p = fst f" "mem_read (p_buffer p) 0 (length (snd f)) = snd f" and esz: "0 < esz"
  defines "c \<equiv> unat (id_c (h_id (fst f)) 2)"
  shows "collected sequance esz (j + 1) (n + c) (ds @ snd f) (fst (process_list_page esz cap p l))"
    "snd (process_list_page esz cap p l) \<longleftrightarrow> cap < n + c"
    "l_wait (fst (process_list_page esz cap p l)) = (if final = 1 then False else l_wait l)"
proof -
  obtain m where m: "l_info l = Some m" "mem_read m 0 (n * esz) = ds" using l by (auto simp: collected_def)
  have h: "id_c (h_id (fst f)) 3 = l_sequence l" "id_c (h_id (fst f)) 0 = l_wait_packet l" "id_c (h_id (fst f)) 4 = final"
    using f l by (simp_all add: page_frame_def page_header_def collected_def)
  have sz: "unat (h_data_size (fst f)) = length (snd f)" "length (snd f) = c * esz" "sint (id_c (h_id (fst f)) 2) = int c"
    using f by (simp_all add: page_frame_def frame_ok_def c_def sint_small)
  have r: "l_recv l = int n" using l by (simp add: collected_def)
  have eq: "process_list_page esz cap p l =
     (l\<lparr>l_info := Some (mem_put (n * esz) (snd f) m), l_recv := int (n + c), l_wait_packet := l_wait_packet l + 1,
        l_wait := (if final = 1 then False else l_wait l)\<rparr>, n * esz + length (snd f) > cap * esz)"
    using h p sz(1) by (simp add: process_list_page_def Let_def m r sz(3))
  have "mem_read (mem_put (n * esz) (snd f) m) 0 (n * esz + length (snd f)) = ds @ snd f"
    using m(2) by (simp add: mem_read_put_append)
  then show "collected sequance esz (j + 1) (n + c) (ds @ snd f) (fst (process_list_page esz cap p l))"
    using l sz(2) by (simp add: collected_def eq add_mult_distrib)
  have "n * esz + length (snd f) = (n + c) * esz" by (simp add: sz(2) add_mult_distrib)
  then show "snd (process_list_page esz cap p l) \<longleftrightarrow> cap < n + c" using esz by (simp add: eq)
  show "l_wait (fst (process_list_page esz cap p l)) = (if final = 1 then False else l_wait l)" by (simp add: eq)
qed

text \<open>A page that the server sends is such a frame.\<close>

definition page_of :: "byte list \<Rightarrow> frame" where
  "page_of pg = (header_of_bytes (take sizeof_syncs_header pg), drop sizeof_syncs_header pg)"

lemma page_of_frame:
  assumes "page_ok type sequance esz k final pg" "length (page_entries esz get pg) \<le> maxn" "maxn * esz \<le> SYNCS_VARIABLE_SIZE_MAXIMUM" "maxn < 128"
  shows "page_frame type sequance esz k final (page_of pg)" "frame_bytes (page_of pg) = pg"
    "page_entries esz get pg = chunks esz get (snd (page_of pg)) (unat (id_c (h_id (fst (page_of pg))) 2))"
proof -
  obtain h d where pg: "pg = header_bytes h @ d" "page_header type sequance k final h" "unat (h_data_size h) = length d"
    "length d = unat (id_c (h_id h) 2) * esz"
    using assms(1) by (auto simp: page_ok_def)
  have of: "page_of pg = (h, d)" by (simp add: page_of_def pg(1))
  show e: "page_entries esz get pg = chunks esz get (snd (page_of pg)) (unat (id_c (h_id (fst (page_of pg))) 2))"
    by (simp only: of fst_conv snd_conv) (simp add: pg(1) page_entries_chunks)
  have n: "unat (id_c (h_id h) 2) \<le> maxn" using assms(2) e by (simp add: of)
  then have "length d \<le> maxn * esz" by (simp add: pg(4))
  then have "length d \<le> SYNCS_VARIABLE_SIZE_MAXIMUM" using assms(3) by linarith
  then show "page_frame type sequance esz k final (page_of pg)"
    unfolding of using pg(2-) n assms(4) by (simp add: page_frame_def frame_ok_def page_header_def)
  show "frame_bytes (page_of pg) = pg" unfolding of by (simp add: frame_bytes_def pg(1))
qed

text \<open>All pages of a list, with the entries \<open>vals\<close>.\<close>

definition pages_ok :: "u32 \<Rightarrow> byte \<Rightarrow> nat \<Rightarrow> nat \<Rightarrow> (byte list \<Rightarrow> 'v) \<Rightarrow> byte list list \<Rightarrow> 'v list \<Rightarrow> bool" where
  "pages_ok type sequance esz maxn get pgs vals \<longleftrightarrow> concat (map (page_entries esz get) pgs) = vals \<and> pgs \<noteq> [] \<and>
     (\<forall>k<length pgs. page_ok type sequance esz k (if Suc k = length pgs then 1 else 0) (pgs ! k) \<and>
        length (page_entries esz get (pgs ! k)) \<le> maxn)"

definition entries :: "frame list \<Rightarrow> nat" where
  "entries fs = sum_list (map (\<lambda>f. unat (id_c (h_id (fst f)) 2)) fs)"

lemma entries_chunks:
  assumes "\<And>f. f \<in> set fs \<Longrightarrow> length (snd f) = unat (id_c (h_id (fst f)) 2) * esz"
  shows "chunks esz get (concat (map snd fs)) (entries fs) = concat (map (\<lambda>f. chunks esz get (snd f) (unat (id_c (h_id (fst f)) 2))) fs)"
  using assms
proof (induction fs)
  case (Cons f fs)
  then show ?case
    using chunks_append [of "snd f" "unat (id_c (h_id (fst f)) 2)" esz get "concat (map snd fs)" "entries fs"]
    by (simp add: entries_def)
qed (simp add: chunks_def entries_def)

lemma pages_ok_frames:
  assumes "pages_ok type sequance esz maxn get pgs vals" "maxn * esz \<le> SYNCS_VARIABLE_SIZE_MAXIMUM" "maxn < 128"
  defines "fs \<equiv> map page_of pgs"
  shows "fs \<noteq> []" "map (\<lambda>f. Client_recv (frame_bytes f)) fs = map Client_recv pgs" "entries fs = length vals"
    "chunks esz get (concat (map snd fs)) (length vals) = vals"
    "\<And>k. k < length fs \<Longrightarrow> page_frame type sequance esz (0 + k) (if Suc k = length fs then 1 else 0) (fs ! k)"
proof -
  have pk: "page_ok type sequance esz k (if Suc k = length pgs then 1 else 0) (pgs ! k)" "length (page_entries esz get (pgs ! k)) \<le> maxn"
    if "k < length pgs" for k using assms(1) that by (simp_all add: pages_ok_def)
  note each = page_of_frame [OF pk assms(2,3)]
  show "fs \<noteq> []" using assms(1) by (simp add: fs_def pages_ok_def)
  have bytes: "map (frame_bytes \<circ> page_of) pgs = pgs" using each(2) by (intro map_idI) (auto simp: in_set_conv_nth)
  then show "map (\<lambda>f. Client_recv (frame_bytes f)) fs = map Client_recv pgs"
    by (metis (no_types, lifting) fs_def comp_apply map_eq_conv map_map)
  have sizes: "length (snd f) = unat (id_c (h_id (fst f)) 2) * esz" if "f \<in> set fs" for f
    using that each(1) by (auto simp: fs_def in_set_conv_nth page_frame_def)
  have "map (page_entries esz get) pgs = map (\<lambda>f. chunks esz get (snd f) (unat (id_c (h_id (fst f)) 2))) fs"
    using each(3) by (auto simp: fs_def in_set_conv_nth)
  then have c: "chunks esz get (concat (map snd fs)) (entries fs) = vals"
    using entries_chunks [of fs esz get, OF sizes] assms(1) by (simp add: pages_ok_def)
  then show "entries fs = length vals" by (metis length_chunks)
  with c show "chunks esz get (concat (map snd fs)) (length vals) = vals" by simp
  show "page_frame type sequance esz (0 + k) (if Suc k = length fs then 1 else 0) (fs ! k)" if "k < length fs" for k
    using each(1) that by (simp add: fs_def)
qed

section \<open>Any list\<close>

locale client_list =
  fixes getl :: "syncs_connect \<Rightarrow> list_state"
    and updl :: "(list_state \<Rightarrow> list_state) \<Rightarrow> syncs_connect \<Rightarrow> syncs_connect"
    and type :: u32
    and esz cap :: nat
  assumes esz_pos: "0 < esz"
    and get_upd: "getl (updl f s) = f (getl s)"
    and upd_frame: "cn_os (updl f s) = cn_os s" "cn_socketfd (updl f s) = cn_socketfd s" "cn_onexit (updl f s) = cn_onexit s"
    and get_frame: "getl (s\<lparr>cn_os := w\<rparr>) = getl s" "getl (s\<lparr>cn_buffer := b\<rparr>) = getl s"
    and process: "h_type (p_header p) = type \<Longrightarrow>
      getl (syncs_process_packet call p s) = fst (process_list_page esz cap p (getl s)) \<and>
      cn_os (syncs_process_packet call p s) = fault_if (snd (process_list_page esz cap p (getl s))) (cn_os s) \<and>
      cn_onexit (syncs_process_packet call p s) = cn_onexit s"
begin

lemma pages_collected:
  assumes "client_callbacks call" "collected sequance esz j n ds (getl c)" "\<not> cn_onexit c" "fs \<noteq> []"
    and "\<And>k. k < length fs \<Longrightarrow> page_frame type sequance esz (j + k) (if Suc k = length fs then 1 else 0) (fs ! k)"
    and "n + entries fs \<le> cap"
  shows "collected sequance esz (j + length fs) (n + entries fs) (ds @ concat (map snd fs))
      (getl (syncs_recv_rounds call (map (\<lambda>f. Client_recv (frame_bytes f)) fs) 0 c)) \<and>
    \<not> l_wait (getl (syncs_recv_rounds call (map (\<lambda>f. Client_recv (frame_bytes f)) fs) 0 c)) \<and>
    cn_os (syncs_recv_rounds call (map (\<lambda>f. Client_recv (frame_bytes f)) fs) 0 c) = cn_os c"
  using assms(2-)
proof (induction fs arbitrary: j n ds c)
  case (Cons f fs)
  have f: "page_frame type sequance esz j (if fs = [] then 1 else 0) f" using Cons.prems(4) [of 0] by simp
  then have ok: "frame_ok f" "h_type (fst f) = type" by (simp_all add: page_frame_def page_header_def)
  let ?c = "unat (id_c (h_id (fst f)) 2)"
  obtain p b m where p: "p_header p = fst f" "mem_read (p_buffer p) 0 (length (snd f)) = snd f"
    and r: "syncs_recv_round call (Client_recv (frame_bytes f)) 0 c = (True, 0, (syncs_process_packet call p (c\<lparr>cn_buffer := m\<rparr>))\<lparr>cn_buffer := b\<rparr>)"
    using client_callbacks.recv_one_frame [OF assms(1) ok(1)] by blast
  define c' where "c' = (syncs_process_packet call p (c\<lparr>cn_buffer := m\<rparr>))\<lparr>cn_buffer := b\<rparr>"
  note pp = process [of p call "c\<lparr>cn_buffer := m\<rparr>"]
  note page = process_page [OF Cons.prems(1) f p esz_pos, of cap]
  have small: "\<not> cap < n + ?c" using Cons.prems(5) by (simp add: entries_def)
  have c': "getl c' = fst (process_list_page esz cap p (getl c))" "cn_os c' = cn_os c" "\<not> cn_onexit c'"
    using pp ok(2) p(1) Cons.prems(2) page(2) small by (simp_all add: c'_def get_frame fault_if_def)
  have step: "syncs_recv_rounds call (map (\<lambda>f. Client_recv (frame_bytes f)) (f # fs)) 0 c =
      syncs_recv_rounds call (map (\<lambda>f. Client_recv (frame_bytes f)) fs) 0 c'"
    using Cons.prems(2) r by (simp add: c'_def)
  have coll: "collected sequance esz (j + 1) (n + ?c) (ds @ snd f) (getl c')" using page(1) by (simp add: c'(1))
  show ?case
  proof (cases "fs = []")
    case True
    then show ?thesis using coll c' page(3) unfolding step by (simp add: entries_def)
  next
    case False
    have "page_frame type sequance esz (j + 1 + k) (if Suc k = length fs then 1 else 0) (fs ! k)" if "k < length fs" for k
      using Cons.prems(4) [of "Suc k"] that by simp
    then show ?thesis
      using Cons.IH [OF coll c'(3) False] Cons.prems(5) c'(2) unfolding step by (simp add: entries_def add.assoc)
  qed
qed simp

text \<open>What a request does before it waits: the list is emptied, the sequence number goes up, one message goes out.\<close>

lemma request_sent:
  assumes on: "cn_online c" and info: "l_info (getl c) = None \<Longrightarrow> alloc \<noteq> None"
  shows "\<exists>c1 f. (\<forall>during. request_list getl updl type alloc during c =
      (if l_wait (getl (during c1)) then (None, during c1)
       else (map_option (\<lambda>m. (m, l_recv (getl (during c1)))) (l_info (getl (during c1))), during c1))) \<and>
    collected (l_sequence (getl c) + 1) esz 0 0 [] (getl c1) \<and> \<not> cn_onexit c1 \<and>
    cn_os c1 = (cn_os c)\<lparr>os_sent := os_sent (cn_os c) @ [(cn_socketfd c, frame_bytes f)]\<rparr> \<and>
    frame_ok f \<and> h_type (fst f) = type \<and> id_c (h_id (fst f)) 0 = l_sequence (getl c) + 1"
proof -
  define c0 where "c0 = (if l_info (getl c) = None then updl (\<lambda>l. l\<lparr>l_info := alloc\<rparr>) c else c)"
  have c0: "l_info (getl c0) \<noteq> None" "l_sequence (getl c0) = l_sequence (getl c)" "cn_os c0 = cn_os c"
    "cn_socketfd c0 = cn_socketfd c" "cn_onexit c0 = cn_onexit c"
    using info by (simp_all add: c0_def get_upd upd_frame)
  define h where "h = syncs_fill_basic_header_request type
    ((p_header (os_stack (cn_os c)))\<lparr>h_id := id_set_c 0 (l_sequence (getl c) + 1) (h_id (p_header (os_stack (cn_os c))))\<rparr>)"
  define ca where "ca = updl (\<lambda>l. l\<lparr>l_recv := 0, l_wait_packet := 0, l_wait := True\<rparr>)
    (updl (\<lambda>l. l\<lparr>l_sequence := l_sequence l + 1\<rparr>) c0)"
  have ca: "cn_online ca" "cn_os ca = cn_os c" "cn_socketfd ca = cn_socketfd c"
    using on by (simp_all add: ca_def cn_online_def upd_frame c0)
  have sock: "\<not> cn_socketfd c < 0" using on by (simp add: cn_online_def)
  define c1 where "c1 = cn_sent [header_bytes h] ca"
  obtain m0 where m0: "l_info (getl c0) = Some m0" using c0(1) by blast
  have req: "request_list getl updl type alloc during c =
      (if l_wait (getl (during c1)) then (None, during c1)
       else (map_option (\<lambda>m. (m, l_recv (getl (during c1)))) (l_info (getl (during c1))), during c1))" for during
    using m0 c0(2-) sock connect_send_online [OF ca(1), of "header_bytes h"]
    by (simp add: request_list_def c0_def [symmetric] Let_def get_upd upd_frame h_def ca_def c1_def)
  have "collected (l_sequence (getl c) + 1) esz 0 0 [] (getl c1)"
    using c0 by (auto simp: collected_def c1_def cn_sent_def get_frame ca_def get_upd)
  moreover have "frame_ok (h, [])" "h_type h = type" "id_c (h_id h) 0 = l_sequence (getl c) + 1"
    by (simp_all add: h_def frame_ok_def fill_defs id_c_set_c)
  moreover have "\<not> cn_onexit c1" "cn_os c1 = (cn_os c)\<lparr>os_sent := os_sent (cn_os c) @ [(cn_socketfd c, frame_bytes (h, []))]\<rparr>"
    using ca by (simp_all add: c1_def cn_online_def cn_sent_def)
  ultimately show ?thesis using req by (intro exI [of _ c1] exI [of _ "(h, [])"]) simp
qed

text \<open>
  A whole request: whatever message it sends is answered by the pages of a list that fits the array, received one in
  each read while it waits.
\<close>

lemma request_complete:
  assumes call: "client_callbacks call" and on: "cn_online c" and info: "l_info (getl c) = None \<Longrightarrow> alloc \<noteq> None"
    and maxn: "maxn * esz \<le> SYNCS_VARIABLE_SIZE_MAXIMUM" "maxn < 128" and cap: "length vals \<le> cap"
    and answer: "\<And>c1 f. frame_ok f \<Longrightarrow> h_type (fst f) = type \<Longrightarrow> id_c (h_id (fst f)) 0 = l_sequence (getl c) + 1 \<Longrightarrow>
        os_sent (cn_os c1) = os_sent (cn_os c) @ [(cn_socketfd c, frame_bytes f)] \<Longrightarrow>
        \<exists>pgs. pages_ok type (l_sequence (getl c) + 1) esz maxn get pgs vals \<and> during c1 = syncs_recv_rounds call (map Client_recv pgs) 0 c1"
  shows "\<exists>m c'. request_list getl updl type alloc during c = (Some (m, int (length vals)), c') \<and>
    map (\<lambda>j. get (mem_read m (j * esz) esz)) [0..<length vals] = vals \<and> os_fault (cn_os c') = os_fault (cn_os c)"
proof -
  obtain c1 f where req: "request_list getl updl type alloc during c =
      (if l_wait (getl (during c1)) then (None, during c1)
       else (map_option (\<lambda>m. (m, l_recv (getl (during c1)))) (l_info (getl (during c1))), during c1))"
    and c1: "collected (l_sequence (getl c) + 1) esz 0 0 [] (getl c1)" "\<not> cn_onexit c1"
      "cn_os c1 = (cn_os c)\<lparr>os_sent := os_sent (cn_os c) @ [(cn_socketfd c, frame_bytes f)]\<rparr>"
    and f: "frame_ok f" "h_type (fst f) = type" "id_c (h_id (fst f)) 0 = l_sequence (getl c) + 1"
    using request_sent [OF on info] by metis
  obtain pgs where pgs: "pages_ok type (l_sequence (getl c) + 1) esz maxn get pgs vals"
    and d: "during c1 = syncs_recv_rounds call (map Client_recv pgs) 0 c1"
    using answer [OF f, of c1] c1(3) by auto
  note fs = pages_ok_frames [OF pgs maxn]
  have "0 + entries (map page_of pgs) \<le> cap" using cap fs(3) by simp
  note fin = pages_collected [OF call c1(1,2) fs(1,5) this, unfolded fs(2,3), folded d]
  then obtain m where m: "l_info (getl (during c1)) = Some m"
    "mem_read m 0 (length vals * esz) = concat (map snd (map page_of pgs))" "l_recv (getl (during c1)) = int (length vals)"
    by (auto simp: collected_def)
  have "map (\<lambda>j. get (mem_read m (j * esz) esz)) [0..<length vals] = vals"
    using fs(4) chunks_mem [of esz get m "length vals"] by (simp add: m(2))
  then show ?thesis using fin m c1(3) by (simp add: req)
qed

end

interpretation elist: client_list cn_eventlist cn_eventlist_update SYNCS_TYPE_EVENT_LIST 90 SYNCS_EVENT_MAXIMUM
  by unfold_locales (simp_all add: syncs_process_packet_def Let_def cn_fault_def fault_if_def split: prod.split)

interpretation clist: client_list cn_clientlist cn_clientlist_update SYNCS_TYPE_CLIENT_LIST 52 SYNCS_CLIENT_MAXIMUM
  by unfold_locales (simp_all add: syncs_process_packet_def Let_def cn_fault_def fault_if_def split: prod.split)

interpretation chlist: client_list cn_channellist cn_channellist_update SYNCS_TYPE_CHANNEL_LIST 46 SYNCS_CHANNEL_MAXIMUM
  by unfold_locales (simp_all add: syncs_process_packet_def Let_def cn_fault_def fault_if_def split: prod.split)

section \<open>Request, pages and reassembly\<close>

lemma pages_of_delivery:
  assumes "list_delivered u t c type sequance esz maxn get vals" "c_socketfd (s_clients u c) > -1"
  shows "\<exists>pgs. pages_ok type sequance esz maxn get pgs vals \<and> map snd (drop (length (os_sent (s_os u))) (os_sent (s_os t))) = pgs"
proof -
  obtain pgs where pgs: "os_sent (s_os t) = os_sent (s_os u) @ concat (map (\<lambda>pg. stream_to u pg [c]) pgs)"
    "pages_ok type sequance esz maxn get pgs vals"
    using assms(1) by (auto simp: list_delivered_def pages_ok_def)
  have "map snd (concat (map (\<lambda>pg. stream_to u pg [c]) pgs)) = pgs"
    using assms(2) by (induction pgs) (simp_all add: stream_to_def)
  then show ?thesis using pgs by auto
qed

lemma same_tables:
  "u = upd_client c (\<lambda>cl. cl\<lparr>c_buffer := m\<rparr>) s \<Longrightarrow> event_used u = event_used s \<and> event_facts u = event_facts s \<and>
     client_used u = client_used s \<and> client_facts u = client_facts s \<and> c_socketfd (s_clients u d) = c_socketfd (s_clients s d)"
  by (auto simp: fun_eq_iff event_used_def event_facts_def client_used_def client_facts_def Let_def)

context passive_callbacks
begin

lemma server_answers_lists:
  assumes inv: "server_inv s" and c: "c < SYNCS_CLIENT_MAXIMUM" and recv: "c_buffer_recv (s_clients s c) = 0"
    and fd: "c_socketfd (s_clients s c) > -1" and net: "os_script (s_os s) = []" and f: "frame_ok f"
  shows "h_type (fst f) = SYNCS_TYPE_EVENT_LIST \<Longrightarrow>
      pages_ok SYNCS_TYPE_EVENT_LIST (id_c (h_id (fst f)) 0) 90 5 event_fields (server_answers call c s (frame_bytes f))
        (map (event_facts s) (filter (event_used s) [0..<SYNCS_EVENT_MAXIMUM]))"
    and "h_type (fst f) = SYNCS_TYPE_CLIENT_LIST \<Longrightarrow>
      pages_ok SYNCS_TYPE_CLIENT_LIST (id_c (h_id (fst f)) 0) 52 9 client_fields (server_answers call c s (frame_bytes f))
        (map (client_facts s) (filter (client_used s) [0..<SYNCS_CLIENT_MAXIMUM]))"
proof -
  obtain p b u m where p: "p_header p = fst f" and u: "s_os u = s_os s" "u = upd_client c (\<lambda>cl. cl\<lparr>c_buffer := m\<rparr>) s"
    and h: "syncs_client_handler call (Recv (frame_bytes f)) c s =
      upd_client c (\<lambda>cl. cl\<lparr>c_buffer := b, c_buffer_recv := 0\<rparr>)
        (snd (syncs_client_process_packet call c p (SYNCS_CLIENT_BUFFER_SIZE - sizeof_syncs_header) u))"
    using handler_one_frame [OF inv c recv f] by blast
  note same = same_tables [OF u(2), of c]
  have net': "os_script (s_os u) = []" by (simp add: u net)
  have fd': "c_socketfd (s_clients u c) > -1" using same fd by simp
  let ?sq = "id_c (h_id (fst f)) 0"
  have answer: "server_answers call c s (frame_bytes f) = map snd (drop (length (os_sent (s_os u))) (os_sent (s_os t)))"
    if "s_os (syncs_client_handler call (Recv (frame_bytes f)) c s) = s_os t" for t
    by (simp add: server_answers_def that u(1))
  show "pages_ok SYNCS_TYPE_EVENT_LIST ?sq 90 5 event_fields (server_answers call c s (frame_bytes f))
        (map (event_facts s) (filter (event_used s) [0..<SYNCS_EVENT_MAXIMUM]))" if "h_type (fst f) = SYNCS_TYPE_EVENT_LIST"
  proof -
    have os: "s_os (syncs_client_handler call (Recv (frame_bytes f)) c s) = s_os (syncs_client_send_eventlist c ?sq u)"
      using that by (simp add: h syncs_client_process_packet_def Let_def p)
    have "list_delivered u (syncs_client_send_eventlist c ?sq u) c SYNCS_TYPE_EVENT_LIST ?sq 90 5 event_fields
      (map (event_facts u) (filter (event_used u) [0..<SYNCS_EVENT_MAXIMUM]))"
      unfolding list_delivered_def syncs_client_send_eventlist_def using events.list_complete [OF net'] .
    from pages_of_delivery [OF this fd'] show ?thesis using same by (auto simp: answer [OF os])
  qed
  show "pages_ok SYNCS_TYPE_CLIENT_LIST ?sq 52 9 client_fields (server_answers call c s (frame_bytes f))
        (map (client_facts s) (filter (client_used s) [0..<SYNCS_CLIENT_MAXIMUM]))" if "h_type (fst f) = SYNCS_TYPE_CLIENT_LIST"
  proof -
    have os: "s_os (syncs_client_handler call (Recv (frame_bytes f)) c s) = s_os (syncs_client_send_clientlist c ?sq u)"
      using that by (simp add: h syncs_client_process_packet_def Let_def p)
    have "list_delivered u (syncs_client_send_clientlist c ?sq u) c SYNCS_TYPE_CLIENT_LIST ?sq 52 9 client_fields
      (map (client_facts u) (filter (client_used u) [0..<SYNCS_CLIENT_MAXIMUM]))"
      unfolding list_delivered_def syncs_client_send_clientlist_def using clients.list_complete [OF net'] .
    from pages_of_delivery [OF this fd'] show ?thesis using same by (auto simp: answer [OF os])
  qed
qed

end

lemma length_filter_upt: "length (filter P [0..<n]) \<le> n"
  using length_filter_le [of P "[0..<n]"] by simp

lemma event_list_arrives:
  assumes call: "passive_callbacks call" "client_callbacks ccall" and inv: "server_inv s" and k: "k < SYNCS_CLIENT_MAXIMUM"
    "c_buffer_recv (s_clients s k) = 0" "c_socketfd (s_clients s k) > -1" "os_script (s_os s) = []"
    and on: "cn_online c" and alloc: "l_info (cn_eventlist c) = None \<Longrightarrow> alloc \<noteq> None"
  defines "vals \<equiv> map (event_facts s) (filter (event_used s) [0..<SYNCS_EVENT_MAXIMUM])"
  shows "\<exists>m c'. syncs_request_eventslist alloc (round_trip ccall call k s) c = (Some (m, int (length vals)), c') \<and>
    map (\<lambda>j. event_fields (mem_read m (j * 90) 90)) [0..<length vals] = vals \<and> os_fault (cn_os c') = os_fault (cn_os c)"
  unfolding syncs_request_eventslist_def
proof (rule elist.request_complete [OF call(2) on alloc, where maxn = 5])
  show "length vals \<le> SYNCS_EVENT_MAXIMUM" by (simp add: vals_def length_filter_upt)
next
  fix c1 :: syncs_connect and f :: frame
  assume f: "frame_ok f" "h_type (fst f) = SYNCS_TYPE_EVENT_LIST" "id_c (h_id (fst f)) 0 = l_sequence (cn_eventlist c) + 1"
    and sent: "os_sent (cn_os c1) = os_sent (cn_os c) @ [(cn_socketfd c, frame_bytes f)]"
  show "\<exists>pgs. pages_ok SYNCS_TYPE_EVENT_LIST (l_sequence (cn_eventlist c) + 1) 90 5 event_fields pgs vals \<and>
      round_trip ccall call k s c1 = syncs_recv_rounds ccall (map Client_recv pgs) 0 c1"
    using passive_callbacks.server_answers_lists(1) [OF call(1) inv k f(1,2)] f(3)
    by (auto simp: round_trip_def sent vals_def)
qed simp_all

text \<open>
  C10: A client gets the whole list of events. When a connected client asks for the list and the server answers, page after
  page, \<open>syncs_request_eventslist\<close> returns an array and a count: every event in use on the server, once, in table order, with its
  id, type, counters, size and the first bytes of its data. The pages fit the client's array: nothing is copied past it.
\<close>

theorem event_list_end_to_end:
  assumes call: "passive_callbacks call" "client_callbacks ccall" and inv: "server_inv s" and k: "k < SYNCS_CLIENT_MAXIMUM"
    "c_buffer_recv (s_clients s k) = 0" "c_socketfd (s_clients s k) > -1" "os_script (s_os s) = []"
    and on: "cn_online c" and alloc: "l_info (cn_eventlist c) = None \<Longrightarrow> alloc \<noteq> None"
  defines "vals \<equiv> map (event_facts s) (filter (event_used s) [0..<SYNCS_EVENT_MAXIMUM])"
  shows "\<exists>m c'. syncs_request_eventslist alloc (round_trip ccall call k s) c = (Some (m, int (length vals)), c') \<and>
    map (\<lambda>j. event_fields (mem_read m (j * 90) 90)) [0..<length vals] = vals \<and> os_fault (cn_os c') = os_fault (cn_os c)"
  unfolding vals_def using call inv k on alloc by (rule event_list_arrives)

theorem event_list_end_to_end_witness:
  "\<exists>m c'. syncs_request_eventslist (Some (\<lambda>_. 0)) (round_trip syncsctrl_call syncsserver_call 5 sample_value) sample_connect =
     (Some (m, int (length (filter (event_used sample_value) [0..<SYNCS_EVENT_MAXIMUM]))), c')"
  using event_list_end_to_end [OF syncsserver.passive_callbacks_axioms syncsctrl.client_callbacks_axioms sample_value_facts(1) _
      sample_value_facts(4) _ _ sample_connect_online, of "Some (\<lambda>_. 0)"]
  by (auto simp: sample_value_facts idle_os_def)

text \<open>
  A client gets the whole list of clients: \<open>syncs_request_clientslist\<close> returns every client slot in use on the server, once, in table
  order, with its id, counters and address, and copies nothing past the client's array.
\<close>

lemma client_list_end_to_end:
  assumes call: "passive_callbacks call" "client_callbacks ccall" and inv: "server_inv s" and k: "k < SYNCS_CLIENT_MAXIMUM"
    "c_buffer_recv (s_clients s k) = 0" "c_socketfd (s_clients s k) > -1" "os_script (s_os s) = []"
    and on: "cn_online c" and alloc: "l_info (cn_clientlist c) = None \<Longrightarrow> alloc \<noteq> None"
  defines "vals \<equiv> map (client_facts s) (filter (client_used s) [0..<SYNCS_CLIENT_MAXIMUM])"
  shows "\<exists>m c'. syncs_request_clientslist alloc (round_trip ccall call k s) c = (Some (m, int (length vals)), c') \<and>
    map (\<lambda>j. client_fields (mem_read m (j * 52) 52)) [0..<length vals] = vals \<and> os_fault (cn_os c') = os_fault (cn_os c)"
  unfolding syncs_request_clientslist_def
proof (rule clist.request_complete [OF call(2) on alloc, where maxn = 9])
  show "length vals \<le> SYNCS_CLIENT_MAXIMUM" by (simp add: vals_def length_filter_upt)
next
  fix c1 :: syncs_connect and f :: frame
  assume f: "frame_ok f" "h_type (fst f) = SYNCS_TYPE_CLIENT_LIST" "id_c (h_id (fst f)) 0 = l_sequence (cn_clientlist c) + 1"
    and sent: "os_sent (cn_os c1) = os_sent (cn_os c) @ [(cn_socketfd c, frame_bytes f)]"
  show "\<exists>pgs. pages_ok SYNCS_TYPE_CLIENT_LIST (l_sequence (cn_clientlist c) + 1) 52 9 client_fields pgs vals \<and>
      round_trip ccall call k s c1 = syncs_recv_rounds ccall (map Client_recv pgs) 0 c1"
    using passive_callbacks.server_answers_lists(2) [OF call(1) inv k f(1,2)] f(3)
    by (auto simp: round_trip_def sent vals_def)
qed simp_all

end
