(* ===== verification/Ctrl.thy ===== *)
theory Ctrl
  imports Client_Link
begin

unbundle bit_operations_syntax

text \<open>
  The command-line tool \<^verbatim>\<open>src/syncsctrl/syncsctrl.c\<close>: its options, and the one operation it performs on a variable.

  The options are given as \<open>getopt_long\<close> returns them, with \<open>optarg\<close>; the global and local variables of the program
  are a record. \<open>atoi\<close> is the C library's. What the threads of the library do until the program has waited for the connection is the
  argument \<open>connected\<close>, what they do during a read is \<open>during\<close>. Output is left out.
\<close>

text \<open>Where the pointer \<open>value\<close> points to: \<open>value_str\<close>, \<open>value_int\<close>, or NULL.\<close>

datatype ctrl_value = Value_str | Value_int | Value_null

record ctrl =
  ct_mode :: char
  ct_value_size :: byte
  ct_var_name :: "byte list"
  ct_value :: ctrl_value
  ct_port :: int
  ct_address :: "byte list"
  ct_dontexit :: bool
  ct_quiet :: bool
  ct_udp :: bool
  ct_flag :: u32
  ct_value_int :: u32
  ct_value_str :: "byte list"

datatype ctrl_option =
    Opt_write "byte list" | Opt_notify "byte list" | Opt_read "byte list" | Opt_quiet | Opt_help
  | Opt_port "byte list" | Opt_address "byte list" | Opt_udp | Opt_loop | Opt_empty
  | Opt_int "byte list option" | Opt_char "byte list option" | Opt_string "byte list option" | Opt_other

text \<open>The variables before the options are read; the array \<open>var_name\<close> is uninitialised.\<close>

definition ctrl_start :: "byte list \<Rightarrow> ctrl" where
  "ctrl_start var_name = \<lparr>ct_mode = CHR ''r'', ct_value_size = 0, ct_var_name = var_name, ct_value = Value_str, ct_port = 4444,
     ct_address = cstr ''127.0.0.1'' @ replicate 23 0, ct_dontexit = True, ct_quiet = False, ct_udp = False,
     ct_flag = SYNCS_TYPE_VAR_INT32, ct_value_int = 0, ct_value_str = replicate 1024 0\<rparr>"

definition strncpy :: "nat \<Rightarrow> byte list \<Rightarrow> byte list \<Rightarrow> byte list" where
  "strncpy n src dst = take n (c_str src @ replicate n 0) @ drop n dst"

text \<open>One option; \<open>None\<close> is \<open>exit (1)\<close>. \<open>value_size\<close> is a \<open>char\<close>.\<close>

fun ctrl_apply :: "(byte list \<Rightarrow> int) \<Rightarrow> ctrl_option \<Rightarrow> ctrl \<Rightarrow> ctrl option" where
  "ctrl_apply atoi (Opt_write arg) v = Some (v\<lparr>ct_var_name := strncpy 32 arg (ct_var_name v), ct_mode := CHR ''w''\<rparr>)"
| "ctrl_apply atoi Opt_quiet v = Some (v\<lparr>ct_quiet := True\<rparr>)"
| "ctrl_apply atoi (Opt_notify arg) v = Some (v\<lparr>ct_var_name := strncpy 32 arg (ct_var_name v), ct_mode := CHR ''n''\<rparr>)"
| "ctrl_apply atoi (Opt_read arg) v = Some (v\<lparr>ct_var_name := strncpy 32 arg (ct_var_name v), ct_mode := CHR ''r''\<rparr>)"
| "ctrl_apply atoi Opt_help v = None"
| "ctrl_apply atoi (Opt_port arg) v = Some (v\<lparr>ct_port := atoi arg\<rparr>)"
| "ctrl_apply atoi (Opt_address arg) v = Some (v\<lparr>ct_address := strncpy 32 arg (ct_address v)\<rparr>)"
| "ctrl_apply atoi Opt_udp v = Some (v\<lparr>ct_udp := True\<rparr>)"
| "ctrl_apply atoi Opt_loop v = Some (v\<lparr>ct_dontexit := False\<rparr>)"
| "ctrl_apply atoi (Opt_int arg) v =
     (let v = (case arg of Some a \<Rightarrow> v\<lparr>ct_value_int := of_int (atoi a), ct_value_size := 4\<rparr> | None \<Rightarrow> v\<lparr>ct_value_size := 0\<rparr>)
      in Some (v\<lparr>ct_flag := SYNCS_TYPE_VAR_INT32, ct_value := Value_int\<rparr>))"
| "ctrl_apply atoi Opt_empty v = Some (v\<lparr>ct_flag := SYNCS_TYPE_VAR_EMPTY, ct_value := Value_null, ct_value_size := 0\<rparr>)"
| "ctrl_apply atoi (Opt_char arg) v =
     (let v = (case arg of Some a \<Rightarrow> v\<lparr>ct_value_int := scast (c_head a), ct_value_size := 4\<rparr> | None \<Rightarrow> v\<lparr>ct_value_size := 0\<rparr>)
      in Some (v\<lparr>ct_flag := SYNCS_TYPE_VAR_INT32, ct_value := Value_int\<rparr>))"
| "ctrl_apply atoi (Opt_string arg) v =
     (let v = (case arg of
                 Some a \<Rightarrow> (let v = v\<lparr>ct_value_str := strncpy 1024 a (ct_value_str v)\<rparr>
                           in v\<lparr>ct_value_size := of_nat (length (c_str (ct_value_str v)) + 1)\<rparr>)
               | None \<Rightarrow> v\<lparr>ct_value_size := 0\<rparr>)
      in Some (v\<lparr>ct_flag := SYNCS_TYPE_VAR_STRING, ct_value := Value_str\<rparr>))"
| "ctrl_apply atoi Opt_other v = Some v"

fun ctrl_options :: "(byte list \<Rightarrow> int) \<Rightarrow> ctrl_option list \<Rightarrow> ctrl \<Rightarrow> ctrl option" where
  "ctrl_options atoi [] v = Some v"
| "ctrl_options atoi (opt # opts) v = (case ctrl_apply atoi opt v of None \<Rightarrow> None | Some v \<Rightarrow> ctrl_options atoi opts v)"

definition ctrl_value_data :: "ctrl \<Rightarrow> mem option" where
  "ctrl_value_data v =
     (case ct_value v of Value_str \<Rightarrow> Some (mem_of (ct_value_str v)) | Value_int \<Rightarrow> Some (mem_of (le_bytes 4 (ct_value_int v))) | Value_null \<Rightarrow> None)"

text \<open>
  The operation. The \<open>char\<close> \<open>value_size\<close> becomes a \<open>uint32_t\<close> argument by way of \<open>int\<close>. A read stores into \<open>value_int\<close> or
  \<open>value_str\<close> what the library copied.
\<close>

definition ctrl_operation :: "(syncs_connect \<Rightarrow> syncs_connect) \<Rightarrow> ctrl \<Rightarrow> syncs_connect \<Rightarrow> ctrl \<times> syncs_connect" where
  "ctrl_operation during v c =
     (if ct_mode v = CHR ''w'' then
        (v, snd (syncs_write (ct_flag v) (ct_var_name v) (ctrl_value_data v) (scast (ct_value_size v)) c))
      else if ct_mode v = CHR ''r'' then
        (if ct_flag v = SYNCS_TYPE_VAR_INT32 then
           (let (ret, data, n, c) = syncs_read_int32 during 0 (ct_var_name v) c
            in (v\<lparr>ct_value_int := le_word (data @ drop (length data) (le_bytes 4 (ct_value_int v)))\<rparr>, c))
         else
           (let (ret, data, n, c) = syncs_read_str during 0 (ct_var_name v) 1024 c
            in (v\<lparr>ct_value_str := data @ drop (length data) (ct_value_str v)\<rparr>, c)))
      else if ct_mode v = CHR ''n'' then
        (v, snd (syncs_subscribe_event (ct_flag v) (ct_var_name v) (Some 1) 0 c))
      else (v, c))"

text \<open>\<open>main\<close>: \<open>None\<close> when it exits at once; a client that cannot be created is used all the same.\<close>

definition syncsctrl_main ::
    "(byte list \<Rightarrow> int) \<Rightarrow> (syncs_connect \<Rightarrow> syncs_connect) \<Rightarrow> (syncs_connect \<Rightarrow> syncs_connect) \<Rightarrow> ctrl_option list \<Rightarrow> byte list \<Rightarrow> bool \<Rightarrow> os \<Rightarrow>
     (ctrl \<times> syncs_connect option) option" where
  "syncsctrl_main atoi connected during opts junk allocated w =
     (case ctrl_options atoi opts (ctrl_start junk) of
        None \<Rightarrow> None
      | Some v \<Rightarrow>
          (case (if ct_udp v then syncs_udpconnect allocated (Some (ct_address v)) (ct_port v) (Some (cstr ''syncs-rw'')) w
                 else syncs_connect_create allocated (Some (ct_address v)) (ct_port v) (Some (cstr ''syncs-rw'')) (Some 0) 0 w) of
             None \<Rightarrow> Some (v, None)
           | Some c \<Rightarrow> (let (v, c) = ctrl_operation during v (connected c) in Some (v, Some c))))"

section \<open>Properties\<close>

lemma signed_byte_wraps:
  assumes "128 \<le> n" "n < 256"
  shows "unat (scast (of_nat n :: 8 word) :: 32 word) = 4294967040 + n"
proof -
  define z where "z = int n - 256"
  have "sint (of_nat n :: 8 word) = signed_take_bit 7 (int n)" by (simp add: signed_of_nat)
  also have "\<dots> = signed_take_bit 7 z" by (simp add: z_def signed_take_bit_eq_iff_take_bit_eq take_bit_eq_mod)
  also have "\<dots> = z" using assms by (intro signed_take_bit_int_eq_self) (auto simp: z_def)
  finally have "(scast (of_nat n :: 8 word) :: 32 word) = word_of_int z" by (metis of_int_sint)
  then have "uint (scast (of_nat n :: 8 word) :: 32 word) = z mod 2 ^ 32" by (simp add: uint_word_of_int)
  also have "\<dots> = (z + 2 ^ 32) mod 2 ^ 32" by simp
  also have "\<dots> = z + 2 ^ 32" using assms by (intro mod_pos_pos_trivial) (auto simp: z_def)
  finally show ?thesis using assms by (simp add: unat_eq_nat_uint z_def)
qed
lemma c_str_append: "0 \<notin> set a \<Longrightarrow> c_str (a @ b) = a @ c_str b"
  unfolding c_str_def by (rule takeWhile_append2) auto

lemma c_str_strncpy: "take n (c_str (strncpy (Suc n) src dst)) = take n (c_str src)"
proof (cases "length (c_str src) \<le> n")
  case True
  then have "strncpy (Suc n) src dst = c_str src @ 0 # replicate (n - length (c_str src)) 0 @ drop (Suc n) dst"
    by (simp add: strncpy_def Suc_diff_le)
  then show ?thesis by (simp add: c_str_def takeWhile_append)
next
  case False
  then have "strncpy (Suc n) src dst = take (Suc n) (c_str src) @ drop (Suc n) dst" by (simp add: strncpy_def)
  moreover have "0 \<notin> set (take (Suc n) (c_str src))" using zero_notin_c_str by (metis in_set_takeD)
  ultimately have "c_str (strncpy (Suc n) src dst) = take (Suc n) (c_str src) @ c_str (drop (Suc n) dst)"
    by (simp add: c_str_append)
  then show ?thesis using False by (simp add: min_def)
qed

lemma idstr_strncpy: "syncs_idstr (strncpy 32 name dst) = syncs_idstr name"
  using c_str_strncpy [of 31 name dst] by (intro idstr_cong) simp

text \<open>
  C19: \<open>syncsctrl -w name -i n\<close> writes the number. Whatever the name, \<open>main\<close> sends one message over the connection, and the server that
  receives it performs the write of the four bytes of the number, as an \<open>int\<close>, to the variable of that name if it exists.
\<close>

theorem ctrl_writes_int:
  assumes "passive_callbacks call" "server_inv s" "k < SYNCS_CLIENT_MAXIMUM" "c_buffer_recv (s_clients s k) = 0"
    and "cn_online c" "\<And>c'. connected c' = c" "live_id (syncs_idstr name)"
  shows "\<exists>v msg. syncsctrl_main atoi connected during [Opt_write name, Opt_int (Some arg)] junk True w = Some (v, Some (cn_sent [msg] c)) \<and>
    variables (syncs_client_handler call (Recv msg) k s) =
      snd (abs_write False (syncs_idstr name) SYNCS_TYPE_VAR_INT32 (le_bytes 4 (of_int (atoi arg) :: u32)) (variables s))"
proof -
  let ?n = "of_int (atoi arg) :: u32"
  have "write_data SYNCS_TYPE_VAR_INT32 (Some (mem_of (le_bytes 4 ?n))) 4 = le_bytes 4 ?n"
    by (simp add: write_data_def mem_read_mem_of)
  then obtain msg where "syncs_write SYNCS_TYPE_VAR_INT32 (strncpy 32 name junk) (Some (mem_of (le_bytes 4 ?n))) 4 c = (0, cn_sent [msg] c)"
    "variables (syncs_client_handler call (Recv msg) k s) =
      snd (abs_write False (syncs_idstr name) SYNCS_TYPE_VAR_INT32 (le_bytes 4 ?n) (variables s))"
    using write_arrives [OF assms(1-5), of SYNCS_TYPE_VAR_INT32 "Some (mem_of (le_bytes 4 ?n))" 4 "strncpy 32 name junk"] assms(7)
    by (auto simp: idstr_strncpy)
  then show ?thesis
    by (auto simp: syncsctrl_main_def ctrl_start_def syncs_connect_create_def Let_def assms(6) ctrl_operation_def ctrl_value_data_def)
qed

theorem ctrl_writes_int_witness:
  "\<exists>v msg. syncsctrl_main (\<lambda>_. 83) (\<lambda>_. sample_connect) id [Opt_write (cstr ''a''), Opt_int (Some (cstr ''83''))] [] True idle_os
      = Some (v, Some (cn_sent [msg] sample_connect)) \<and>
    variables (syncs_client_handler syncsserver_call (Recv msg) 5 sample_value) (syncs_idstr (cstr ''a''))
      = Some (SYNCS_TYPE_VAR_INT32, le_bytes 4 (83 :: u32))"
proof -
  let ?a = "syncs_idstr (cstr ''a'')" and ?d = "le_bytes 4 (of_int 83 :: u32)"
  obtain v msg where m: "syncsctrl_main (\<lambda>_. 83) (\<lambda>_. sample_connect) id [Opt_write (cstr ''a''), Opt_int (Some (cstr ''83''))] [] True idle_os
      = Some (v, Some (cn_sent [msg] sample_connect))"
    "variables (syncs_client_handler syncsserver_call (Recv msg) 5 sample_value) = snd (abs_write False ?a SYNCS_TYPE_VAR_INT32 ?d (variables sample_value))"
    using ctrl_writes_int [OF syncsserver.passive_callbacks_axioms sample_value_facts(1) _ sample_value_facts(4) sample_connect_online,
      of "\<lambda>_. sample_connect" "cstr ''a''" "\<lambda>_. 83" id "cstr ''83''" "[]" idle_os] live_id_a by auto
  have "snd (abs_write False ?a SYNCS_TYPE_VAR_INT32 ?d (variables sample_value)) ?a = Some (SYNCS_TYPE_VAR_INT32, ?d)"
    using sample_value_facts(5) by (auto simp: abs_write_def abs_open_def dom_def)
  then show ?thesis using m by auto
qed

text \<open>
  \<open>syncsctrl\<close> fails on long strings. With \<open>-w name -s text\<close> the size is kept in a \<open>char\<close>: a text of 127 to 254 characters gives a negative
  size, which \<open>syncs_write\<close> takes for more than four billion bytes, and the program runs out of its array.
\<close>

lemma ctrl_long_string_faults:
  assumes "127 \<le> length (c_str text)" "length (c_str text) \<le> 254" "\<And>c'. connected c' = c"
  shows "\<exists>v c'. syncsctrl_main atoi connected during [Opt_write name, Opt_string (Some text)] junk True w = Some (v, Some c') \<and> os_fault (cn_os c')"
proof -
  let ?buf = "strncpy 1024 text (replicate 1024 0)" and ?n = "length (c_str text) + 1"
  have "strncpy 1024 text (replicate 1024 0) = c_str text @ replicate (1024 - length (c_str text)) 0"
    using assms(2) by (simp add: strncpy_def)
  then have len: "length (c_str ?buf) = length (c_str text)"
    using assms(2) by (simp add: c_str_def takeWhile_append)
  have n: "unat (scast (of_nat ?n :: byte) :: u32) > 4095"
  proof -
    have "unat (scast (of_nat ?n :: byte) :: u32) = 4294967040 + ?n" by (rule signed_byte_wraps) (use assms in auto)
    then show ?thesis by linarith
  qed
  then have nz: "(scast (of_nat ?n :: byte) :: u32) \<noteq> 0" by (intro notI) simp
  have "os_fault (cn_os (snd (syncs_write SYNCS_TYPE_VAR_STRING cid (Some d) (scast (of_nat ?n :: byte)) c)))" for cid d
    using n nz only_ioD(10) [OF connect_send_io] by (simp add: syncs_write_def Let_def)
  then show ?thesis
    using len by (auto simp: syncsctrl_main_def ctrl_start_def syncs_connect_create_def Let_def assms(3) ctrl_operation_def ctrl_value_data_def)
qed


end
