(* ===== verification/Print.thy ===== *)
theory Print
  imports Ctrl Text
begin

unbundle bit_operations_syntax

text \<open>
  The tables of text that \<open>syncs_server_print_event\<close> of \<^verbatim>\<open>src/libsyncs/syncs-server.c\<close> writes, and the loop of \<open>syncsserver\<close>, which does so once a second.

  The result is the text, or \<open>None\<close> when a function of the C library is called outside of what it is defined for: \<open>isprint\<close> on a value outside its table, \<open>%s\<close> on
  an array without a zero. The conversions \<open>%f\<close> of the bytes of a \<open>float\<close> and a \<open>double\<close> are the parameters \<open>fmt_f\<close> and \<open>fmt_lf\<close>.
\<close>

section \<open>The table\<close>

text \<open>\<open>%<n>s\<close> on an array, and the lines of a table: a separator before each column.\<close>

definition print_s :: "nat \<Rightarrow> byte list \<Rightarrow> byte list option" where
  "print_s n a = (if 0 \<in> set a then Some (pad n (c_str a)) else None)"

definition columns :: "byte list list \<Rightarrow> byte list" where
  "columns cs = concat (map (\<lambda>c. 124 # c) cs)"

definition lines_text :: "byte list option list \<Rightarrow> byte list option" where
  "lines_text ls = map_option concat (those ls)"

text \<open>The column of the value: what \<open>snprintf\<close> leaves in \<open>str\<close>. A \<open>char\<close> of the value is its first byte.\<close>

definition print_int32 :: "u32 \<Rightarrow> byte list" where
  "print_int32 x = print_d (sint x) @ [47, ucast x]"

definition event_value :: "(byte list \<Rightarrow> byte list) \<Rightarrow> (byte list \<Rightarrow> byte list) \<Rightarrow> syncs_event \<Rightarrow> byte list option" where
  "event_value fmt_f fmt_lf e =
     (let x = le_word (mem_read (e_data e) 0 4) :: u32; t = e_data_type e
      in if t = SYNCS_TYPE_VAR_INT32 then
           (if sint x < 255 \<and> \<not> in_ctype (sint x) then None
            else if sint x < 255 \<and> isprint (sint x) then Some (take 14 (print_int32 x))
            else Some (take 14 (print_d (sint x))))
         else if t = SYNCS_TYPE_VAR_INT64 then Some (take 14 (print_d (sint (le_word (mem_read (e_data e) 0 8) :: u64))))
         else if t = SYNCS_TYPE_VAR_FLOAT then Some (take 14 (fmt_f (mem_read (e_data e) 0 4)))
         else if t = SYNCS_TYPE_VAR_DOUBLE then Some (take 14 (fmt_lf (mem_read (e_data e) 0 8)))
         else if t = SYNCS_TYPE_VAR_STRING then map_option (take 14) (print_s 0 (mem_read (e_data e) 0 SYNCS_VARIABLE_SIZE_MAXIMUM))
         else Some (take 9 (cstr ''not support'')))"

definition print_count :: "u32 \<Rightarrow> byte list" where
  "print_count x = pad 7 (print_d (sint x))"

definition event_line :: "(byte list \<Rightarrow> byte list) \<Rightarrow> (byte list \<Rightarrow> byte list) \<Rightarrow> syncs_event \<Rightarrow> byte list option" where
  "event_line fmt_f fmt_lf e =
     (case event_value fmt_f fmt_lf e of
        None \<Rightarrow> None
      | Some str \<Rightarrow>
          map_option (\<lambda>name. columns [name, pad 15 str, print_count (e_count e), print_count (e_producers_count e),
             print_count (e_consumers_count e)] @ [10]) (print_s 30 (id_bytes (e_id e))))"

definition client_line :: "syncs_client \<Rightarrow> byte list option" where
  "client_line cl =
     map_option (\<lambda>name. columns [name, print_count (c_rx_event_count cl), print_count (c_tx_event_count cl),
        print_count (c_event_subscribe cl), print_count (c_event_write cl), pad 7 (inet_ntop (sin_addr (c_addr cl))),
        pad 7 (if c_socketfd cl = UDP_SOCKET_STUB then cstr ''udp'' else cstr ''tcp'')] @ [10]) (print_s 20 (id_bytes (c_id cl)))"

definition channel_line :: "syncs_channel \<Rightarrow> byte list option" where
  "channel_line ch =
     map_option (\<lambda>name. columns [name, pad 11 (inet_ntop (t_ip (ch_ticket ch))), pad 7 (print_d (uint (t_port (ch_ticket ch)))),
        print_count (ch_request_count ch), print_count (ch_producers_count ch), print_count (ch_anons_count ch)] @ [10])
       (print_s 20 (id_bytes (ch_id ch)))"

text \<open>The headings; the one of the events and the one of the channels end with the column \<open>"cons.\n"\<close>.\<close>

definition event_heading :: "byte list" where
  "event_heading = cstr ''Event statistics'' @ [10] @ columns [pad 30 (cstr ''id''), pad 15 (cstr ''value''), pad 7 (cstr ''count''),
     pad 7 (cstr ''prod.''), pad 7 (cstr ''cons.'' @ [10])]"

definition client_heading :: "byte list" where
  "client_heading = cstr ''Client statistics'' @ [10] @ columns (pad 20 (cstr ''id'') # map (pad 7) [cstr ''rx pkt'', cstr ''tx pkt'', cstr ''subscr'',
     cstr ''write'', cstr ''ip'', cstr ''proto'']) @ [10]"

definition channel_heading :: "byte list" where
  "channel_heading = cstr ''Channel statistics'' @ [10] @ columns ([pad 20 (cstr ''id''), pad 11 (cstr ''ip'')] @ map (pad 7) [cstr ''port'', cstr ''tickets'',
     cstr ''prod'', cstr ''cons.'' @ [10]])"

definition syncs_server_print_event :: "(byte list \<Rightarrow> byte list) \<Rightarrow> (byte list \<Rightarrow> byte list) \<Rightarrow> syncs_server \<Rightarrow> byte list option" where
  "syncs_server_print_event fmt_f fmt_lf s =
     lines_text
       ([Some event_heading] @
        map (\<lambda>i. event_line fmt_f fmt_lf (s_events s i)) (filter (\<lambda>i. id_i0 (e_id (s_events s i)) \<noteq> -1) [0..<SYNCS_EVENT_MAXIMUM]) @
        [Some client_heading] @
        map (\<lambda>i. client_line (s_clients s i)) (filter (\<lambda>i. c_socketfd (s_clients s i) \<noteq> -1) [0..<SYNCS_CLIENT_MAXIMUM]) @
        [Some channel_heading] @
        map (\<lambda>i. channel_line (s_channels s i)) (filter (\<lambda>i. id_i0 (ch_id (s_channels s i)) \<noteq> -1) [0..<SYNCS_CHANNEL_MAXIMUM]))"

section \<open>The loop of syncsserver\<close>

text \<open>
  The options of \<^verbatim>\<open>src/syncsserver/syncsserver.c\<close>: the array with the name of the configuration and \<open>bequite\<close>; and its loop after the setup in \<open>Config\<close>,
  over the states that the server has, once a second: \<open>None\<close> when a print goes wrong.
\<close>

datatype server_option = Server_config "byte list" | Server_quite | Server_other

definition server_options_start :: "byte list \<times> bool" where
  "server_options_start = (take 255 (cstr ''./syncscribe-server.json'' @ replicate 255 0), False)"

fun server_apply :: "server_option \<Rightarrow> byte list \<times> bool \<Rightarrow> byte list \<times> bool" where
  "server_apply (Server_config optarg) (filename, bequite) = (strncpy 255 optarg filename, bequite)"
| "server_apply Server_quite (filename, bequite) = (filename, True)"
| "server_apply Server_other v = v"

fun syncsserver_rounds :: "(byte list \<Rightarrow> byte list) \<Rightarrow> (byte list \<Rightarrow> byte list) \<Rightarrow> bool \<Rightarrow> syncs_server list \<Rightarrow> byte list option" where
  "syncsserver_rounds fmt_f fmt_lf bequite [] = Some []"
| "syncsserver_rounds fmt_f fmt_lf bequite (s # ss) =
     (if bequite then syncsserver_rounds fmt_f fmt_lf bequite ss
      else case syncs_server_print_event fmt_f fmt_lf s of
             None \<Rightarrow> None
           | Some out \<Rightarrow> map_option (\<lambda>out'. out @ out') (syncsserver_rounds fmt_f fmt_lf bequite ss))"

section \<open>When it is defined\<close>

lemma those_None: "those xs = None \<longleftrightarrow> None \<in> set xs"
  by (induction xs) (auto split: option.split)

lemma lines_None: "lines_text ls = None \<longleftrightarrow> None \<in> set ls"
  by (simp add: lines_text_def those_None)

definition printable_event :: "syncs_event \<Rightarrow> bool" where
  "printable_event e \<longleftrightarrow> 0 \<in> set (id_bytes (e_id e)) \<and>
     (e_data_type e = SYNCS_TYPE_VAR_INT32 \<longrightarrow> -128 \<le> sint (le_word (mem_read (e_data e) 0 4) :: u32)) \<and>
     (e_data_type e = SYNCS_TYPE_VAR_STRING \<longrightarrow> 0 \<in> set (mem_read (e_data e) 0 SYNCS_VARIABLE_SIZE_MAXIMUM))"

lemma event_line_None: "event_line fmt_f fmt_lf e = None \<longleftrightarrow> \<not> printable_event e"
  by (auto simp: event_line_def event_value_def printable_event_def print_s_def in_ctype_def Let_def split: option.splits if_splits)

lemma print_None:
  "syncs_server_print_event fmt_f fmt_lf s = None \<longleftrightarrow>
     (\<exists>i<SYNCS_EVENT_MAXIMUM. id_i0 (e_id (s_events s i)) \<noteq> -1 \<and> \<not> printable_event (s_events s i)) \<or>
     (\<exists>i<SYNCS_CLIENT_MAXIMUM. c_socketfd (s_clients s i) \<noteq> -1 \<and> 0 \<notin> set (id_bytes (c_id (s_clients s i)))) \<or>
     (\<exists>i<SYNCS_CHANNEL_MAXIMUM. id_i0 (ch_id (s_channels s i)) \<noteq> -1 \<and> 0 \<notin> set (id_bytes (ch_id (s_channels s i))))"
proof -
  have "client_line cl = None \<longleftrightarrow> 0 \<notin> set (id_bytes (c_id cl))" "channel_line ch = None \<longleftrightarrow> 0 \<notin> set (id_bytes (ch_id ch))" for cl ch
    by (simp_all add: client_line_def channel_line_def print_s_def)
  then show ?thesis
    by (simp add: syncs_server_print_event_def lines_None image_iff event_line_None eq_commute [of None])
qed

lemma rounds_None: "syncsserver_rounds fmt_f fmt_lf bequite ss = None \<longleftrightarrow> \<not> bequite \<and> (\<exists>s\<in>set ss. syncs_server_print_event fmt_f fmt_lf s = None)"
  by (induction ss) (auto split: option.split)

section \<open>Properties\<close>

lemma variables_slot:
  assumes "variables s x = Some v"
  obtains i where "i < SYNCS_EVENT_MAXIMUM" "id_i0 (e_id (s_events s i)) \<noteq> -1" "var_of (s_events s i) = v"
  using assms that by (auto simp: variables_def live_id_def dest!: ev.find_Some split: if_splits)

lemma unprintable_int:
  assumes "variables s x = Some (SYNCS_TYPE_VAR_INT32, le_bytes 4 n)" "sint (n :: u32) < -128"
  shows "syncs_server_print_event fmt_f fmt_lf s = None"
proof -
  obtain i where i: "i < SYNCS_EVENT_MAXIMUM" "id_i0 (e_id (s_events s i)) \<noteq> -1" "var_of (s_events s i) = (SYNCS_TYPE_VAR_INT32, le_bytes 4 n)"
    using assms(1) by (rule variables_slot)
  have "unat (e_data_size (s_events s i)) = 4" using i(3) by (auto simp: var_of_def dest: arg_cong [where f = length])
  then have "\<not> printable_event (s_events s i)" using i(3) assms(2) by (simp add: var_of_def printable_event_def le_simps)
  then show ?thesis using i(1,2) by (auto simp: print_None)
qed



end
