(* ===== verification/Mon.thy ===== *)
theory Mon
  imports Client_Lists Print
begin

unbundle bit_operations_syntax

text \<open>
  The monitor \<^verbatim>\<open>src/syncsmon/syncsmon.c\<close>: its options, and the rounds that ask a server for its lists and print them.

  The lists lie in the arrays of the connection, as the memories that the request functions return; the monitor writes into the one of the events. A round gives
  the text it prints, or \<open>None\<close> when it reads or writes outside of an array. As in \<open>Print\<close>, the formats of floating-point numbers are parameters.
  What the threads of the library do during a request is a parameter as for the request itself.
\<close>

section \<open>Options\<close>

record mon =
  mo_port :: int
  mo_address :: "byte list"
  mo_period :: int
  mo_watch :: bool

datatype mon_option = Mon_port "byte list" | Mon_period "byte list" | Mon_address "byte list" | Mon_one | Mon_help | Mon_other

definition mon_start :: mon where
  "mon_start = \<lparr>mo_port = 0, mo_address = replicate 32 0, mo_period = 1000000, mo_watch = True\<rparr>"

text \<open>One option; \<open>None\<close> is \<open>exit (1)\<close>.\<close>

fun mon_apply :: "(byte list \<Rightarrow> int) \<Rightarrow> mon_option \<Rightarrow> mon \<Rightarrow> mon option" where
  "mon_apply atoi (Mon_port arg) v = Some (v\<lparr>mo_port := atoi arg\<rparr>)"
| "mon_apply atoi (Mon_period arg) v = Some (v\<lparr>mo_period := atoi arg * 1000\<rparr>)"
| "mon_apply atoi (Mon_address arg) v = Some (v\<lparr>mo_address := strncpy 32 arg (mo_address v)\<rparr>)"
| "mon_apply atoi Mon_one v = Some (v\<lparr>mo_watch := False\<rparr>)"
| "mon_apply atoi Mon_help v = None"
| "mon_apply atoi Mon_other v = Some v"

fun mon_options :: "(byte list \<Rightarrow> int) \<Rightarrow> mon_option list \<Rightarrow> mon \<Rightarrow> mon option" where
  "mon_options atoi [] v = Some v"
| "mon_options atoi (opt # opts) v = (case mon_apply atoi opt v of None \<Rightarrow> None | Some v \<Rightarrow> mon_options atoi opts v)"

section \<open>Events\<close>

text \<open>The string at \<open>p\<close> in an array of \<open>n\<close> bytes.\<close>

definition string_at :: "nat \<Rightarrow> mem \<Rightarrow> nat \<Rightarrow> byte list option" where
  "string_at n m p = print_s 0 (mem_read m p (n - p))"

text \<open>The value column; \<open>short\<close> is the array \<open>short_data\<close>, \<open>text\<close> the string there.\<close>

definition mon_value :: "(byte list \<Rightarrow> byte list) \<Rightarrow> (byte list \<Rightarrow> byte list) \<Rightarrow> u32 \<Rightarrow> byte list \<Rightarrow> byte list \<Rightarrow> byte list" where
  "mon_value fmt_f fmt_lf t short text =
     (if t = SYNCS_TYPE_VAR_INT32 then
        (if isprint (sint (short ! 0)) then take 14 (print_int32 (le_word (take 4 short))) else take 14 (print_d (sint (le_word (take 4 short) :: u32))))
      else if t = SYNCS_TYPE_VAR_INT64 then take 14 (print_d (sint (le_word (take 8 short) :: u64)))
      else if t = SYNCS_TYPE_VAR_FLOAT then take 14 (fmt_f (take 4 short))
      else if t = SYNCS_TYPE_VAR_DOUBLE then take 14 (fmt_lf (take 8 short))
      else if t = SYNCS_TYPE_VAR_STRING then take 14 text
      else take 9 (cstr ''not support''))"

text \<open>
  The line of the entry at \<open>base\<close>, and the array after it: for a string the monitor puts a zero at the index \<open>data_size\<close> of \<open>short_data\<close>,
  counted in the whole array. The string that a line prints is read after that.
\<close>

definition EVENTS_SIZE :: nat where
  "EVENTS_SIZE = 90 * SYNCS_EVENT_MAXIMUM"

definition mon_terminate :: "nat \<Rightarrow> mem \<Rightarrow> mem" where
  "mon_terminate base m =
     (if le_word (mem_read m (base + 32) 4) = SYNCS_TYPE_VAR_STRING
      then mem_put (base + 36 + unat (le_word (mem_read m (base + 68) 2) :: u16)) [0] m else m)"

definition mon_event_line :: "(byte list \<Rightarrow> byte list) \<Rightarrow> (byte list \<Rightarrow> byte list) \<Rightarrow> nat \<Rightarrow> mem \<Rightarrow> (byte list \<times> mem) option" where
  "mon_event_line fmt_f fmt_lf base m =
     (let t = le_word (mem_read m (base + 32) 4) :: u32; size = unat (le_word (mem_read m (base + 68) 2) :: u16);
          m = mon_terminate base m
      in if t = SYNCS_TYPE_VAR_STRING \<and> EVENTS_SIZE \<le> base + 36 + size then None
         else case (if t = SYNCS_TYPE_VAR_STRING then string_at EVENTS_SIZE m (base + 36) else Some []) of
                None \<Rightarrow> None
              | Some text \<Rightarrow>
                  map_option (\<lambda>name.
                      (columns [pad 31 name, pad 15 (mon_value fmt_f fmt_lf t (mem_read m (base + 36) 32) text),
                         print_count (le_word (mem_read m (base + 78) 4)), print_count (le_word (mem_read m (base + 86) 4)),
                         print_count (le_word (mem_read m (base + 82) 4))] @ [10], m))
                    (string_at EVENTS_SIZE m base))"

fun mon_event_lines :: "(byte list \<Rightarrow> byte list) \<Rightarrow> (byte list \<Rightarrow> byte list) \<Rightarrow> nat list \<Rightarrow> mem \<Rightarrow> (byte list \<times> mem) option" where
  "mon_event_lines fmt_f fmt_lf [] m = Some ([], m)"
| "mon_event_lines fmt_f fmt_lf (i # is) m =
     (case mon_event_line fmt_f fmt_lf (i * 90) m of
        None \<Rightarrow> None
      | Some (line, m) \<Rightarrow> map_option (\<lambda>(out, m). (line @ out, m)) (mon_event_lines fmt_f fmt_lf is m))"

definition mon_event_heading :: "byte list" where
  "mon_event_heading = cstr ''Event statistics'' @ [10] @ columns [pad 31 (cstr ''id''), pad 15 (cstr ''value''), pad 7 (cstr ''count''),
     pad 7 (cstr ''prod.''), pad 7 (cstr ''cons.'')] @ [10]"

text \<open>The part of a round for the events. The second component tells whether the request succeeds; \<open>continue\<close> ends the round otherwise.\<close>

definition mon_events ::
    "(byte list \<Rightarrow> byte list) \<Rightarrow> (byte list \<Rightarrow> byte list) \<Rightarrow> mem option \<Rightarrow> (syncs_connect \<Rightarrow> syncs_connect) \<Rightarrow> syncs_connect \<Rightarrow>
     (byte list \<times> bool \<times> syncs_connect) option" where
  "mon_events fmt_f fmt_lf alloc during c =
     (case syncs_request_eventslist alloc during c of
        (None, c) \<Rightarrow> Some ([], False, c)
      | (Some (m, n), c) \<Rightarrow>
          map_option (\<lambda>(out, m). (mon_event_heading @ out, True, cn_eventlist_update (\<lambda>l. l\<lparr>l_info := Some m\<rparr>) c))
            (mon_event_lines fmt_f fmt_lf [0..<nat n] m))"

section \<open>Clients and channels\<close>

definition mon_client_line :: "mem \<Rightarrow> nat \<Rightarrow> byte list option" where
  "mon_client_line m i =
     (let base = i * 52
      in map_option (\<lambda>name.
           columns [pad 31 name, print_count (le_word (mem_read m (base + 40) 4)), print_count (le_word (mem_read m (base + 44) 4)),
             print_count (le_word (mem_read m (base + 32) 4)), print_count (le_word (mem_read m (base + 36) 4)),
             pad 7 (inet_ntop (le_word (mem_read m (base + 48) 4)))] @ [10])
         (string_at (52 * SYNCS_CLIENT_MAXIMUM) m base))"

definition mon_clients :: "mem option \<Rightarrow> (syncs_connect \<Rightarrow> syncs_connect) \<Rightarrow> syncs_connect \<Rightarrow> (byte list \<times> bool \<times> syncs_connect) option" where
  "mon_clients alloc during c =
     (case syncs_request_clientslist alloc during c of
        (None, c) \<Rightarrow> Some ([], False, c)
      | (Some (m, n), c) \<Rightarrow>
          map_option (\<lambda>out.
              (cstr ''Client statistics'' @ [10] @ columns (pad 31 (cstr ''id'') # map (pad 7) [cstr ''rx pkt'', cstr ''tx pkt'', cstr ''subscr'',
                 cstr ''write'', cstr ''ip'']) @ [10] @ out, True, c))
            (lines_text (map (mon_client_line m) [0..<nat n])))"

definition mon_channel_line :: "mem \<Rightarrow> nat \<Rightarrow> byte list option" where
  "mon_channel_line m i =
     (let base = i * 46
      in map_option (\<lambda>name.
           columns [pad 20 name, pad 11 (inet_ntop (le_word (mem_read m (base + 40) 4))), pad 7 (print_d (uint (le_word (mem_read m (base + 44) 2) :: u16))),
             print_count (le_word (mem_read m (base + 36) 4)), print_count (le_word (mem_read m (base + 32) 4))] @ [10])
         (string_at (46 * SYNCS_CHANNEL_MAXIMUM) m base))"

definition mon_channels ::
    "(byte list \<Rightarrow> u32) \<Rightarrow> mem option \<Rightarrow> (syncs_connect \<Rightarrow> syncs_connect) \<Rightarrow> syncs_connect \<Rightarrow> (byte list \<times> bool \<times> syncs_connect) option" where
  "mon_channels inet_addr alloc during c =
     (case syncs_request_channelslist inet_addr alloc during c of
        (None, c) \<Rightarrow> Some ([], False, c)
      | (Some (m, n), c) \<Rightarrow>
          map_option (\<lambda>out.
              (cstr ''Channel statistics'' @ [10] @ columns ([pad 20 (cstr ''id''), pad 11 (cstr ''ip'')] @ map (pad 7) [cstr ''port'',
                 cstr ''tickets'', cstr ''prod'']) @ [10] @ out, True, c))
            (lines_text (map (mon_channel_line m) [0..<nat n])))"

section \<open>Rounds\<close>

text \<open>
  A round: the parts in order, each only if the one before has succeeded. The second component tells whether the round comes to its \<open>usleep\<close>.
\<close>

definition and_then ::
    "(syncs_connect \<Rightarrow> (byte list \<times> bool \<times> syncs_connect) option) \<Rightarrow> (syncs_connect \<Rightarrow> (byte list \<times> bool \<times> syncs_connect) option) \<Rightarrow>
     syncs_connect \<Rightarrow> (byte list \<times> bool \<times> syncs_connect) option" where
  "and_then f g c =
     (case f c of
        None \<Rightarrow> None
      | Some (out, ok, c) \<Rightarrow> if ok then map_option (\<lambda>(out', r). (out @ out', r)) (g c) else Some (out, False, c))"

record mon_env =
  me_alloc_e :: "mem option"
  me_alloc_c :: "mem option"
  me_alloc_h :: "mem option"
  me_during_e :: "syncs_connect \<Rightarrow> syncs_connect"
  me_during_c :: "syncs_connect \<Rightarrow> syncs_connect"
  me_during_h :: "syncs_connect \<Rightarrow> syncs_connect"

definition mon_round ::
    "(byte list \<Rightarrow> byte list) \<Rightarrow> (byte list \<Rightarrow> byte list) \<Rightarrow> (byte list \<Rightarrow> u32) \<Rightarrow> mon_env \<Rightarrow> syncs_connect \<Rightarrow> (byte list \<times> bool \<times> syncs_connect) option" where
  "mon_round fmt_f fmt_lf inet_addr e =
     and_then (mon_events fmt_f fmt_lf (me_alloc_e e) (me_during_e e))
       (and_then (mon_clients (me_alloc_c e) (me_during_c e)) (mon_channels inet_addr (me_alloc_h e) (me_during_h e)))"

text \<open>The loop over what happens in each round: the text, and the pauses in microseconds. Without \<open>watch\<close> it ends after one round.\<close>

fun mon_rounds ::
    "(byte list \<Rightarrow> byte list) \<Rightarrow> (byte list \<Rightarrow> byte list) \<Rightarrow> (byte list \<Rightarrow> u32) \<Rightarrow> mon \<Rightarrow> mon_env list \<Rightarrow> syncs_connect \<Rightarrow>
     (byte list \<times> int list \<times> syncs_connect) option" where
  "mon_rounds fmt_f fmt_lf inet_addr v [] c = Some ([], [], c)"
| "mon_rounds fmt_f fmt_lf inet_addr v (e # es) c =
     (case mon_round fmt_f fmt_lf inet_addr e c of
        None \<Rightarrow> None
      | Some (out, slept, c) \<Rightarrow>
          (let pause = (if slept then [mo_period v] else [])
           in if mo_watch v
              then map_option (\<lambda>(out', pauses, c). (out @ out', pause @ pauses, c)) (mon_rounds fmt_f fmt_lf inet_addr v es c)
              else Some (out, pause, c)))"

text \<open>\<open>main\<close>. \<open>connected\<close> is what happens until the connection has been waited for; a client that cannot be created is a NULL pointer, a fault.\<close>

definition syncsmon_main ::
    "(byte list \<Rightarrow> byte list) \<Rightarrow> (byte list \<Rightarrow> byte list) \<Rightarrow> (byte list \<Rightarrow> u32) \<Rightarrow> (byte list \<Rightarrow> int) \<Rightarrow> (syncs_connect \<Rightarrow> syncs_connect) \<Rightarrow>
     mon_option list \<Rightarrow> bool \<Rightarrow> os \<Rightarrow> mon_env list \<Rightarrow> (byte list \<times> int list \<times> syncs_connect) option option" where
  "syncsmon_main fmt_f fmt_lf inet_addr atoi connected opts allocated w es =
     (case mon_options atoi opts mon_start of
        None \<Rightarrow> None
      | Some v \<Rightarrow>
          (case syncs_connect_simple allocated (Some (mo_address v)) (mo_port v) (Some (cstr ''syncs-monitor'')) w of
             None \<Rightarrow> Some None
           | Some c \<Rightarrow>
               Some (case print_s 0 (mo_address v) of
                  None \<Rightarrow> None
                | Some address \<Rightarrow>
                    map_option (\<lambda>(out, r). (cstr ''Wait for connect to '' @ address @ cstr '':'' @ print_d (mo_port v) @ [32, 10] @ out, r))
                      (mon_rounds fmt_f fmt_lf inet_addr v es (connected c)))))"

section \<open>The lines of the events\<close>

text \<open>What a line should be, for the facts of an event as a list carries them: \<open>showable\<close> are the events whose line the code computes from their own entry.\<close>

fun mon_row :: "(byte list \<Rightarrow> byte list) \<Rightarrow> (byte list \<Rightarrow> byte list) \<Rightarrow> syncsid \<times> u32 \<times> u32 \<times> u32 \<times> u32 \<times> u16 \<times> byte list \<Rightarrow> byte list" where
  "mon_row fmt_f fmt_lf (x, t, n, consumers, producers, sz, data) =
     columns [pad 31 (c_str (id_bytes x)), pad 15 (mon_value fmt_f fmt_lf t data (c_str data)), print_count n, print_count producers,
       print_count consumers] @ [10]"

fun showable :: "syncsid \<times> u32 \<times> u32 \<times> u32 \<times> u32 \<times> u16 \<times> byte list \<Rightarrow> bool" where
  "showable (x, t, n, consumers, producers, sz, data) \<longleftrightarrow> 0 \<in> set (id_bytes x) \<and>
     (t = SYNCS_TYPE_VAR_INT32 \<or> t = SYNCS_TYPE_VAR_FLOAT \<longrightarrow> 4 \<le> unat sz) \<and>
     (t = SYNCS_TYPE_VAR_INT64 \<or> t = SYNCS_TYPE_VAR_DOUBLE \<longrightarrow> 8 \<le> unat sz) \<and>
     (t = SYNCS_TYPE_VAR_STRING \<longrightarrow> unat sz < 32)"

lemma c_str_zero: "c_str (a @ [0]) = c_str a"
  by (induction a) (auto simp: c_str_def)

lemma string_at_prefix:
  assumes "0 \<in> set (mem_read m p k)" "p + k \<le> n"
  shows "string_at n m p = Some (c_str (mem_read m p k))"
proof -
  have "mem_read m p (n - p) = mem_read m p k @ mem_read m (p + k) (n - p - k)"
    using assms(2) by (metis add_diff_cancel_left' diff_diff_left le_Suc_ex mem_read_add add.assoc)
  then show ?thesis using assms(1) by (auto simp: string_at_def print_s_def pad_def c_str_def takeWhile_append)
qed

lemma mon_value_take:
  assumes "showable (x, t, n, consumers, producers, sz, take (min 32 (unat sz)) short)" "length short = 32"
  shows "mon_value fmt_f fmt_lf t short text = mon_value fmt_f fmt_lf t (take (min 32 (unat sz)) short) text"
  using assms by (auto simp: mon_value_def min_def)

text \<open>The zero of a short string goes into the entry itself, behind the data and before the next field.\<close>

lemma mon_terminate_cases:
  fixes m :: mem and base :: nat
  defines "t \<equiv> le_word (mem_read m (base + 32) 4) :: u32" and "k \<equiv> unat (le_word (mem_read m (base + 68) 2) :: u16)"
  assumes "t = SYNCS_TYPE_VAR_STRING \<Longrightarrow> k < 32"
  shows "b + n \<le> base + 36 \<or> base + 68 \<le> b \<Longrightarrow> mem_read (mon_terminate base m) b n = mem_read m b n"
    and "t \<noteq> SYNCS_TYPE_VAR_STRING \<Longrightarrow> mon_terminate base m = m"
    and "t = SYNCS_TYPE_VAR_STRING \<Longrightarrow> mem_read (mon_terminate base m) (base + 36) (k + 1) = mem_read m (base + 36) k @ [0]"
proof -
  show "mem_read (mon_terminate base m) b n = mem_read m b n" if "b + n \<le> base + 36 \<or> base + 68 \<le> b"
    using that assms(3) by (auto simp: mon_terminate_def t_def [symmetric] k_def [symmetric] mem_put_def intro!: mem_read_cong)
  show "mon_terminate base m = m" if "t \<noteq> SYNCS_TYPE_VAR_STRING" using that by (simp add: mon_terminate_def t_def)
  show "mem_read (mon_terminate base m) (base + 36) (k + 1) = mem_read m (base + 36) k @ [0]" if "t = SYNCS_TYPE_VAR_STRING"
    unfolding mem_read_add using that by (simp add: mon_terminate_def t_def [symmetric] k_def [symmetric] mem_simps add.assoc)
qed

lemma mon_line:
  assumes v: "event_fields (mem_read m base 90) = v" "showable v" and b: "base + 90 \<le> EVENTS_SIZE"
  shows "mon_event_line fmt_f fmt_lf base m = Some (mon_row fmt_f fmt_lf v, mon_terminate base m)"
    and "base + 90 \<le> b \<Longrightarrow> mem_read (mon_terminate base m) b 90 = mem_read m b 90"
proof -
  define t where "t = (le_word (mem_read m (base + 32) 4) :: u32)"
  define sz where "sz = (le_word (mem_read m (base + 68) 2) :: u16)"
  let ?m = "mon_terminate base m" and ?data = "mem_read m (base + 36) (min 32 (unat sz))"
  have v': "v = (id_of_bytes (mem_read m base 32), t, le_word (mem_read m (base + 78) 4), le_word (mem_read m (base + 82) 4),
      le_word (mem_read m (base + 86) 4), sz, ?data)"
    using v(1) by (simp add: event_fields_def mem_simps t_def sz_def)
  have sh: "0 \<in> set (mem_read m base 32)" "t = SYNCS_TYPE_VAR_STRING \<Longrightarrow> unat sz < 32" using v(2) by (simp_all add: v')
  note tc = mon_terminate_cases [of m base, folded t_def sz_def, OF sh(2)]
  have name: "string_at EVENTS_SIZE ?m base = Some (c_str (mem_read m base 32))"
    using string_at_prefix [of ?m base 32 EVENTS_SIZE] sh(1) b tc(1) [of base 32] by simp
  have contents: "string_at EVENTS_SIZE ?m (base + 36) = Some (c_str ?data)" if "t = SYNCS_TYPE_VAR_STRING"
    using string_at_prefix [of ?m "base + 36" "unat sz + 1" EVENTS_SIZE] sh(2) [OF that] b tc(3) that
    by (simp add: c_str_zero)
  have "mon_value fmt_f fmt_lf t (mem_read ?m (base + 36) 32) y = mon_value fmt_f fmt_lf t ?data y" for y
  proof (cases "t = SYNCS_TYPE_VAR_STRING")
    case False
    then show ?thesis
      using mon_value_take [of "id_of_bytes (mem_read m base 32)" t _ _ _ sz "mem_read m (base + 36) 32" fmt_f fmt_lf y] v(2) tc(2) by (simp add: v' mem_simps)
  qed (simp add: mon_value_def)
  moreover have "mon_value fmt_f fmt_lf t ?data [] = mon_value fmt_f fmt_lf t ?data (c_str ?data)" if "t \<noteq> SYNCS_TYPE_VAR_STRING"
    using that by (simp add: mon_value_def)
  ultimately show "mon_event_line fmt_f fmt_lf base m = Some (mon_row fmt_f fmt_lf v, ?m)"
    using sh(2) b by (auto simp: mon_event_line_def Let_def t_def [symmetric] sz_def [symmetric] name contents tc(1) v')
  show "mem_read ?m b 90 = mem_read m b 90" if "base + 90 \<le> b" using tc(1) [of b 90] that by simp
qed


lemma mon_lines:
  assumes "map (\<lambda>j. event_fields (mem_read m (j * 90) 90)) [a..<a + n] = vals" "\<And>v. v \<in> set vals \<Longrightarrow> showable v" "a + n \<le> SYNCS_EVENT_MAXIMUM"
  shows "\<exists>m'. mon_event_lines fmt_f fmt_lf [a..<a + n] m = Some (concat (map (mon_row fmt_f fmt_lf) vals), m') \<and>
    (\<forall>b\<ge>(a + n) * 90. mem_read m' b 90 = mem_read m b 90)"
  using assms
proof (induction n arbitrary: a m vals)
  case (Suc n)
  let ?v = "event_fields (mem_read m (a * 90) 90)" and ?m = "mon_terminate (a * 90) m"
  define vs where "vs = map (\<lambda>j. event_fields (mem_read m (j * 90) 90)) [a + 1..<a + 1 + n]"
  have upt: "[a..<a + Suc n] = a # [a + 1..<a + 1 + n]" by (simp add: upt_conv_Cons)
  then have vals: "vals = ?v # vs" using Suc.prems(1) by (simp add: vs_def)
  have "a * 90 + 90 \<le> EVENTS_SIZE" using Suc.prems(3) by (simp add: EVENTS_SIZE_def)
  note line = mon_line [OF refl _ this, where m = m]
  have "map (\<lambda>j. event_fields (mem_read ?m (j * 90) 90)) [a + 1..<a + 1 + n] = vs"
    unfolding vs_def using line(2) Suc.prems(2) vals by (intro map_cong) auto
  then obtain m' where "mon_event_lines fmt_f fmt_lf [a + 1..<a + 1 + n] ?m = Some (concat (map (mon_row fmt_f fmt_lf) vs), m')"
    "\<forall>b\<ge>(a + 1 + n) * 90. mem_read m' b 90 = mem_read ?m b 90"
    using Suc.IH [of ?m "a + 1" vs] Suc.prems vals by auto
  moreover have "\<forall>b\<ge>(a + 1 + n) * 90. mem_read ?m b 90 = mem_read m b 90" using line(2) Suc.prems(2) vals by simp
  ultimately show ?case unfolding upt using line(1) Suc.prems(2) vals by simp
qed simp

lemma mon_lines_all:
  assumes "map (\<lambda>j. event_fields (mem_read m (j * 90) 90)) [0..<length vals] = vals" "\<And>v. v \<in> set vals \<Longrightarrow> showable v" "length vals \<le> SYNCS_EVENT_MAXIMUM"
  shows "\<exists>m'. mon_event_lines fmt_f fmt_lf [0..<length vals] m = Some (concat (map (mon_row fmt_f fmt_lf) vals), m')"
  using mon_lines [of m 0 "length vals" vals] assms by (metis add_0)

section \<open>Properties\<close>

text \<open>
  C14: The monitor prints the variables of the server. When a connected monitor asks for the list of events and the server answers, the text of this part of a
  round is the heading and one line for each event in use, in table order, with its name, its value by its type, and its counters, as long as
  each name is shorter than 32 bytes, numbers have the size of their type and strings are shorter than 32 bytes.
\<close>

theorem monitor_prints_events:
  assumes call: "passive_callbacks call" "client_callbacks ccall" and inv: "server_inv s" and k: "k < SYNCS_CLIENT_MAXIMUM"
    "c_buffer_recv (s_clients s k) = 0" "c_socketfd (s_clients s k) > -1" "os_script (s_os s) = []"
    and on: "cn_online c" and alloc: "l_info (cn_eventlist c) = None \<Longrightarrow> alloc \<noteq> None"
    and each: "\<And>i. i < SYNCS_EVENT_MAXIMUM \<Longrightarrow> event_used s i \<Longrightarrow> showable (event_facts s i)"
  shows "\<exists>c'. mon_events fmt_f fmt_lf alloc (round_trip ccall call k s) c =
    Some (mon_event_heading @
      concat (map (\<lambda>i. mon_row fmt_f fmt_lf (event_facts s i)) (filter (event_used s) [0..<SYNCS_EVENT_MAXIMUM])), True, c')"
proof -
  let ?vals = "map (event_facts s) (filter (event_used s) [0..<SYNCS_EVENT_MAXIMUM])"
  obtain m c' where req: "syncs_request_eventslist alloc (round_trip ccall call k s) c = (Some (m, int (length ?vals)), c')"
    and vals: "map (\<lambda>j. event_fields (mem_read m (j * 90) 90)) [0..<length ?vals] = ?vals"
    using event_list_arrives [OF call inv k on alloc] by blast
  have "\<And>v. v \<in> set ?vals \<Longrightarrow> showable v" "length ?vals \<le> SYNCS_EVENT_MAXIMUM" using each by (auto simp: length_filter_upt)
  then have "\<exists>m'. mon_event_lines fmt_f fmt_lf [0..<length ?vals] m = Some (concat (map (mon_row fmt_f fmt_lf) ?vals), m')"
    using mon_lines_all [OF vals] by blast
  then show ?thesis by (auto simp: mon_events_def req comp_def)
qed

text \<open>
  A string of 54 bytes: its size is the distance from \<open>short_data\<close> to the next entry, so the zero is written over the first byte of the next name.
\<close>

fun nameless :: "syncsid \<times> 'v \<Rightarrow> syncsid \<times> 'v" where
  "nameless (x, v) = (id_set_c 0 0 x, v)"

lemma take_c_str: "n \<le> length a \<Longrightarrow> take n (c_str (a @ b)) = take n (c_str a)"
proof (induction a arbitrary: n)
  case (Cons y a)
  then show ?case by (cases n) (auto simp: c_str_def)
qed simp

lemma event_fields_mem:
  "event_fields (mem_read m base 90) = (id_of_bytes (mem_read m base 32), le_word (mem_read m (base + 32) 4), le_word (mem_read m (base + 78) 4),
     le_word (mem_read m (base + 82) 4), le_word (mem_read m (base + 86) 4), le_word (mem_read m (base + 68) 2),
     mem_read m (base + 36) (min 32 (unat (le_word (mem_read m (base + 68) 2) :: u16))))"
  by (simp add: event_fields_def mem_simps)

lemma wiped_entry: "event_fields (mem_read (mem_put base [0] m) base 90) = nameless (event_fields (mem_read m base 90))"
proof -
  have "mem_read (mem_put base [0] m) base 32 = (mem_read m base 32)[0 := 0]"
    by (rule nth_equalityI) (auto simp: mem_put_def nth_list_update)
  then show ?thesis by (simp add: event_fields_mem mem_simps id_set_c_def)
qed

lemma mon_line_54:
  assumes v: "event_fields (mem_read m base 90) = (x, SYNCS_TYPE_VAR_STRING, n, cs, ps, 54, d)" and x: "0 \<in> set (id_bytes x)"
    and b: "base + 180 \<le> EVENTS_SIZE"
  shows "mon_event_line fmt_f fmt_lf base m =
    Some (mon_row fmt_f fmt_lf (x, SYNCS_TYPE_VAR_STRING, n, cs, ps, 54, d), mem_put (base + 90) [0] m)"
proof -
  let ?m = "mem_put (base + 90) [0] m"
  have f: "x = id_of_bytes (mem_read m base 32)" "le_word (mem_read m (base + 32) 4) = SYNCS_TYPE_VAR_STRING" "n = le_word (mem_read m (base + 78) 4)"
    "cs = le_word (mem_read m (base + 82) 4)" "ps = le_word (mem_read m (base + 86) 4)" "le_word (mem_read m (base + 68) 2) = (54 :: u16)"
    "d = mem_read m (base + 36) 32"
    using v by (auto simp: event_fields_mem)
  have t: "mon_terminate base m = ?m" using f(2,6) by (simp add: mon_terminate_def add.assoc)
  have name: "string_at EVENTS_SIZE ?m base = Some (c_str (id_bytes x))"
    using string_at_prefix [of ?m base 32 EVENTS_SIZE] x b by (simp add: f(1) mem_simps)
  have "mem_read m (base + 68) 2 = le_bytes 2 (54 :: u16)" by (simp add: f(6) [symmetric] le_simps)
  also have "\<dots> = [54, 0]" by (simp add: le_bytes_def upt_rec)
  finally have "mem_read ?m (base + 36) 34 = d @ [54, 0]"
    using mem_read_add [of ?m "base + 36" 32 2] by (simp add: f(7) mem_simps add.assoc)
  then have "string_at EVENTS_SIZE ?m (base + 36) = Some (c_str (d @ [54, 0]))"
    using string_at_prefix [of ?m "base + 36" 34 EVENTS_SIZE] b by simp
  moreover have "take 14 (c_str (d @ [54, 0])) = take 14 (c_str d)" by (rule take_c_str) (simp add: f(7))
  ultimately show ?thesis
    using b by (simp add: mon_event_line_def Let_def t f(2,6) name mon_value_def) (simp add: f(3-5) mem_simps)
qed

lemma mon_event_lines_append:
  "mon_event_lines fmt_f fmt_lf (is @ js) m =
     (case mon_event_lines fmt_f fmt_lf is m of
        None \<Rightarrow> None
      | Some (out, m) \<Rightarrow> map_option (\<lambda>(out', m). (out @ out', m)) (mon_event_lines fmt_f fmt_lf js m))"
  by (induction "is" arbitrary: m) (simp_all add: option.map_comp comp_def case_prod_unfold option.map_ident split: option.split)

lemma mon_lines_wiped:
  assumes m: "map (\<lambda>j. event_fields (mem_read m (j * 90) 90)) [0..<length pre + Suc (Suc (length post))] = pre @ v # w # post"
    and v: "v = (x, SYNCS_TYPE_VAR_STRING, n, cs, ps, 54, d)" "0 \<in> set (id_bytes x)"
    and others: "\<And>u. u \<in> set (pre @ w # post) \<Longrightarrow> showable u" and fits: "length pre + Suc (Suc (length post)) \<le> SYNCS_EVENT_MAXIMUM"
  shows "\<exists>m'. mon_event_lines fmt_f fmt_lf [0..<length pre + Suc (Suc (length post))] m =
    Some (concat (map (mon_row fmt_f fmt_lf) (pre @ v # nameless w # post)), m')"
proof -
  let ?k = "length pre" and ?f = "\<lambda>m j. event_fields (mem_read m (j * 90) 90)"
  have split: "[0..<?k + Suc (Suc (length post))] = [0..<?k] @ ?k # [?k + 1..<?k + 1 + Suc (length post)]"
    using upt_add_eq_append [of 0 ?k "Suc (Suc (length post))"] upt_conv_Cons [of ?k "?k + Suc (Suc (length post))"] by (simp del: upt_Suc)
  have parts: "map (?f m) [0..<?k] = pre" "?f m ?k = v" "map (?f m) [?k + 1..<?k + 1 + Suc (length post)] = w # post"
    using m unfolding split map_append list.map by (subst (asm) append_eq_append_conv, simp, simp del: upt_Suc)+
  obtain m1 where m1: "mon_event_lines fmt_f fmt_lf [0..<?k] m = Some (concat (map (mon_row fmt_f fmt_lf) pre), m1)"
    "\<forall>b\<ge>?k * 90. mem_read m1 b 90 = mem_read m b 90"
    using mon_lines [of m 0 ?k pre fmt_f fmt_lf] parts(1) others fits by auto
  let ?m2 = "mem_put ((?k + 1) * 90) [0] m1"
  have "?f m1 ?k = v" using m1(2) parts(2) by simp
  moreover have "?k * 90 + 180 \<le> EVENTS_SIZE" using fits by (simp add: EVENTS_SIZE_def)
  ultimately have line: "mon_event_line fmt_f fmt_lf (?k * 90) m1 = Some (mon_row fmt_f fmt_lf v, ?m2)"
    using mon_line_54 [of m1 "?k * 90"] v by (simp add: add.commute)
  have "?f ?m2 (?k + 1) = nameless w"
    using m1(2) parts(3) wiped_entry [of "(?k + 1) * 90" m1] by (simp add: upt_conv_Cons del: upt_Suc)
  moreover have "map (?f ?m2) [?k + 2..<?k + 2 + length post] = map (?f m) [?k + 2..<?k + 2 + length post]"
    using m1(2) by (intro map_cong) (simp_all add: mem_read_put_disjoint del: upt_Suc)
  moreover have "[?k + 1..<?k + 1 + Suc (length post)] = (?k + 1) # [?k + 2..<?k + 2 + length post]"
    by (simp add: upt_conv_Cons del: upt_Suc)
  ultimately have rest: "map (?f ?m2) [?k + 1..<?k + 1 + Suc (length post)] = nameless w # post"
    using parts(3) by (simp only: list.map list.inject)
  have "0 \<in> set ((id_bytes y)[0 := 0])" for y by (rule set_update_memI) simp
  then have "showable (nameless w)" using others [of w] by (cases w) (simp add: id_set_c_def)
  then have "\<And>u. u \<in> set (nameless w # post) \<Longrightarrow> showable u" using others by (auto simp del: showable.simps)
  moreover have "?k + 1 + Suc (length post) \<le> SYNCS_EVENT_MAXIMUM" using fits by simp
  ultimately obtain m' where "mon_event_lines fmt_f fmt_lf [?k + 1..<?k + 1 + Suc (length post)] ?m2 =
      Some (concat (map (mon_row fmt_f fmt_lf) (nameless w # post)), m')"
    using mon_lines [OF rest] by blast
  then show ?thesis unfolding split by (simp add: mon_event_lines_append m1(1) line del: upt_Suc)
qed

text \<open>
  C40: A string of 54 bytes makes the monitor lose the next name. Let \<open>i\<close> and \<open>j\<close> be neighbours among the events in use, \<open>i\<close> a string variable of 54 bytes and
  all others printable. The zero that the monitor writes behind the string falls on the first byte of the next entry: the lines are as they should be, except that
  the one of \<open>j\<close> has no name.
\<close>

theorem long_string_wipes_name:
  assumes call: "passive_callbacks call" "client_callbacks ccall" and inv: "server_inv s" and k: "k < SYNCS_CLIENT_MAXIMUM"
    "c_buffer_recv (s_clients s k) = 0" "c_socketfd (s_clients s k) > -1" "os_script (s_os s) = []"
    and on: "cn_online c" and alloc: "l_info (cn_eventlist c) = None \<Longrightarrow> alloc \<noteq> None"
    and used: "filter (event_used s) [0..<SYNCS_EVENT_MAXIMUM] = pre @ i # j # post"
    and others: "\<And>e. e \<in> set (pre @ j # post) \<Longrightarrow> showable (event_facts s e)"
    and i: "e_data_type (s_events s i) = SYNCS_TYPE_VAR_STRING" "e_data_size (s_events s i) = 54" "0 \<in> set (id_bytes (e_id (s_events s i)))"
  shows "\<exists>c'. mon_events fmt_f fmt_lf alloc (round_trip ccall call k s) c =
    Some (mon_event_heading @
      concat (map (mon_row fmt_f fmt_lf) (map (event_facts s) (pre @ [i]) @ nameless (event_facts s j) # map (event_facts s) post)), True, c')"
proof -
  let ?vals = "map (event_facts s) (pre @ i # j # post)"
  obtain m c' n where req: "syncs_request_eventslist alloc (round_trip ccall call k s) c = (Some (m, int n), c')" "n = length ?vals"
    and vals: "map (\<lambda>j. event_fields (mem_read m (j * 90) 90)) [0..<length ?vals] = ?vals"
    using event_list_arrives [OF call inv k on alloc] unfolding used by blast
  have ei: "event_facts s i = (e_id (s_events s i), SYNCS_TYPE_VAR_STRING, e_count (s_events s i), e_consumers_count (s_events s i),
      e_producers_count (s_events s i), 54, mem_read (e_data (s_events s i)) 0 32)"
    by (simp add: event_facts_def Let_def i)
  have len: "length ?vals = length (map (event_facts s) pre) + Suc (Suc (length (map (event_facts s) post)))" by simp
  have "length ?vals \<le> SYNCS_EVENT_MAXIMUM"
    using length_filter_upt [of "event_used s" SYNCS_EVENT_MAXIMUM] unfolding used by simp
  moreover have "\<And>u. u \<in> set (map (event_facts s) pre @ event_facts s j # map (event_facts s) post) \<Longrightarrow> showable u" using others by auto
  ultimately have "\<exists>m'. mon_event_lines fmt_f fmt_lf [0..<length ?vals] m =
    Some (concat (map (mon_row fmt_f fmt_lf) (map (event_facts s) pre @ event_facts s i # nameless (event_facts s j) # map (event_facts s) post)), m')"
    using mon_lines_wiped [OF _ ei i(3), of m "map (event_facts s) pre" "map (event_facts s) post" "event_facts s j"] vals
    unfolding len by (simp only: map_append list.map)
  then show ?thesis unfolding req(2) [symmetric] by (auto simp: mon_events_def req(1) simp del: upt_Suc)
qed

text \<open>
  A monitor without a connection does not pause: a request that fails ends the round before its \<open>usleep\<close>, so the loop runs at full speed until
  the connection is back.
\<close>

lemma monitor_spins: "cn_socketfd c < 0 \<Longrightarrow> \<exists>c'. mon_rounds fmt_f fmt_lf inet_addr v es c = Some ([], [], c')"
proof (induction es arbitrary: c)
  case (Cons e es)
  have "\<exists>c'. mon_round fmt_f fmt_lf inet_addr e c = Some ([], False, c') \<and> cn_socketfd c' < 0"
    using Cons.prems by (auto simp: mon_round_def and_then_def mon_events_def syncs_request_eventslist_def request_list_def Let_def)
  then show ?case using Cons.IH by (auto simp: Let_def)
qed simp

text \<open>A server with a string of \<open>n\<close> bytes and a number.\<close>

definition sample_two :: "nat \<Rightarrow> syncs_server" where
  "sample_two n = upd_client 5 (\<lambda>cl. cl\<lparr>c_socketfd := 7\<rparr>) (sample_server\<lparr>s_events := (s_events sample_server)
     (0 := zero_event\<lparr>e_id := syncs_idstr (cstr ''a''), e_data_type := SYNCS_TYPE_VAR_STRING, e_data_size := of_nat n\<rparr>,
      1 := zero_event\<lparr>e_id := syncs_idstr (cstr ''b''), e_data_type := SYNCS_TYPE_VAR_INT32, e_data_size := 4\<rparr>)\<rparr>)"

lemma sample_two_ids:
  "e_id (s_events (sample_two n) 0) = syncs_idstr (cstr ''a'')" "e_id (s_events (sample_two n) 1) = syncs_idstr (cstr ''b'')"
  "2 \<le> i \<Longrightarrow> i < SYNCS_EVENT_MAXIMUM \<Longrightarrow> id_i0 (e_id (s_events (sample_two n) i)) = -1"
  by (simp_all add: sample_two_def sample_server_fields)

lemma ab_bytes: "id_bytes (syncs_idstr (cstr ''a'')) = 97 # replicate 31 0" "id_bytes (syncs_idstr (cstr ''b'')) = 98 # replicate 31 0"
  by (simp_all add: id_bytes_idstr c_str_def cstr_def of_char_def)

lemma live_id_ab: "live_id (syncs_idstr (cstr ''a''))" "live_id (syncs_idstr (cstr ''b''))" "syncs_idstr (cstr ''a'') \<noteq> syncs_idstr (cstr ''b'')"
proof -
  show "live_id (syncs_idstr (cstr ''a''))" by (rule live_id_a)
  show "live_id (syncs_idstr (cstr ''b''))" by (rule live_idstr) (simp add: cstr_def c_head_def)
  show "syncs_idstr (cstr ''a'') \<noteq> syncs_idstr (cstr ''b'')" using ab_bytes by auto
qed

lemma sample_two_used: "filter (event_used (sample_two n)) [0..<SYNCS_EVENT_MAXIMUM] = [0, 1]"
proof -
  have "[0..<SYNCS_EVENT_MAXIMUM] = 0 # 1 # [2..<SYNCS_EVENT_MAXIMUM]" by (simp add: upt_rec)
  moreover have "filter (event_used (sample_two n)) [2..<SYNCS_EVENT_MAXIMUM] = []"
    by (auto simp: event_used_def sample_two_ids(3) filter_empty_conv)
  moreover have "event_used (sample_two n) 0" "event_used (sample_two n) 1"
    using live_id_ab by (simp_all add: event_used_def sample_two_ids(1,2) live_id_def del: One_nat_def)
  ultimately show ?thesis by (simp only: filter.simps if_True)
qed

lemma sample_two_facts:
  assumes "n \<le> SYNCS_VARIABLE_SIZE_MAXIMUM"
  shows "server_inv (sample_two n)" "s_os (sample_two n) = idle_os" "c_socketfd (s_clients (sample_two n) 5) = 7"
    "c_buffer_recv (s_clients (sample_two n) 5) = 0"
    "event_facts (sample_two n) 0 = (syncs_idstr (cstr ''a''), SYNCS_TYPE_VAR_STRING, 0, 0, 0, of_nat n, replicate (min 32 n) 0)"
    "event_facts (sample_two n) 1 = (syncs_idstr (cstr ''b''), SYNCS_TYPE_VAR_INT32, 0, 0, 0, 4, replicate 4 0)"
proof -
  let ?s = "sample_two n"
  have zero: "mem_read (\<lambda>_. 0) 0 k = replicate k 0" for k by (rule nth_equalityI) auto
  have n: "unat (of_nat n :: u32) = n" "unat (of_nat n :: u16) = n" "(ucast (of_nat n :: u32) :: u16) = of_nat n"
    using assms by (simp_all add: unat_of_nat_small unsigned_of_nat take_bit_nat_eq_self)
  show "s_os ?s = idle_os" "c_socketfd (s_clients ?s 5) = 7" "c_buffer_recv (s_clients ?s 5) = 0"
    by (simp_all add: sample_two_def sample_server_fields zero_client_def)
  show "event_facts ?s 0 = (syncs_idstr (cstr ''a''), SYNCS_TYPE_VAR_STRING, 0, 0, 0, of_nat n, replicate (min 32 n) 0)"
    "event_facts ?s 1 = (syncs_idstr (cstr ''b''), SYNCS_TYPE_VAR_INT32, 0, 0, 0, 4, replicate 4 0)"
    using n zero by (simp_all add: event_facts_def sample_two_def zero_event_def Let_def)
  have "event_ok (s_events ?s i)" if "i < SYNCS_EVENT_MAXIMUM" for i
    using n assms inv_event [OF sample_server_inv that]
    by (auto simp: sample_two_def event_ok_def zero_event_def subscribers_def count_slots_def)
  moreover have "unique_ids SYNCS_EVENT_MAXIMUM (\<lambda>i. e_id (s_events ?s i))"
  proof -
    have "i = 0 \<or> i = 1" if "i < SYNCS_EVENT_MAXIMUM" "live_id (e_id (s_events ?s i))" for i
      using that sample_two_ids(3) [of i n] by (fastforce simp: live_id_def)
    then show ?thesis using live_id_ab sample_two_ids(1,2) [of n] unfolding unique_ids_def by metis
  qed
  ultimately show "server_inv ?s"
    using sample_server_inv by (auto simp: server_inv_def sample_two_def client_ok_def)
qed

theorem monitor_prints_events_witness:
  "\<exists>c'. mon_events id id (Some (\<lambda>_. 0)) (round_trip syncsctrl_call syncsserver_call 5 (sample_two 3)) sample_connect =
    Some (mon_event_heading @ mon_row id id (syncs_idstr (cstr ''a''), SYNCS_TYPE_VAR_STRING, 0, 0, 0, 3, replicate 3 0) @
      mon_row id id (syncs_idstr (cstr ''b''), SYNCS_TYPE_VAR_INT32, 0, 0, 0, 4, replicate 4 0), True, c')"
proof -
  note f = sample_two_facts [of 3]
  have "showable (event_facts (sample_two 3) i)" if "i < SYNCS_EVENT_MAXIMUM" "event_used (sample_two 3) i" for i
  proof -
    have "i \<in> set (filter (event_used (sample_two 3)) [0..<SYNCS_EVENT_MAXIMUM])" using that by simp
    then have "i = 0 \<or> i = 1" unfolding sample_two_used by simp
    then show ?thesis using f(5,6) ab_bytes by auto
  qed
  then show ?thesis
    using monitor_prints_events [OF syncsserver.passive_callbacks_axioms syncsctrl.client_callbacks_axioms f(1) _ f(4), of sample_connect "Some (\<lambda>_. 0)" id id]
      f sample_connect_online by (simp add: sample_two_used idle_os_def del: mon_row.simps)
qed

theorem long_string_wipes_name_witness:
  "\<exists>c'. mon_events id id (Some (\<lambda>_. 0)) (round_trip syncsctrl_call syncsserver_call 5 (sample_two 54)) sample_connect =
    Some (mon_event_heading @ mon_row id id (syncs_idstr (cstr ''a''), SYNCS_TYPE_VAR_STRING, 0, 0, 0, 54, replicate 32 0) @
      mon_row id id (id_set_c 0 0 (syncs_idstr (cstr ''b'')), SYNCS_TYPE_VAR_INT32, 0, 0, 0, 4, replicate 4 0), True, c')"
proof -
  note f = sample_two_facts [of 54]
  have "e_data_type (s_events (sample_two 54) 0) = SYNCS_TYPE_VAR_STRING" "e_data_size (s_events (sample_two 54) 0) = 54"
    by (simp_all add: sample_two_def)
  then show ?thesis
    using long_string_wipes_name [OF syncsserver.passive_callbacks_axioms syncsctrl.client_callbacks_axioms f(1) _ f(4), of sample_connect "Some (\<lambda>_. 0)"
        "[]" 0 1 "[]" id id]
      f sample_connect_online ab_bytes sample_two_ids(1) by (simp add: sample_two_used idle_os_def del: mon_row.simps)
qed

end
