(* ===== verification/Wait.thy ===== *)
theory Wait
  imports Client_State
begin

text \<open>
  The two threads of a client around one answer: the application thread in a function like \<open>syncs_read\<close>, which sets a flag, sends a request and waits with
  \<open>syncs_wait_for\<close> until the flag is cleared, and the receiving thread, which clears it. Here the threads are interleaved; in the other theories a
  function that waits takes as an argument what the receiving thread does meanwhile.

  A state holds the flag, the owner of the mutex, the position of each thread in its code, the answers on their way, and the requests to make and
  made. One step is one access to what is shared. \<open>pthread_cond_timedwait\<close> unlocks the mutex and sleeps in one step; it wakes up by a signal, for no
  reason, or when the time is over, and then waits for the mutex. What the receiving thread does under the mutex is a parameter of
  the steps: \<open>read_reply\<close> for the answer to a read, \<open>syncs_notify_for\<close> for the other waits.
\<close>

section \<open>The threads\<close>

datatype thread = Application | Receiver

text \<open>
  The positions of the application thread: the assignments of the flag and of the id, the call of \<open>send\<close>, \<open>pthread_mutex_lock\<close>, the test of the flag, the
  sleep, waking up (with whether the time is over), the two calls of \<open>pthread_mutex_unlock\<close>, the copy of the data.
\<close>

datatype app_pc = At_flag | At_id | At_send | At_lock | At_test | Asleep | Awake bool | At_expired | At_leave | At_copy

text \<open>The positions of the receiving thread: \<open>recv\<close>, then with a packet the lock and the critical section, the signal and the unlock.\<close>

type_synonym answer = "syncsid \<times> byte list"

datatype recv_pc = In_recv | To_lock answer | Critical answer | To_signal | To_unlock

record wait_state =
  w_flag :: bool
  w_owner :: "thread option"
  w_app :: app_pc
  w_recv :: recv_pc
  w_net :: "answer list"
  w_id :: syncsid
  w_data :: "byte list"
  w_todo :: "syncsid list"
  w_done :: "(syncsid \<times> int \<times> byte list) list"

text \<open>The critical sections: the new state, and whether the condition is signalled.\<close>

type_synonym critical = "answer \<Rightarrow> wait_state \<Rightarrow> wait_state \<times> bool"

definition read_reply :: critical where
  "read_reply p st =
     (if w_flag st \<and> syncs_idcmp (fst p) (w_id st) then (st\<lparr>w_data := snd p, w_flag := False\<rparr>, True) else (st, False))"

definition syncs_notify_for :: critical where
  "syncs_notify_for p st = (st\<lparr>w_flag := False\<rparr>, True)"

text \<open>
  The steps. \<open>server\<close> is the value the server answers with, at once or later; the answers arrive in the order of the requests. A step is an
  ordinary one of a thread, waking up for no reason, or the end of the time.
\<close>

datatype label = Run | Spurious | Timeout

inductive wait_step :: "critical \<Rightarrow> (syncsid \<Rightarrow> byte list) \<Rightarrow> label \<Rightarrow> wait_state \<Rightarrow> wait_state \<Rightarrow> bool"
  for crit :: critical and server :: "syncsid \<Rightarrow> byte list" where
  set_flag: "w_app st = At_flag \<Longrightarrow> w_todo st \<noteq> [] \<Longrightarrow> wait_step crit server Run st (st\<lparr>w_flag := True, w_app := At_id\<rparr>)"
| set_id: "w_app st = At_id \<Longrightarrow> wait_step crit server Run st (st\<lparr>w_id := hd (w_todo st), w_app := At_send\<rparr>)"
| send: "w_app st = At_send \<Longrightarrow>
    wait_step crit server Run st (st\<lparr>w_net := w_net st @ [(hd (w_todo st), server (hd (w_todo st)))], w_app := At_lock\<rparr>)"
| lock: "w_app st = At_lock \<Longrightarrow> w_owner st = None \<Longrightarrow> wait_step crit server Run st (st\<lparr>w_owner := Some Application, w_app := At_test\<rparr>)"
| sleep: "w_app st = At_test \<Longrightarrow> w_flag st \<Longrightarrow> wait_step crit server Run st (st\<lparr>w_owner := None, w_app := Asleep\<rparr>)"
| go_on: "w_app st = At_test \<Longrightarrow> \<not> w_flag st \<Longrightarrow> wait_step crit server Run st (st\<lparr>w_app := At_leave\<rparr>)"
| spurious: "w_app st = Asleep \<Longrightarrow> wait_step crit server Spurious st (st\<lparr>w_app := Awake False\<rparr>)"
| timeout: "w_app st = Asleep \<Longrightarrow> wait_step crit server Timeout st (st\<lparr>w_app := Awake True\<rparr>)"
| relock: "w_app st = Awake b \<Longrightarrow> w_owner st = None \<Longrightarrow>
    wait_step crit server Run st (st\<lparr>w_owner := Some Application, w_app := (if b then At_expired else At_test)\<rparr>)"
| expire: "w_app st = At_expired \<Longrightarrow>
    wait_step crit server Run st (st\<lparr>w_owner := None, w_app := At_flag, w_done := w_done st @ [(hd (w_todo st), - ETIMEDOUT, [])], w_todo := tl (w_todo st)\<rparr>)"
| leave: "w_app st = At_leave \<Longrightarrow> wait_step crit server Run st (st\<lparr>w_owner := None, w_app := At_copy\<rparr>)"
| copy: "w_app st = At_copy \<Longrightarrow>
    wait_step crit server Run st (st\<lparr>w_app := At_flag, w_done := w_done st @ [(hd (w_todo st), 0, w_data st)], w_todo := tl (w_todo st)\<rparr>)"
| receive: "w_recv st = In_recv \<Longrightarrow> w_net st = p # ps \<Longrightarrow> wait_step crit server Run st (st\<lparr>w_net := ps, w_recv := To_lock p\<rparr>)"
| recv_lock: "w_recv st = To_lock p \<Longrightarrow> w_owner st = None \<Longrightarrow> wait_step crit server Run st (st\<lparr>w_owner := Some Receiver, w_recv := Critical p\<rparr>)"
| critical: "w_recv st = Critical p \<Longrightarrow> crit p st = (st', signals) \<Longrightarrow>
    wait_step crit server Run st (st'\<lparr>w_recv := (if signals then To_signal else To_unlock)\<rparr>)"
| signal: "w_recv st = To_signal \<Longrightarrow>
    wait_step crit server Run st (st\<lparr>w_app := (if w_app st = Asleep then Awake False else w_app st), w_recv := To_unlock\<rparr>)"
| recv_unlock: "w_recv st = To_unlock \<Longrightarrow> wait_step crit server Run st (st\<lparr>w_owner := None, w_recv := In_recv\<rparr>)"

text \<open>A client before its first request; \<open>flag\<close>, \<open>x\<close> and \<open>d\<close> are what the fields held before.\<close>

definition wait_start :: "bool \<Rightarrow> syncsid \<Rightarrow> byte list \<Rightarrow> syncsid list \<Rightarrow> wait_state" where
  "wait_start flag x d xs = \<lparr>w_flag = flag, w_owner = None, w_app = At_flag, w_recv = In_recv, w_net = [], w_id = x, w_data = d,
     w_todo = xs, w_done = []\<rparr>"

text \<open>The states reached with steps of the given labels.\<close>

inductive waits :: "critical \<Rightarrow> (syncsid \<Rightarrow> byte list) \<Rightarrow> label set \<Rightarrow> wait_state \<Rightarrow> wait_state \<Rightarrow> bool"
  for crit :: critical and server :: "syncsid \<Rightarrow> byte list" and labels :: "label set" and st0 :: wait_state where
  waits_start: "waits crit server labels st0 st0"
| waits_step: "waits crit server labels st0 st \<Longrightarrow> l \<in> labels \<Longrightarrow> wait_step crit server l st st' \<Longrightarrow> waits crit server labels st0 st'"

section \<open>No wake-up is lost\<close>

text \<open>The mutex is held where the code holds it, and a thread that sleeps while the flag is cleared is about to be signalled.\<close>

definition wait_inv :: "wait_state \<Rightarrow> bool" where
  "wait_inv st \<longleftrightarrow>
     (w_owner st = Some Application \<longleftrightarrow> w_app st \<in> {At_test, At_expired, At_leave}) \<and>
     (w_owner st = Some Receiver \<longleftrightarrow> (\<exists>p. w_recv st = Critical p) \<or> w_recv st \<in> {To_signal, To_unlock}) \<and>
     (w_app st = Asleep \<longrightarrow> w_flag st \<or> w_recv st = To_signal) \<and>
     (w_todo st = [] \<longrightarrow> w_app st = At_flag)"

fun app_rank :: "app_pc \<Rightarrow> nat" where
  "app_rank At_flag = 199" | "app_rank At_id = 198" | "app_rank At_send = 197" | "app_rank At_lock = 90" | "app_rank At_test = 80"
| "app_rank Asleep = 70" | "app_rank (Awake _) = 85" | "app_rank At_expired = 40" | "app_rank At_leave = 60" | "app_rank At_copy = 50"

fun recv_rank :: "recv_pc \<Rightarrow> nat" where
  "recv_rank In_recv = 0" | "recv_rank (To_lock _) = 40" | "recv_rank (Critical _) = 35" | "recv_rank To_signal = 30" | "recv_rank To_unlock = 10"

definition wait_measure :: "wait_state \<Rightarrow> nat" where
  "wait_measure st = 200 * length (w_todo st) + app_rank (w_app st) + recv_rank (w_recv st) + 50 * length (w_net st)"

text \<open>What the waiting relies on in a critical section: it may change the flag and the data only, never sets the flag, and signals when it clears it.\<close>

locale clearing =
  fixes crit :: critical
  assumes frame: "fst (crit p st) = st\<lparr>w_flag := w_flag (fst (crit p st)), w_data := w_data (fst (crit p st))\<rparr>"
    and never_sets: "w_flag (fst (crit p st)) \<Longrightarrow> w_flag st"
    and signals: "w_flag st \<Longrightarrow> \<not> w_flag (fst (crit p st)) \<Longrightarrow> snd (crit p st)"
begin

lemma crit_fields:
  assumes "crit p st = (st', sig)"
  shows "w_owner st' = w_owner st" "w_app st' = w_app st" "w_recv st' = w_recv st" "w_net st' = w_net st" "w_id st' = w_id st"
    "w_todo st' = w_todo st" "w_done st' = w_done st" "w_flag st \<Longrightarrow> w_flag st' \<or> sig" "w_flag st' \<Longrightarrow> w_flag st"
proof -
  obtain b d where "st' = st\<lparr>w_flag := b, w_data := d\<rparr>" using frame [of p st] assms by (metis fst_conv)
  then show "w_owner st' = w_owner st" "w_app st' = w_app st" "w_recv st' = w_recv st" "w_net st' = w_net st" "w_id st' = w_id st"
    "w_todo st' = w_todo st" "w_done st' = w_done st"
    by simp_all
  show "w_flag st \<Longrightarrow> w_flag st' \<or> sig" "w_flag st' \<Longrightarrow> w_flag st" using never_sets [of p st] signals [of st p] assms by auto
qed

lemma step_inv: "wait_step crit server l st st' \<Longrightarrow> wait_inv st \<Longrightarrow> wait_inv st'"
proof (induction rule: wait_step.induct)
  case (critical st p st' sig)
  then show ?case using crit_fields [OF critical(2)] by (auto simp: wait_inv_def split: if_splits)
qed (auto simp: wait_inv_def split: if_splits)

lemma waits_inv: "waits crit server labels (wait_start flag x d xs) st \<Longrightarrow> wait_inv st"
proof (induction rule: waits.induct)
  case waits_start
  show ?case by (simp add: wait_inv_def wait_start_def)
qed (blast intro: step_inv)

text \<open>The steps of the threads end: every request takes a bounded number of them.\<close>

lemma run_decreases: "wait_step crit server l st st' \<Longrightarrow> l = Run \<Longrightarrow> wait_inv st \<Longrightarrow> wait_measure st' < wait_measure st"
proof (induction rule: wait_step.induct)
  case (critical st p st' sig)
  then show ?case using crit_fields [OF critical(2)] by (auto simp: wait_measure_def)
qed (auto simp: wait_inv_def wait_measure_def neq_Nil_conv split: if_splits)

lemma runs_end: "wf {(st', st). waits crit server labels (wait_start flag x d xs) st \<and> wait_step crit server Run st st'}"
  by (rule wf_subset [of "measure wait_measure"]) (auto dest: waits_inv run_decreases)

end

interpretation reading: clearing read_reply
proof
  show "fst (read_reply p st) = st\<lparr>w_flag := w_flag (fst (read_reply p st)), w_data := w_data (fst (read_reply p st))\<rparr>" for p st
    by (cases st) (simp add: read_reply_def)
qed (auto simp: read_reply_def split: if_splits)

interpretation notifying: clearing syncs_notify_for
  by unfold_locales (simp_all add: syncs_notify_for_def)

section \<open>Reads\<close>

text \<open>
  As long as no wait has run out of time, there is one answer at most and it belongs to the request that is being made: where it is, by the position of the application.
\<close>

definition pending :: "(syncsid \<Rightarrow> byte list) \<Rightarrow> syncsid \<Rightarrow> wait_state \<Rightarrow> bool" where
  "pending server x st \<longleftrightarrow> w_id st = x \<and>
     (w_flag st \<and> (w_net st = [(x, server x)] \<and> w_recv st = In_recv \<or> w_net st = [] \<and> w_recv st \<in> {To_lock (x, server x), Critical (x, server x)}) \<or>
      \<not> w_flag st \<and> w_net st = [] \<and> w_recv st \<in> {To_signal, To_unlock, In_recv} \<and> w_data st = server x)"

fun phase :: "(syncsid \<Rightarrow> byte list) \<Rightarrow> app_pc \<Rightarrow> wait_state \<Rightarrow> bool" where
  "phase server At_flag st \<longleftrightarrow> w_net st = [] \<and> w_recv st = In_recv"
| "phase server At_id st \<longleftrightarrow> w_net st = [] \<and> w_recv st = In_recv \<and> w_flag st"
| "phase server At_send st \<longleftrightarrow> w_net st = [] \<and> w_recv st = In_recv \<and> w_flag st \<and> w_id st = hd (w_todo st)"
| "phase server At_expired st \<longleftrightarrow> False"
| "phase server At_leave st \<longleftrightarrow> w_net st = [] \<and> w_recv st = In_recv \<and> w_data st = server (hd (w_todo st))"
| "phase server At_copy st \<longleftrightarrow> w_net st = [] \<and> w_recv st = In_recv \<and> w_data st = server (hd (w_todo st))"
| "phase server (Awake b) st \<longleftrightarrow> \<not> b \<and> pending server (hd (w_todo st)) st"
| "phase server pc st \<longleftrightarrow> pending server (hd (w_todo st)) st"

definition read_inv :: "(syncsid \<Rightarrow> byte list) \<Rightarrow> syncsid list \<Rightarrow> wait_state \<Rightarrow> bool" where
  "read_inv server xs st \<longleftrightarrow> map (\<lambda>y. (y, 0, server y)) xs = w_done st @ map (\<lambda>y. (y, 0, server y)) (w_todo st) \<and> phase server (w_app st) st"

lemma read_inv_step:
  "wait_step read_reply server l st st' \<Longrightarrow> l \<noteq> Timeout \<Longrightarrow> wait_inv st \<Longrightarrow> read_inv server xs st \<Longrightarrow> read_inv server xs st'"
proof (induction rule: wait_step.induct)
  case (critical st p st' sig)
  then show ?case by (cases "w_app st") (auto simp: read_inv_def wait_inv_def pending_def read_reply_def split: if_splits)
next
  case (recv_unlock st)
  then show ?case by (cases "w_app st") (auto simp: read_inv_def wait_inv_def pending_def)
next
  case (signal st)
  then show ?case by (cases "w_app st") (auto simp: read_inv_def wait_inv_def pending_def)
next
  case (receive st p ps)
  then show ?case by (cases "w_app st") (auto simp: read_inv_def wait_inv_def pending_def)
next
  case (recv_lock st p)
  then show ?case by (cases "w_app st") (auto simp: read_inv_def wait_inv_def pending_def)
next
  case (copy st)
  then show ?case by (cases "w_todo st") (auto simp: read_inv_def wait_inv_def)
qed (auto simp: read_inv_def wait_inv_def pending_def split: if_splits)

lemma waits_read_inv: "waits read_reply server {Run, Spurious} (wait_start flag x d xs) st \<Longrightarrow> read_inv server xs st"
proof (induction rule: waits.induct)
  case waits_start
  show ?case by (simp add: read_inv_def wait_start_def)
next
  case (waits_step st l st')
  then show ?case using read_inv_step reading.waits_inv by blast
qed

text \<open>
  Where the threads cannot go on without the end of the time, the application is done: it never sleeps with its answer lost.
\<close>

lemma stuck_done:
  assumes inv: "wait_inv st" "read_inv server xs st" and stuck: "\<And>st'. \<not> wait_step read_reply server Run st st'"
  shows "w_todo st = []"
proof (rule ccontr)
  assume todo: "w_todo st \<noteq> []"
  have recv: "w_recv st \<noteq> Critical p" "w_recv st \<noteq> To_signal" "w_recv st \<noteq> To_unlock" for p
    using stuck wait_step.critical [of st p read_reply "fst (read_reply p st)" "snd (read_reply p st)"]
      wait_step.signal [of st read_reply server] wait_step.recv_unlock [of st read_reply server]
    by auto
  have app: "w_app st \<notin> {At_flag, At_id, At_send, At_test, At_expired, At_leave, At_copy}"
    using stuck todo wait_step.set_flag [of st read_reply server] wait_step.set_id [of st read_reply server] wait_step.send [of st read_reply server]
      wait_step.sleep [of st read_reply server] wait_step.go_on [of st read_reply server] wait_step.expire [of st read_reply server]
      wait_step.leave [of st read_reply server] wait_step.copy [of st read_reply server]
    by auto
  then have "w_owner st \<noteq> Some ow" for ow
    using inv(1) recv by (cases ow) (auto simp: wait_inv_def)
  then have "w_owner st = None" by (cases "w_owner st") auto
  then have "w_app st \<noteq> At_lock" "w_app st \<noteq> Awake b" "w_recv st \<noteq> To_lock p" for b p
    using stuck wait_step.lock [of st read_reply server] wait_step.relock [of st b read_reply server] wait_step.recv_lock [of st p read_reply server]
    by auto
  moreover have "w_recv st = In_recv \<Longrightarrow> w_net st = []"
    using stuck wait_step.receive [of st _ _ read_reply server] by (cases "w_net st") auto
  ultimately have "w_app st = Asleep" "w_recv st = In_recv" "w_net st = []"
    using app recv by (cases "w_app st"; cases "w_recv st"; auto)+
  then show False using inv by (auto simp: read_inv_def wait_inv_def pending_def)
qed

lemma reads_can_end:
  "\<exists>st. waits read_reply server {Run, Spurious} (wait_start flag x d xs) st \<and> (\<forall>st'. \<not> wait_step read_reply server Run st st')"
proof -
  let ?W = "waits read_reply server {Run, Spurious} (wait_start flag x d xs)"
  let ?R = "{(st', st). ?W st \<and> wait_step read_reply server Run st st'}"
  have "wait_start flag x d xs \<in> {st. ?W st}" by (simp add: waits_start)
  then obtain st where "st \<in> {st. ?W st}" "\<And>st'. (st', st) \<in> ?R \<Longrightarrow> st' \<notin> {st. ?W st}"
    by (rule wfE_min [OF reading.runs_end]) (rule that)
  then show ?thesis by (auto intro: waits_step)
qed

section \<open>Properties\<close>

text \<open>
  C16: No wake-up is lost and the threads exclude each other. In every state that the two threads of a client can reach, in any interleaving, with timeouts and
  wake-ups for no reason, for reads and for the waits that \<open>syncs_notify_for\<close> ends: a thread that sleeps although its flag is cleared is about to be signalled, and
  the threads are never both between lock and unlock.
\<close>

theorem no_lost_wakeup:
  assumes "crit \<in> {read_reply, syncs_notify_for}" "waits crit server labels (wait_start flag x d xs) st"
  shows "(w_app st = Asleep \<and> \<not> w_flag st \<longrightarrow> w_recv st = To_signal) \<and>
    \<not> (w_app st \<in> {At_test, At_expired, At_leave} \<and> ((\<exists>p. w_recv st = Critical p) \<or> w_recv st \<in> {To_signal, To_unlock}))"
proof -
  have "wait_inv st" using assms by (auto intro: reading.waits_inv notifying.waits_inv)
  then show ?thesis by (cases "w_app st"; cases "w_recv st"; simp add: wait_inv_def)
qed

theorem no_lost_wakeup_witness:
  "\<exists>st. waits read_reply (\<lambda>_. [7]) UNIV (wait_start False (syncs_idstr []) [] [syncs_idstr (cstr ''a'')]) st \<and> w_app st = At_id \<and>
     (w_app st = Asleep \<and> \<not> w_flag st \<longrightarrow> w_recv st = To_signal)"
proof -
  let ?s = "wait_start False (syncs_idstr []) [] [syncs_idstr (cstr ''a'')]"
  have "waits read_reply (\<lambda>_. [7]) UNIV ?s (?s\<lparr>w_flag := True, w_app := At_id\<rparr>)"
    by (rule waits_step [OF waits_start UNIV_I wait_step.set_flag]) (simp_all add: wait_start_def)
  then show ?thesis
    using no_lost_wakeup [of read_reply "\<lambda>_. [7]" UNIV False "syncs_idstr []" "[]" "[syncs_idstr (cstr ''a'')]"] by (auto intro!: exI)
qed

text \<open>
  C15: The reads of a client come to an end with the right values. For any list of reads, however the threads are interleaved, when no wait runs out of time: as
  soon as no thread can go on, every read has returned 0 and the value the server answered for its name, in order.
\<close>

theorem reads_complete:
  assumes "waits read_reply server {Run, Spurious} (wait_start flag x d xs) st" "\<And>st'. \<not> wait_step read_reply server Run st st'"
  shows "w_done st = map (\<lambda>y. (y, 0, server y)) xs"
  using waits_read_inv [OF assms(1)] stuck_done [OF reading.waits_inv [OF assms(1)] waits_read_inv [OF assms(1)] assms(2)]
  by (simp add: read_inv_def)

theorem reads_complete_witness:
  "\<exists>st. waits read_reply (\<lambda>_. [7]) {Run, Spurious} (wait_start False (syncs_idstr []) [] [syncs_idstr (cstr ''a''), syncs_idstr (cstr ''b'')]) st \<and>
     w_done st = [(syncs_idstr (cstr ''a''), 0, [7]), (syncs_idstr (cstr ''b''), 0, [7])]"
  using reads_can_end [of "\<lambda>_. [7]" False "syncs_idstr []" "[]" "[syncs_idstr (cstr ''a''), syncs_idstr (cstr ''b'')]"] reads_complete by fastforce



text \<open>
  C38: A read can return the value of another variable. After a read of \<open>a\<close> that ran out of time, the next read, of \<open>b\<close>, sets its flag before it stores
  the id; the late answer for \<open>a\<close> that is handled in between still matches the old id and clears the flag. The read of \<open>b\<close> returns 0 and the value of \<open>a\<close>.
\<close>

theorem late_answer_taken:
  "\<exists>st. waits read_reply server UNIV (wait_start flag x d [a, b]) st \<and> w_done st = [(a, - ETIMEDOUT, []), (b, 0, server a)]"
proof -
  let ?W = "waits read_reply server UNIV (wait_start flag x d [a, b])"
  define mk where "mk = (\<lambda>f ow ap rc nt i v todo done. \<lparr>w_flag = f, w_owner = ow, w_app = ap, w_recv = rc, w_net = nt, w_id = i, w_data = v,
    w_todo = todo, w_done = done\<rparr> :: wait_state)"
  let ?p = "(a, server a)" and ?q = "(b, server b)" and ?e = "[(a, - ETIMEDOUT, [])]"
  have step: "?W st \<Longrightarrow> wait_step read_reply server l st st' \<Longrightarrow> st'' = st' \<Longrightarrow> ?W st''" for l st st' st''
    using waits_step [of read_reply server UNIV "wait_start flag x d [a, b]" st l st'] by simp
  have "?W (mk flag None At_flag In_recv [] x d [a, b] [])"
    using waits_start [of read_reply server UNIV "wait_start flag x d [a, b]"] by (simp add: mk_def wait_start_def)
  then have "?W (mk True None At_id In_recv [] x d [a, b] [])" by (rule step [OF _ wait_step.set_flag]) (simp_all add: mk_def)
  then have "?W (mk True None At_send In_recv [] a d [a, b] [])" by (rule step [OF _ wait_step.set_id]) (simp_all add: mk_def)
  then have "?W (mk True None At_lock In_recv [?p] a d [a, b] [])" by (rule step [OF _ wait_step.send]) (simp_all add: mk_def)
  then have "?W (mk True (Some Application) At_test In_recv [?p] a d [a, b] [])" by (rule step [OF _ wait_step.lock]) (simp_all add: mk_def)
  then have "?W (mk True None Asleep In_recv [?p] a d [a, b] [])" by (rule step [OF _ wait_step.sleep]) (simp_all add: mk_def)
  then have "?W (mk True None (Awake True) In_recv [?p] a d [a, b] [])" by (rule step [OF _ wait_step.timeout]) (simp_all add: mk_def)
  then have "?W (mk True (Some Application) At_expired In_recv [?p] a d [a, b] [])"
    by (rule step [OF _ wait_step.relock [where b = True]]) (simp_all add: mk_def)
  then have "?W (mk True None At_flag In_recv [?p] a d [b] ?e)" by (rule step [OF _ wait_step.expire]) (simp_all add: mk_def)
  then have "?W (mk True None At_id In_recv [?p] a d [b] ?e)" by (rule step [OF _ wait_step.set_flag]) (simp_all add: mk_def)
  then have "?W (mk True None At_id (To_lock ?p) [] a d [b] ?e)" by (rule step [OF _ wait_step.receive]) (simp_all add: mk_def)
  then have "?W (mk True (Some Receiver) At_id (Critical ?p) [] a d [b] ?e)" by (rule step [OF _ wait_step.recv_lock]) (simp_all add: mk_def)
  then have "?W (mk False (Some Receiver) At_id To_signal [] a (server a) [b] ?e)"
    by (rule step [OF _ wait_step.critical [where signals = True and p = ?p and st' = "mk False (Some Receiver) At_id (Critical ?p) [] a (server a) [b] ?e"]]) (simp_all add: mk_def read_reply_def)
  then have "?W (mk False (Some Receiver) At_id To_unlock [] a (server a) [b] ?e)" by (rule step [OF _ wait_step.signal]) (simp_all add: mk_def)
  then have "?W (mk False None At_id In_recv [] a (server a) [b] ?e)" by (rule step [OF _ wait_step.recv_unlock]) (simp_all add: mk_def)
  then have "?W (mk False None At_send In_recv [] b (server a) [b] ?e)" by (rule step [OF _ wait_step.set_id]) (simp_all add: mk_def)
  then have "?W (mk False None At_lock In_recv [?q] b (server a) [b] ?e)" by (rule step [OF _ wait_step.send]) (simp_all add: mk_def)
  then have "?W (mk False (Some Application) At_test In_recv [?q] b (server a) [b] ?e)" by (rule step [OF _ wait_step.lock]) (simp_all add: mk_def)
  then have "?W (mk False (Some Application) At_leave In_recv [?q] b (server a) [b] ?e)" by (rule step [OF _ wait_step.go_on]) (simp_all add: mk_def)
  then have "?W (mk False None At_copy In_recv [?q] b (server a) [b] ?e)" by (rule step [OF _ wait_step.leave]) (simp_all add: mk_def)
  then have "?W (mk False None At_flag In_recv [?q] b (server a) [] (?e @ [(b, 0, server a)]))" by (rule step [OF _ wait_step.copy]) (simp_all add: mk_def)
  then show ?thesis by (intro exI [of _ "mk False None At_flag In_recv [?q] b (server a) [] (?e @ [(b, 0, server a)])"]) (simp add: mk_def)
qed

end
