(* ===== verification/Spec2Isabelle.thy ===== *)
theory Spec2Isabelle
  imports Crypt Server_Loop Server_Typed Client_Safe Sync_Time Config Mon Wait
begin

text \<open>
  SyncScribe: a server that holds named, typed variables and announced channels, clients that write, read and
  subscribe to them over TCP or UDP, and the tools around them.

  \<^bold>\<open>The program and its model.\<close> All code is under \<^verbatim>\<open>src/\<close>; a definition has the name of the C function it
  translates wherever that is possible.

  \<^item> Packets (\<^verbatim>\<open>libsyncs/syncs-types.h\<close>, \<^verbatim>\<open>libsyncs/syncs-common.h\<close>): theory \<open>Wire\<close> has the packed structures with their
    images in memory, ids and names, the size macros and the functions that fill headers. \<open>Frames\<close> has the abstract view of a byte stream as a sequence
    of packets, and the locales \<open>packet_scan\<close> and \<open>packet_loop\<close>, the contract of a receive loop.
  \<^item> Encryption (\<^verbatim>\<open>libsyncs/syncs-crypt.c\<close>): theory \<open>Crypt\<close>, over the cipher of OpenSSL as a parameter.
  \<^item> The operating system (\<^verbatim>\<open>libsyncs/syncs-net-common.c\<close>, \<^verbatim>\<open>syncs-net-server.c\<close>, \<^verbatim>\<open>syncs-net-client.c\<close>): \<open>Net\<close> has what a process sends, opens
    and closes as a record, and the two senders; \<open>Sockets\<close> has the functions that open and configure sockets, with the
    locale \<open>opener\<close>, their contract on descriptors.
  \<^item> The server (\<^verbatim>\<open>libsyncs/syncs-server.c\<close>): \<open>Slots\<close> is the contract of a table of entries with ids; \<open>Server_State\<close> has the state and the
    operations on tables, \<open>Server_Events\<close> the operations on variables, subscriptions and their delivery, \<open>Server_Lists\<close> the paged lists, \<open>Server_Channels\<close> the
    channels, \<open>Server_Dispatch\<close> the handling of packets, streams, datagrams and new clients, \<open>Server_Loop\<close> the epoll loop and the thread. The
    theories between them hold lemmas: \<open>Server_Inv\<close> the invariant \<open>server_inv\<close>, \<open>Server_Subs\<close> subscriptions, \<open>Server_Vars\<close> the abstract store \<open>variables\<close>,
    \<open>Server_Laws\<close> what callbacks must keep and that each operation keeps the invariant, \<open>Server_Store\<close>, \<open>Server_Api\<close> and \<open>Server_Packets\<close> the refinement of
    the store by the operations, the API and single packets, \<open>Server_Delivery\<close> what is sent to whom, \<open>Server_Stream\<close> how a
    stream is cut, \<open>Server_Typed\<close> the refinement of the store by whole streams and that variables keep their types.
  \<^item> The client (\<^verbatim>\<open>libsyncs/syncs-client.c\<close>): \<open>Client_State\<close> has the state and what a client sends, \<open>Client_Recv\<close> what it does with packets, the
    receive loops and the functions that wait, \<open>Client_Threads\<close> the threads and disconnecting. \<open>Client_Events\<close>, \<open>Client_Subs\<close> and \<open>Client_Stream\<close> hold the
    lemmas about events, subscriptions and the stream. \<open>Client_Link\<close> and \<open>Client_Lists\<close> put a client and a server together. \<open>Client_Safe\<close> has the states a client can
    reach, its invariant and what follows from it. \<open>Sync_Time\<close> is about events that carry a time. \<open>Wait\<close> has the two threads of a client around one answer, interleaved, as a step relation.
  \<^item> Finding a server (SSDP, in both files): \<open>Discovery\<close>.
  \<^item> The programs \<^verbatim>\<open>syncsserver/syncsserver.c\<close>, \<^verbatim>\<open>syncsctrl/syncsctrl.c\<close> and \<^verbatim>\<open>syncsmon/syncsmon.c\<close>: \<open>Config\<close>, \<open>Ctrl\<close> and \<open>Mon\<close>; \<open>Print\<close> is
    the status print of a server. \<open>Text\<close> has what all of them use of the C library on text.

  \<^bold>\<open>Conventions.\<close> A C array is a function from indices or a byte list; a pointer into a table is an index, NULL is \<open>None\<close>. Integers are words of
  their width where they travel in packets or wrap, \<open>int\<close> or \<open>nat\<close> where the code keeps them small. What the kernel, the clock, the network and
  uninitialised memory give is an argument or part of the record \<open>os\<close>. What C leaves undefined sets \<open>os_fault\<close>, so that memory safety is a property of
  the final state. Endless loops are modelled over the list of results of the call they block in; every such list is finite and arbitrary. The loop of \<open>syncs_wait_for\<close> is one of the steps of \<open>Wait\<close>; that
  those end is a theorem. Other loops terminate:
  the receive loops by the bytes left in the buffer, the rest by structural recursion. No fuel is used. The application's
  callbacks are parameters; the locales \<open>server_callbacks\<close>, \<open>passive_callbacks\<close>, \<open>client_callbacks\<close> and \<open>fd_callbacks\<close> state what is needed of them and are
  interpreted on the callbacks of the programs.

  \<^bold>\<open>What is shown.\<close> Every state a server can reach satisfies \<open>server_inv\<close> and is free of faults, under two bounds: a read from a TCP client
  leaves ten bytes of the 32768 of its buffer free, because an announcement reads a ticket of ten bytes wherever the packet ends, and the application writes at most 511
  bytes. A client that requests no lists is free of faults in every
  state it can reach, whatever bytes it receives, under bounds on what the application passes; requests for lists are left out there because their pages are
  copied without a bound. Packets, and the streams they make up, refine operations on an abstract store of variables, which keep their types unless they are removed or defined anew with FORCE; writes reach exactly the subscribers; subscribing, unsubscribing,
  defining, removing and closing do what they promise. A stream is cut into the packets it consists of however it is split into reads of at least a
  header, on both sides, with fewer than 571 bytes left over. Across the connection, a written value arrives in the store, a read returns the value of the
  store, the lists arrive complete, a reconnecting client announces itself, its subscriptions and channels, a timed event is released by all clients together,
  a search finds the server, the monitor prints the variables of the server. In every interleaving of the two threads of a client no
  wake-up is lost, the threads come to rest, and reads that do not run out of time return the right values. Several theorems state defects of the code: bytes lost by short reads, a removal that defines, tickets
  that are not recognised, channel requests that return an empty ticket at once, leaked descriptors, overrun arrays, misread configurations, a status print that a client can stop, a monitor that erases names, a late
  answer taken for the next one.

  \<^bold>\<open>Not modelled.\<close> The interleaving of threads inside a function other than in \<open>Wait\<close> (elsewhere the functions that wait take what the other thread does as an
  argument); the code has no locks around its tables, and what simultaneous calls of the API do to them is not described; what \<open>syncsserver\<close> and \<open>syncsctrl\<close> print besides the status, and the texts of their options; logging (\<^verbatim>\<open>include/syncs-debug.h\<close>); the programs under
  \<^verbatim>\<open>tests\<close> and \<^verbatim>\<open>python\<close>, which use the library from outside.
\<close>

end
